(* ===== verification/Prelude.thy ===== *)
theory Prelude
  imports Main "HOL-Library.AList"
begin

text \<open>
  Shared vocabulary of the development: Go maps, Go strings, Go times, and the generic
  lemmas the component theories rest on.
  \<^item> A Go map is an association list with distinct keys (\<open>gmap_ok\<close>).  The list
    order stands for the iteration order of a \<^verbatim>\<open>range\<close> loop, which Go leaves
    unspecified: the theorems quantify over all lists, hence over all iteration orders.
  \<^item> A Go string is the list of its bytes.  \<open>TrimSpace\<close> and \<open>ToUpper\<close> are the
    ASCII parts of the functions of package \<^verbatim>\<open>strings\<close>.
  \<^item> A \<^verbatim>\<open>time.Time\<close> is the number of nanoseconds since Go's zero time, so that
    \<^verbatim>\<open>IsZero\<close> is a comparison with 0; a \<^verbatim>\<open>time.Duration\<close> is a number of
    nanoseconds.  A reading of the clock is an argument of the operation that takes it.
\<close>

named_theorems gomap_simps

section \<open>Go maps\<close>

type_synonym ('k, 'v) gomap = "('k \<times> 'v) list"

abbreviation gput :: "'k \<Rightarrow> 'v \<Rightarrow> ('k, 'v) gomap \<Rightarrow> ('k, 'v) gomap" where
  "gput \<equiv> AList.update"

abbreviation gdel :: "'k \<Rightarrow> ('k, 'v) gomap \<Rightarrow> ('k, 'v) gomap" where
  "gdel \<equiv> AList.delete"

abbreviation gmap_ok :: "('k, 'v) gomap \<Rightarrow> bool" where
  "gmap_ok m \<equiv> distinct (map fst m)"

text \<open>Reading a key: the zero value of the element type stands in for a missing key.\<close>

definition gget :: "'v \<Rightarrow> ('k, 'v) gomap \<Rightarrow> 'k \<Rightarrow> 'v" where
  "gget z m k = (case map_of m k of Some v \<Rightarrow> v | None \<Rightarrow> z)"

definition ghas :: "('k, 'v) gomap \<Rightarrow> 'k \<Rightarrow> bool" where
  "ghas m k = (map_of m k \<noteq> None)"

text \<open>A predicate on all entries, and the exact total of a rational weight of the entries.\<close>

definition gall :: "('k \<Rightarrow> 'v \<Rightarrow> bool) \<Rightarrow> ('k, 'v) gomap \<Rightarrow> bool" where
  "gall P m = list_all (\<lambda>(k, v). P k v) m"

definition gsum :: "('v \<Rightarrow> 'a::ab_group_add) \<Rightarrow> ('k, 'v) gomap \<Rightarrow> 'a" where
  "gsum f m = sum_list (map (\<lambda>(k, v). f v) m)"

lemmas [gomap_simps] = update_conv' delete_conv' distinct_update distinct_delete

lemma ghas_put [simp]: "ghas (gput k v m) k' \<longleftrightarrow> k' = k \<or> ghas m k'"
  by (simp add: ghas_def update_conv')

lemma ghas_del [simp]: "ghas (gdel k m) k' \<longleftrightarrow> k' \<noteq> k \<and> ghas m k'"
  by (simp add: ghas_def delete_conv')

lemma ghas_Nil [simp]: "\<not> ghas [] k"
  by (simp add: ghas_def)

lemma ghas_iff_mem: "ghas m k \<longleftrightarrow> k \<in> fst ` set m"
  by (metis ghas_def map_of_eq_None_iff)

lemma gget_put [simp]: "gget z (gput k v m) k' = (if k' = k then v else gget z m k')"
  by (simp add: gget_def update_conv')

lemma gget_del: "gget z (gdel k m) k' = (if k' = k then z else gget z m k')"
  by (simp add: gget_def delete_conv')

lemma gall_Nil [simp]: "gall P []"
  by (simp add: gall_def)

lemma gall_Cons [simp]: "gall P ((k, v) # m) \<longleftrightarrow> P k v \<and> gall P m"
  by (simp add: gall_def)

lemma gall_lookup: "gall P m \<Longrightarrow> map_of m k = Some v \<Longrightarrow> P k v"
  by (auto simp: gall_def list_all_iff dest: map_of_SomeD)

lemma gall_iff: "gmap_ok m \<Longrightarrow> gall P m \<longleftrightarrow> (\<forall>k v. map_of m k = Some v \<longrightarrow> P k v)"
  by (auto simp: gall_def list_all_iff map_of_eq_Some_iff)

lemma gall_put: "gall P m \<Longrightarrow> P k v \<Longrightarrow> gall P (gput k v m)"
  by (induction m) (auto simp: gall_def)

lemma gall_del: "gall P m \<Longrightarrow> gall P (gdel k m)"
  by (induction m) (auto simp: gall_def)

lemma gall_mono: "gall P m \<Longrightarrow> (\<And>k v. P k v \<Longrightarrow> Q k v) \<Longrightarrow> gall Q m"
  by (auto simp: gall_def list_all_iff)

lemma gsum_Nil [simp]: "gsum f [] = 0"
  by (simp add: gsum_def)

lemma gsum_Cons [simp]: "gsum f ((k, v) # m) = f v + gsum f m"
  by (simp add: gsum_def)

lemma gsum_put_new: "map_of m k = None \<Longrightarrow> gsum f (gput k v m) = gsum f m + f v"
  by (induction m) (auto simp: gsum_def add_ac split: if_splits)

lemma gsum_put_old:
  "gmap_ok m \<Longrightarrow> map_of m k = Some w \<Longrightarrow> gsum f (gput k v m) = gsum f m - f w + f v"
  by (induction m) (auto simp: algebra_simps split: if_splits)

lemma gsum_del:
  "gmap_ok m \<Longrightarrow> map_of m k = Some w \<Longrightarrow> gsum f (gdel k m) = gsum f m - f w"
proof (induction m)
  case (Cons a m)
  show ?case
  proof (cases "fst a = k")
    case True
    with Cons.prems have "gdel k m = m" by (auto intro: delete_id)
    with True Cons.prems show ?thesis by (cases a) auto
  next
    case False
    with Cons show ?thesis by (cases a) (auto simp: algebra_simps)
  qed
qed simp

lemma length_put_new: "map_of m k = None \<Longrightarrow> length (gput k v m) = Suc (length m)"
  by (induction m) (auto split: if_splits)

section \<open>Go strings\<close>

definition is_space :: "char \<Rightarrow> bool" where
  "is_space c = ((of_char c :: nat) \<in> {9, 10, 11, 12, 13, 32})"

definition TrimSpace :: "string \<Rightarrow> string" where
  "TrimSpace s = rev (dropWhile is_space (rev (dropWhile is_space s)))"

definition upper_char :: "char \<Rightarrow> char" where
  "upper_char c = (let n = (of_char c :: nat) in if 97 \<le> n \<and> n \<le> 122 then char_of (n - 32) else c)"

definition ToUpper :: "string \<Rightarrow> string" where
  "ToUpper s = map upper_char s"

lemma TrimSpace_Nil [simp]: "TrimSpace [] = []"
  by (simp add: TrimSpace_def)

lemma TrimSpace_eq_Nil: "TrimSpace s = [] \<longleftrightarrow> (\<forall>c \<in> set s. is_space c)"
proof
  assume "TrimSpace s = []"
  then have all: "\<forall>c \<in> set (dropWhile is_space s). is_space c"
    by (simp add: TrimSpace_def dropWhile_eq_Nil_conv)
  then have "dropWhile is_space s = []"
    using hd_dropWhile [of is_space s] hd_in_set by blast
  then show "\<forall>c \<in> set s. is_space c"
    by (simp add: dropWhile_eq_Nil_conv)
qed (auto simp: TrimSpace_def dropWhile_eq_Nil_conv dest: set_dropWhileD)

section \<open>Go times\<close>

type_synonym time = int
type_synonym duration = int

abbreviation (input) second :: duration where
  "second \<equiv> 1000000000"

abbreviation (input) minute :: duration where
  "minute \<equiv> 60000000000"

definition maxDuration :: duration where
  "maxDuration = 2 ^ 63 - 1"

definition minDuration :: duration where
  "minDuration = - (2 ^ 63)"

text \<open>\<^verbatim>\<open>Time.Sub\<close> saturates at the bounds of \<^verbatim>\<open>int64\<close>.\<close>

definition timeSub :: "time \<Rightarrow> time \<Rightarrow> duration" where
  "timeSub t u = max minDuration (min maxDuration (t - u))"

text \<open>Seconds from Go's zero time to the Unix epoch.\<close>

definition unixEpoch :: int where
  "unixEpoch = 62135596800"

definition timeUnix :: "time \<Rightarrow> int" where
  "timeUnix t = t div second - unixEpoch"

definition timeUnixMilli :: "time \<Rightarrow> int" where
  "timeUnixMilli t = t div 1000000 - unixEpoch * 1000"

lemma timeSub_less_iff:
  "minDuration < d \<Longrightarrow> d \<le> maxDuration \<Longrightarrow> timeSub t u < d \<longleftrightarrow> t - u < d"
  by (auto simp: timeSub_def minDuration_def maxDuration_def)

end
