(* ===== verification/Float64.thy ===== *)
theory Float64
  imports Complex_Main "HOL-Library.Log_Nat"
begin

text \<open>
  Go's \<^verbatim>\<open>float64\<close> as the set of rationals that are fixed points of rounding to nearest,
  ties to even, with 53 bits of precision and the subnormal step \<open>2 ^ (- 1074)\<close>.  Every
  operation is the exact rational operation followed by one rounding.  The type has the finite
  values only: amounts, prices and sizes of the program are far from the overflow threshold, and
  the model has no infinities, NaNs or signed zeros (a division by 0 yields 0, and the code
  guards its divisions).  The locale \<open>rounding\<close> states what the error bounds need of a
  rounding function.
\<close>

section \<open>Powers of two and the binary exponent\<close>

abbreviation pow2 :: "int \<Rightarrow> rat" where
  "pow2 k \<equiv> 2 powi k"

lemma pow2_pos [simp]: "0 < pow2 k"
  by (simp add: zero_less_power_int)

lemma pow2_neq0 [simp]: "pow2 k \<noteq> 0"
  using pow2_pos [of k] by linarith

lemma pow2_add: "pow2 (a + b) = pow2 a * pow2 b"
  by (simp add: power_int_add)

lemma pow2_diff: "pow2 (a - b) = pow2 a / pow2 b"
  by (simp add: power_int_diff)

lemma pow2_nat: "0 \<le> k \<Longrightarrow> pow2 k = 2 ^ nat k"
  by (simp add: power_int_def)

lemma pow2_mono: "a \<le> b \<Longrightarrow> pow2 a \<le> pow2 b"
  by (rule power_int_increasing) simp_all

lemma pow2_le_iff [simp]: "pow2 a \<le> pow2 b \<longleftrightarrow> a \<le> b"
  by (metis linorder_not_less one_less_numeral_iff power_int_strict_increasing pow2_mono semiring_norm(76))

lemma pow2_less_iff [simp]: "pow2 a < pow2 b \<longleftrightarrow> a < b"
  using pow2_le_iff [of b a] by (simp add: not_le [symmetric])

lemma pow2_of_int: "0 \<le> k \<Longrightarrow> pow2 k = of_int (2 ^ nat k)"
  by (simp add: pow2_nat)

definition ilog2 :: "rat \<Rightarrow> int" where
  "ilog2 x = (case quotient_of x of (p, q) \<Rightarrow>
     (let k = bitlen p - bitlen q in if pow2 k \<le> x then k else k - 1))"

lemma bitlen_pow2_bounds:
  assumes "0 < n"
  shows "pow2 (bitlen n - 1) \<le> of_int n" and "of_int n < pow2 (bitlen n)"
proof -
  have b: "1 \<le> bitlen n"
    using assms bitlen_eq_zero_iff [of n] bitlen_nonneg [of n] by linarith
  have l: "2 ^ nat (bitlen n - 1) \<le> n" and u: "n < 2 ^ nat (bitlen n)"
    using bitlen_bounds [OF assms] by simp_all
  have "(of_int (2 ^ nat (bitlen n - 1)) :: rat) \<le> of_int n"
    using l by (simp only: of_int_le_iff)
  then show "pow2 (bitlen n - 1) \<le> of_int n"
    using b by (simp add: pow2_of_int)
  have "(of_int n :: rat) < of_int (2 ^ nat (bitlen n))"
    using u by (simp only: of_int_less_iff)
  then show "of_int n < pow2 (bitlen n)"
    using b by (simp add: pow2_of_int)
qed

lemma ilog2_bounds:
  assumes "0 < x"
  shows "pow2 (ilog2 x) \<le> x" and "x < pow2 (ilog2 x + 1)"
proof -
  obtain p q where pq: "quotient_of x = (p, q)" by fastforce
  have q: "0 < q" using quotient_of_denom_pos [OF pq] .
  have x: "x = of_int p / of_int q" using quotient_of_div [OF pq] .
  have p: "0 < p" using assms q by (simp add: x zero_less_divide_iff)
  define k where "k = bitlen p - bitlen q"
  have pos: "(0::rat) < of_int q" "(0::rat) < of_int p" using p q by simp_all
  have hi: "x < pow2 (k + 1)"
  proof -
    have "x < pow2 (bitlen p) / pow2 (bitlen q - 1)"
      unfolding x using bitlen_pow2_bounds [OF p] bitlen_pow2_bounds [OF q] pos
      by (intro frac_less) simp_all
    then show ?thesis by (simp add: pow2_diff [symmetric] k_def algebra_simps)
  qed
  have lo: "pow2 (k - 1) \<le> x"
  proof -
    have "pow2 (bitlen p - 1) / pow2 (bitlen q) \<le> x"
      unfolding x using bitlen_pow2_bounds [OF p] bitlen_pow2_bounds [OF q] pos
      by (intro frac_le) simp_all
    then show ?thesis by (simp add: pow2_diff [symmetric] k_def algebra_simps)
  qed
  have "ilog2 x = (if pow2 k \<le> x then k else k - 1)"
    by (simp add: ilog2_def pq k_def Let_def)
  with hi lo show "pow2 (ilog2 x) \<le> x" and "x < pow2 (ilog2 x + 1)"
    by (simp_all split: if_splits)
qed

lemma ilog2_mono:
  assumes "0 < x" and "x \<le> y"
  shows "ilog2 x \<le> ilog2 y"
proof -
  have "pow2 (ilog2 x) < pow2 (ilog2 y + 1)"
    using ilog2_bounds(1) [OF assms(1)] ilog2_bounds(2) [of y] assms by linarith
  then show ?thesis by simp
qed

lemma ilog2_less: "0 < x \<Longrightarrow> x < pow2 k \<Longrightarrow> ilog2 x < k"
  using ilog2_bounds(1) [of x] pow2_less_iff [of "ilog2 x" k] by linarith

section \<open>Rounding to the nearest integer, ties to even\<close>

definition rne :: "rat \<Rightarrow> int" where
  "rne m = (let f = \<lfloor>m\<rfloor>; d = m - of_int f in
     if d < 1/2 then f else if 1/2 < d then f + 1 else if even f then f else f + 1)"

lemma rne_of_int [simp]: "rne (of_int n) = n"
  by (simp add: rne_def)

lemma rne_bounds: "\<lfloor>m\<rfloor> \<le> rne m" "rne m \<le> \<lfloor>m\<rfloor> + 1"
  by (simp_all add: rne_def Let_def)

lemma rne_err: "\<bar>of_int (rne m) - m\<bar> \<le> 1/2"
proof -
  have "of_int \<lfloor>m\<rfloor> \<le> m" and "m < of_int \<lfloor>m\<rfloor> + 1" by linarith+
  then show ?thesis by (auto simp: rne_def Let_def abs_le_iff)
qed

lemma rne_mono:
  assumes "m \<le> n"
  shows "rne m \<le> rne n"
proof (cases "\<lfloor>m\<rfloor> = \<lfloor>n\<rfloor>")
  case True
  with assms show ?thesis by (auto simp: rne_def Let_def)
next
  case False
  then have "\<lfloor>m\<rfloor> + 1 \<le> \<lfloor>n\<rfloor>" using floor_mono [OF assms] by linarith
  with rne_bounds(2) [of m] rne_bounds(1) [of n] show ?thesis by linarith
qed

lemma rne_le_int: "m \<le> of_int n \<Longrightarrow> rne m \<le> n"
  using rne_mono [of m "of_int n"] by simp

lemma rne_ge_int: "of_int n \<le> m \<Longrightarrow> n \<le> rne m"
  using rne_mono [of "of_int n" m] by simp

section \<open>Rounding to binary64\<close>

definition expo :: "rat \<Rightarrow> int" where
  "expo x = max (ilog2 x - 52) (- 1074)"

definition rnd_pos :: "rat \<Rightarrow> rat" where
  "rnd_pos x = of_int (rne (x / pow2 (expo x))) * pow2 (expo x)"

definition rnd64 :: "rat \<Rightarrow> rat" where
  "rnd64 x = (if x = 0 then 0 else if x < 0 then - rnd_pos (- x) else rnd_pos x)"

lemma expo_mono: "0 < x \<Longrightarrow> x \<le> y \<Longrightarrow> expo x \<le> expo y"
  using ilog2_mono [of x y] by (simp add: expo_def)

lemma expo_upper:
  assumes "0 < x"
  shows "x < pow2 (expo x + 53)"
proof -
  have "pow2 (ilog2 x + 1) \<le> pow2 (expo x + 53)" by (simp add: expo_def)
  then show ?thesis using ilog2_bounds(2) [OF assms] by linarith
qed

lemma expo_lower:
  assumes "0 < x" and "- 1074 < expo x"
  shows "pow2 (expo x + 52) \<le> x"
proof -
  have "expo x + 52 = ilog2 x" using assms(2) by (simp add: expo_def)
  then show ?thesis using ilog2_bounds(1) [OF assms(1)] by simp
qed

lemma rnd_pos_upper:
  assumes "0 < x"
  shows "rnd_pos x \<le> pow2 (expo x + 53)"
proof -
  have "x / pow2 (expo x) \<le> of_int (2 ^ 53)"
    using expo_upper [OF assms] by (simp add: pow2_add field_simps pow2_nat)
  then have "rne (x / pow2 (expo x)) \<le> 2 ^ 53" by (rule rne_le_int)
  then have "(of_int (rne (x / pow2 (expo x))) :: rat) \<le> of_int (2 ^ 53)"
    by (simp only: of_int_le_iff)
  then have "rnd_pos x \<le> of_int (2 ^ 53) * pow2 (expo x)"
    unfolding rnd_pos_def by (rule mult_right_mono) (simp add: less_imp_le)
  then show ?thesis by (simp add: pow2_add pow2_nat mult.commute)
qed

lemma rnd_pos_lower:
  assumes "0 < x" and "- 1074 < expo x"
  shows "pow2 (expo x + 52) \<le> rnd_pos x"
proof -
  have "of_int (2 ^ 52) \<le> x / pow2 (expo x)"
    using expo_lower [OF assms] by (simp add: pow2_add field_simps pow2_nat)
  then have "2 ^ 52 \<le> rne (x / pow2 (expo x))" by (rule rne_ge_int)
  then have "(of_int (2 ^ 52) :: rat) \<le> of_int (rne (x / pow2 (expo x)))"
    by (simp only: of_int_le_iff)
  then have "of_int (2 ^ 52) * pow2 (expo x) \<le> rnd_pos x"
    unfolding rnd_pos_def by (rule mult_right_mono) (simp add: less_imp_le)
  then show ?thesis by (simp add: pow2_add pow2_nat mult.commute)
qed

lemma rnd_pos_mono:
  assumes "0 < x" and "x \<le> y"
  shows "rnd_pos x \<le> rnd_pos y"
proof (cases "expo x = expo y")
  case True
  have "rne (x / pow2 (expo y)) \<le> rne (y / pow2 (expo y))"
    using assms(2) by (intro rne_mono divide_right_mono) (simp_all add: less_imp_le)
  then show ?thesis
    unfolding rnd_pos_def True by (intro mult_right_mono) (simp_all add: less_imp_le)
next
  case False
  then have e: "expo x + 1 \<le> expo y" using expo_mono [OF assms] by linarith
  have ey: "- 1074 < expo y" using e by (simp add: expo_def)
  have "rnd_pos x \<le> pow2 (expo x + 53)" using assms(1) by (rule rnd_pos_upper)
  also have "\<dots> \<le> pow2 (expo y + 52)" using e by simp
  also have "\<dots> \<le> rnd_pos y" using assms ey by (intro rnd_pos_lower) simp_all
  finally show ?thesis .
qed

lemma rnd_pos_nonneg: "0 < x \<Longrightarrow> 0 \<le> rnd_pos x"
  unfolding rnd_pos_def by (intro mult_nonneg_nonneg) (auto simp: less_imp_le intro: rne_ge_int)

lemma rnd_pos_err:
  assumes "0 < x"
  shows "\<bar>rnd_pos x - x\<bar> \<le> x / 2 ^ 53 + 1 / 2 ^ 1075"
proof -
  let ?e = "expo x"
  have "rnd_pos x - x = (of_int (rne (x / pow2 ?e)) - x / pow2 ?e) * pow2 ?e"
    by (simp add: rnd_pos_def field_simps)
  then have "\<bar>rnd_pos x - x\<bar> \<le> 1/2 * pow2 ?e"
    using rne_err [of "x / pow2 ?e"] by (simp add: abs_mult mult_right_mono less_imp_le)
  also have "\<dots> \<le> x / 2 ^ 53 + 1 / 2 ^ 1075"
  proof (cases "- 1074 < ?e")
    case True
    have "pow2 ?e * 2 ^ 52 \<le> x" using expo_lower [OF assms True] by (simp add: pow2_add pow2_nat)
    then show ?thesis by simp
  next
    case False
    then have "?e = - 1074" by (simp add: expo_def)
    then have "1/2 * pow2 ?e = 1 / 2 ^ 1075" by (simp add: power_int_minus field_simps)
    then show ?thesis using assms by simp
  qed
  finally show ?thesis .
qed

lemma rnd64_0 [simp]: "rnd64 0 = 0"
  by (simp add: rnd64_def)

lemma rnd64_neg [simp]: "rnd64 (- x) = - rnd64 x"
  by (simp add: rnd64_def)

lemma rnd64_nonneg: "0 \<le> x \<Longrightarrow> 0 \<le> rnd64 x"
  by (simp add: rnd64_def rnd_pos_nonneg)

lemma rnd64_mono:
  assumes "x \<le> y"
  shows "rnd64 x \<le> rnd64 y"
proof -
  consider "0 < x" | "x \<le> 0" "0 \<le> y" | "y < 0" by linarith
  then show ?thesis
  proof cases
    case 1
    with assms show ?thesis by (simp add: rnd64_def rnd_pos_mono)
  next
    case 2
    then have "rnd64 x \<le> 0" using rnd64_nonneg [of "- x"] by simp
    also have "0 \<le> rnd64 y" using 2 by (simp add: rnd64_nonneg)
    finally show ?thesis .
  next
    case 3
    with assms have "rnd_pos (- y) \<le> rnd_pos (- x)" by (intro rnd_pos_mono) simp_all
    with 3 assms show ?thesis by (simp add: rnd64_def)
  qed
qed

lemma rnd64_err: "\<bar>rnd64 x - x\<bar> \<le> \<bar>x\<bar> / 2 ^ 53 + 1 / 2 ^ 1075"
proof -
  consider "x = 0" | "0 < x" | "x < 0" by linarith
  then show ?thesis
  proof cases
    case 2
    then show ?thesis using rnd_pos_err [of x] by (simp add: rnd64_def)
  next
    case 3
    then show ?thesis using rnd_pos_err [of "- x"] by (simp add: rnd64_def abs_minus_commute)
  qed simp
qed

text \<open>A number with a 53-bit significand and an exponent in range is its own rounding.\<close>

lemma rnd_pos_exact:
  assumes x: "x = of_int m * pow2 k" and m: "0 < m" "m \<le> 2 ^ 53" and k: "- 1074 \<le> k"
  shows "rnd_pos x = x"
proof -
  have pos: "0 < x" using x m by simp
  have ub: "x \<le> pow2 (k + 53)"
  proof -
    have "(of_int m :: rat) \<le> of_int (2 ^ 53)" using m by (simp only: of_int_le_iff)
    then show ?thesis by (simp add: x pow2_add pow2_nat mult.commute)
  qed
  have int_scaled: "\<exists>n. x / pow2 (expo x) = of_int n"
  proof (cases "m = 2 ^ 53")
    case True
    then have "x = pow2 (k + 53)" by (simp add: x pow2_add pow2_nat mult.commute)
    then have "x / pow2 (expo x) = pow2 (k + 53 - expo x)" by (simp add: pow2_diff)
    moreover have "expo x \<le> k + 53"
    proof -
      have "ilog2 x < k + 54" using pos ub by (intro ilog2_less) (simp_all add: \<open>x = pow2 (k + 53)\<close>)
      then show ?thesis using k by (simp add: expo_def)
    qed
    ultimately show ?thesis by (metis diff_ge_0_iff_ge pow2_of_int)
  next
    case False
    then have "m < 2 ^ 53" using m by simp
    then have "(of_int m :: rat) < of_int (2 ^ 53)" by (simp only: of_int_less_iff)
    then have "x < pow2 (k + 53)" by (simp add: x pow2_add pow2_nat mult.commute)
    then have "ilog2 x < k + 53" using pos by (rule ilog2_less [rotated])
    then have e: "expo x \<le> k" using k by (simp add: expo_def)
    have "x / pow2 (expo x) = of_int m * pow2 (k - expo x)" by (simp add: x pow2_diff)
    also have "\<dots> = of_int (m * 2 ^ nat (k - expo x))" using e by (simp add: pow2_of_int)
    finally show ?thesis ..
  qed
  then obtain n where "x / pow2 (expo x) = of_int n" ..
  then have "rnd_pos x = (x / pow2 (expo x)) * pow2 (expo x)"
    unfolding rnd_pos_def by simp
  then show ?thesis by simp
qed

lemma rnd64_exact:
  assumes x: "x = of_int m * pow2 k" and m: "\<bar>m\<bar> \<le> 2 ^ 53" and k: "- 1074 \<le> k"
  shows "rnd64 x = x"
proof -
  consider "m = 0" | "0 < m" | "m < 0" by linarith
  then show ?thesis
  proof cases
    case 1
    then show ?thesis by (simp add: x)
  next
    case 2
    moreover from 2 have "0 < x" by (simp add: x)
    ultimately show ?thesis using rnd_pos_exact [OF x _ _ k] m by (simp add: rnd64_def)
  next
    case 3
    have "- x = of_int (- m) * pow2 k" by (simp add: x)
    from rnd_pos_exact [OF this _ _ k] 3 m have "rnd_pos (- x) = - x" by simp
    moreover have "x < 0" using 3 by (simp add: x mult_neg_pos)
    ultimately show ?thesis by (simp add: rnd64_def)
  qed
qed

lemma rnd_pos_form:
  assumes "0 < x"
  shows "\<exists>m k. rnd_pos x = of_int m * pow2 k \<and> \<bar>m\<bar> \<le> 2 ^ 53 \<and> - 1074 \<le> k"
proof -
  let ?m = "rne (x / pow2 (expo x))"
  have "x / pow2 (expo x) \<le> of_int (2 ^ 53)"
    using expo_upper [OF assms] by (simp add: pow2_add field_simps pow2_nat)
  then have "?m \<le> 2 ^ 53" by (rule rne_le_int)
  moreover have "0 \<le> ?m" using assms by (intro rne_ge_int) (simp add: less_imp_le)
  moreover have "- 1074 \<le> expo x" by (simp add: expo_def)
  ultimately show ?thesis unfolding rnd_pos_def by (intro exI [of _ ?m] exI [of _ "expo x"]) simp
qed

lemma rnd64_idem [simp]: "rnd64 (rnd64 x) = rnd64 x"
proof -
  have pos: "rnd64 (rnd_pos y) = rnd_pos y" if "0 < y" for y
    using rnd_pos_form [OF that] rnd64_exact by blast
  consider "x = 0" | "0 < x" | "x < 0" by linarith
  then show ?thesis
  proof cases
    case 2
    then show ?thesis using pos [of x] by (simp add: rnd64_def [of x])
  next
    case 3
    then have "rnd64 x = - rnd_pos (- x)" by (simp add: rnd64_def)
    then show ?thesis using 3 pos [of "- x"] by simp
  qed simp
qed


text \<open>Evaluation: a fraction with a small power of 2 below and less than 53 bits above is
  its own rounding.\<close>

definition smallDyadic :: "rat \<Rightarrow> bool" where
  "smallDyadic x = (case quotient_of x of (p, q) \<Rightarrow>
     \<bar>p\<bar> < 9007199254740992 \<and> q \<in> set [1, 2, 4, 8, 16, 32, 64, 128, 256, 512, 1024])"

lemma smallDyadic_exact:
  assumes "smallDyadic x"
  shows "rnd64 x = x"
proof -
  obtain p q where pq: "quotient_of x = (p, q)" by fastforce
  have p: "\<bar>p\<bar> < 2 ^ 53" using assms pq by (simp add: smallDyadic_def)
  have "set [1, 2, 4, 8, 16, 32, 64, 128, 256, 512, 1024 :: int] = (\<lambda>n. 2 ^ n) ` set [0..<11]"
    by (simp add: upt_rec)
  then have "q \<in> (\<lambda>n. 2 ^ n) ` set [0..<11]"
    using assms pq by (simp add: smallDyadic_def)
  then obtain n :: nat where n: "n \<le> 10" "q = 2 ^ n" by auto
  have "x = of_int p * pow2 (- int n)"
    using quotient_of_div [OF pq] n by (simp add: power_int_minus divide_inverse)
  then show ?thesis using p n(1) by (intro rnd64_exact [of x p "- int n"]) simp_all
qed

lemma rne_code [code]:
  "rne m = (case quotient_of m of (p, q) \<Rightarrow> (case (p div q, p mod q) of (f, r) \<Rightarrow>
     if 2 * r < q then f else if q < 2 * r then f + 1 else if even f then f else f + 1))"
proof -
  obtain p q where pq: "quotient_of m = (p, q)" by fastforce
  have q: "0 < q" using quotient_of_denom_pos [OF pq] .
  have m: "m = of_int p / of_int q" using quotient_of_div [OF pq] .
  have f: "\<lfloor>m\<rfloor> = p div q" unfolding m by (rule floor_divide_of_int_eq)
  have "of_int p = of_int (p div q) * of_int q + (of_int (p mod q) :: rat)"
    by (metis div_mult_mod_eq of_int_add of_int_mult)
  then have d: "m - of_int (p div q) = of_int (p mod q) / of_int q"
    using q by (simp add: m field_simps)
  have l: "(m - of_int (p div q) < 1/2) = (2 * (p mod q) < q)" unfolding d
    using q by (simp add: field_simps) (metis of_int_less_iff of_int_mult of_int_numeral mult.commute)
  have g: "(1/2 < m - of_int (p div q)) = (q < 2 * (p mod q))" unfolding d
    using q by (simp add: field_simps) (metis of_int_less_iff of_int_mult of_int_numeral mult.commute)
  show ?thesis
    unfolding rne_def Let_def f l g by (simp add: pq)
qed

lemma rnd_pos_code [code]:
  "rnd_pos x = (case (pow2 (expo x), ()) of (s, _) \<Rightarrow> of_int (rne (x / s)) * s)"
  by (simp add: rnd_pos_def)

lemma rnd64_code [code]:
  "rnd64 x = (if smallDyadic x then x else if x < 0 then - rnd_pos (- x) else rnd_pos x)"
proof -
  have "smallDyadic 0" by code_simp
  then show ?thesis using smallDyadic_exact [of x] by (auto simp: rnd64_def)
qed

section \<open>The rounding contract\<close>

locale rounding =
  fixes rnd :: "rat \<Rightarrow> rat" and u :: rat and eta :: rat
  assumes mono: "x \<le> y \<Longrightarrow> rnd x \<le> rnd y"
    and neg: "rnd (- x) = - rnd x"
    and idem: "rnd (rnd x) = rnd x"
    and err: "\<bar>rnd x - x\<bar> \<le> u * \<bar>x\<bar> + eta"
begin

lemma zero: "rnd 0 = 0"
  using neg [of 0] by simp

lemma nonneg: "0 \<le> x \<Longrightarrow> 0 \<le> rnd x"
  using mono [of 0 x] by (simp add: zero)

lemma le_rep: "rnd y = y \<Longrightarrow> x \<le> y \<Longrightarrow> rnd x \<le> y"
  using mono [of x y] by simp

lemma ge_rep: "rnd y = y \<Longrightarrow> y \<le> x \<Longrightarrow> y \<le> rnd x"
  using mono [of y x] by simp

text \<open>Moving an amount from one account to another changes the exact total by at most
  the two roundings involved.\<close>

lemma move_drift:
  "\<bar>(rnd (a - r) + rnd (b + r)) - (a + b)\<bar> \<le> u * (\<bar>a - r\<bar> + \<bar>b + r\<bar>) + 2 * eta"
proof -
  have "(rnd (a - r) + rnd (b + r)) - (a + b) = (rnd (a - r) - (a - r)) + (rnd (b + r) - (b + r))"
    by simp
  also have "\<bar>\<dots>\<bar> \<le> \<bar>rnd (a - r) - (a - r)\<bar> + \<bar>rnd (b + r) - (b + r)\<bar>"
    by (rule abs_triangle_ineq)
  also have "\<dots> \<le> (u * \<bar>a - r\<bar> + eta) + (u * \<bar>b + r\<bar> + eta)"
    by (intro add_mono err)
  finally show ?thesis by (simp add: algebra_simps)
qed

end

definition u64 :: rat where
  "u64 = 1 / 2 ^ 53"

definition eta64 :: rat where
  "eta64 = 1 / 2 ^ 1075"

interpretation r64: rounding rnd64 u64 eta64
  by unfold_locales (use rnd64_mono rnd64_err in \<open>simp_all add: u64_def eta64_def\<close>)

lemma rnd64_1 [simp]: "rnd64 1 = 1"
  using rnd64_exact [of 1 1 0] by simp

section \<open>The type of float64 values\<close>

typedef float64 = "{x. rnd64 x = x}"
  morphisms rval Abs_float64
  by (rule exI [of _ 0]) simp

setup_lifting type_definition_float64

lift_definition f64 :: "rat \<Rightarrow> float64" is rnd64
  by simp

instantiation float64 :: linorder
begin

lift_definition less_eq_float64 :: "float64 \<Rightarrow> float64 \<Rightarrow> bool" is "(\<le>)" .

lift_definition less_float64 :: "float64 \<Rightarrow> float64 \<Rightarrow> bool" is "(<)" .

instance
  by standard (transfer, auto)+

end

instantiation float64 :: "{zero, one, plus, minus, uminus, times, inverse, abs}"
begin

lift_definition zero_float64 :: float64 is 0
  by simp

lift_definition one_float64 :: float64 is 1
  by simp

lift_definition plus_float64 :: "float64 \<Rightarrow> float64 \<Rightarrow> float64" is "\<lambda>x y. rnd64 (x + y)"
  by simp

lift_definition minus_float64 :: "float64 \<Rightarrow> float64 \<Rightarrow> float64" is "\<lambda>x y. rnd64 (x - y)"
  by simp

lift_definition uminus_float64 :: "float64 \<Rightarrow> float64" is "\<lambda>x. - x"
  by simp

lift_definition times_float64 :: "float64 \<Rightarrow> float64 \<Rightarrow> float64" is "\<lambda>x y. rnd64 (x * y)"
  by simp

lift_definition divide_float64 :: "float64 \<Rightarrow> float64 \<Rightarrow> float64" is "\<lambda>x y. rnd64 (x / y)"
  by simp

lift_definition inverse_float64 :: "float64 \<Rightarrow> float64" is "\<lambda>x. rnd64 (inverse x)"
  by simp

lift_definition abs_float64 :: "float64 \<Rightarrow> float64" is "\<lambda>x. \<bar>x\<bar>"
  by (simp add: abs_if)

instance ..

end

instantiation float64 :: equal
begin

lift_definition equal_float64 :: "float64 \<Rightarrow> float64 \<Rightarrow> bool" is "(=)" .

instance
  by standard (transfer, simp)

end

lemma f_add_0 [simp]: "x + 0 = (x :: float64)" "0 + x = (x :: float64)"
  by (transfer, simp)+

lemma f_diff_0 [simp]: "x - 0 = (x :: float64)"
  by transfer simp

lemma f_diff_self [simp]: "x - x = (0 :: float64)"
  by transfer simp

lemma f_abs_0 [simp]: "\<bar>0 :: float64\<bar> = 0"
  by transfer simp

lemma f_mult_1 [simp]: "x * 1 = (x :: float64)" "1 * x = (x :: float64)"
  by (transfer, simp)+

lemma f_mult_0 [simp]: "x * 0 = (0 :: float64)" "0 * x = (0 :: float64)"
  by (transfer, simp)+

lemma f_add_commute: "x + y = y + (x :: float64)"
  by transfer (simp add: add.commute)

lemma f_mult_commute: "x * y = y * (x :: float64)"
  by transfer (simp add: mult.commute)

lemma f_zero_le_one [simp]: "0 \<le> (1 :: float64)" "0 < (1 :: float64)"
  by (transfer, simp)+

lemma f_add_mono: "a \<le> b \<Longrightarrow> c \<le> d \<Longrightarrow> a + c \<le> b + (d :: float64)"
  by transfer (simp add: rnd64_mono)

lemma f_diff_mono: "a \<le> b \<Longrightarrow> d \<le> c \<Longrightarrow> a - c \<le> b - (d :: float64)"
  by transfer (simp add: rnd64_mono)

lemma f_mult_mono: "0 \<le> a \<Longrightarrow> a \<le> b \<Longrightarrow> 0 \<le> c \<Longrightarrow> c \<le> d \<Longrightarrow> a * c \<le> b * (d :: float64)"
  by transfer (simp add: rnd64_mono mult_mono)

lemma f_add_nonneg [simp]: "0 \<le> a \<Longrightarrow> 0 \<le> b \<Longrightarrow> 0 \<le> a + (b :: float64)"
  using f_add_mono [of 0 a 0 b] by simp

lemma f_mult_nonneg [simp]: "0 \<le> a \<Longrightarrow> 0 \<le> b \<Longrightarrow> 0 \<le> a * (b :: float64)"
  using f_mult_mono [of 0 a 0 b] by simp

lemma f_diff_nonneg: "b \<le> a \<Longrightarrow> 0 \<le> a - (b :: float64)"
  using f_diff_mono [of b a b b] by simp

lemma f_diff_nonpos: "a \<le> b \<Longrightarrow> a - (b :: float64) \<le> 0"
  using f_diff_mono [of a b b b] by simp

lemma f_add_increasing: "0 \<le> b \<Longrightarrow> a \<le> a + (b :: float64)"
  using f_add_mono [of a a 0 b] by simp

lemma f_diff_decreasing: "0 \<le> b \<Longrightarrow> a - (b :: float64) \<le> a"
  using f_diff_mono [of a a 0 b] by simp

lemma f_mult_le_right: "0 \<le> a \<Longrightarrow> p \<le> 1 \<Longrightarrow> 0 \<le> p \<Longrightarrow> a * p \<le> (a :: float64)"
  using f_mult_mono [of a a p 1] by simp

text \<open>The rounding error of a sum and of a difference.\<close>

definition slack :: "rat \<Rightarrow> rat" where
  "slack x = u64 * \<bar>x\<bar> + eta64"

lemma slack_nonneg [simp]: "0 \<le> slack x"
  by (simp add: slack_def u64_def eta64_def)

lemma slack_mono: "\<bar>x\<bar> \<le> \<bar>y\<bar> \<Longrightarrow> slack x \<le> slack y"
  by (simp add: slack_def u64_def)

lemma f_add_err: "\<bar>rval (x + y) - (rval x + rval y)\<bar> \<le> slack (rval x + rval y)"
  unfolding slack_def plus_float64.rep_eq by (rule r64.err)

lemma f_diff_err: "\<bar>rval (x - y) - (rval x - rval y)\<bar> \<le> slack (rval x - rval y)"
  unfolding slack_def minus_float64.rep_eq by (rule r64.err)

lemma rval_le: "x \<le> y \<longleftrightarrow> rval x \<le> rval y"
  by transfer simp

lemma rval_less: "x < y \<longleftrightarrow> rval x < rval y"
  by transfer simp

lemma rval_0 [simp]: "rval 0 = 0"
  by transfer simp

lemma rval_nonneg [simp]: "0 \<le> x \<Longrightarrow> 0 \<le> rval x"
  by transfer simp

lemma rval_max: "rval (max x y) = max (rval x) (rval y)"
  by (simp add: max_def rval_le)

lemma rval_min: "rval (min x y) = min (rval x) (rval y)"
  by (simp add: min_def rval_le)

text \<open>Taking an amount off a counter that is clamped at 0, beside the exact total the
  counter stands for.\<close>

lemma clamped_diff_gap:
  assumes "0 \<le> r" and "rval r \<le> C"
  shows "\<bar>rval (max 0 (R - r)) - (C - rval r)\<bar> \<le> \<bar>rval R - C\<bar> + slack (rval R - rval r)"
proof (cases "0 \<le> R - r")
  case True
  have "\<bar>rval (R - r) - (C - rval r)\<bar> \<le> \<bar>rval R - C\<bar> + \<bar>rval (R - r) - (rval R - rval r)\<bar>"
    by linarith
  with True f_diff_err [of R r] show ?thesis by (simp add: max_def)
next
  case False
  then have "R < r" using f_diff_nonneg [of r R] by (metis not_le)
  then have "rval R < rval r" by (simp add: rval_less)
  then have "\<bar>0 - (C - rval r)\<bar> \<le> \<bar>rval R - C\<bar>" using assms by linarith
  then have "\<bar>0 - (C - rval r)\<bar> \<le> \<bar>rval R - C\<bar> + slack (rval R - rval r)"
    using slack_nonneg [of "rval R - rval r"] by linarith
  with False show ?thesis by (simp add: max_def)
qed

end
