(* ===== verification/Core.thy ===== *)
theory Core
  imports Prelude Float64
begin

text \<open>
  The vocabulary of package \<^verbatim>\<open>core\<close>: order sides, execution statuses, sentinel
  errors, the execution event, and the pricing helper.  An \<^verbatim>\<open>orders.Side\<close> is a
  string of the SDK; the code compares it with \<^verbatim>\<open>orders.BUY\<close> and
  \<^verbatim>\<open>orders.SELL\<close> only, every other value is \<open>OtherSide\<close>.
\<close>

datatype side = BUY | SELL | OtherSide string

datatype ExecutionStatus = Accepted | PartiallyFilled | Filled | Cancelled | Rejected

text \<open>Sentinel errors of \<^verbatim>\<open>core/errors.go\<close>; \<open>ErrText\<close> is an error made on the spot
  by \<^verbatim>\<open>errors.New\<close> or \<^verbatim>\<open>fmt.Errorf\<close>, known by its text only.\<close>

datatype goerror =
    ErrOrderAlreadyReserved
  | ErrIntentAlreadyReserved
  | ErrReservationNotFound
  | ErrInsufficientBalance
  | ErrInsufficientPosition
  | ErrBelowMinReserve
  | ErrInvalidPrice
  | ErrInvalidSize
  | ErrInvalidSide
  | ErrInvalidMarket
  | ErrInvalidToken
  | ErrFillExceedsRemaining
  | ErrFillMarketTokenMismatch
  | ErrFillSideMismatch
  | ErrReconcileFailed
  | ErrText string

fun errorText :: "goerror \<Rightarrow> string" where
  "errorText ErrOrderAlreadyReserved = ''order already reserved''"
| "errorText ErrIntentAlreadyReserved = ''intent already reserved''"
| "errorText ErrReservationNotFound = ''reservation not found''"
| "errorText ErrInsufficientBalance = ''insufficient available balance''"
| "errorText ErrInsufficientPosition = ''insufficient token position''"
| "errorText ErrBelowMinReserve = ''balance reached minimum reserve''"
| "errorText ErrInvalidPrice = ''invalid price''"
| "errorText ErrInvalidSize = ''invalid size''"
| "errorText ErrInvalidSide = ''invalid side''"
| "errorText ErrInvalidMarket = ''invalid market id''"
| "errorText ErrInvalidToken = ''invalid token id''"
| "errorText ErrFillExceedsRemaining = ''filled size exceeds remaining size''"
| "errorText ErrFillMarketTokenMismatch = ''fill market/token mismatch''"
| "errorText ErrFillSideMismatch = ''fill side mismatch''"
| "errorText ErrReconcileFailed = ''reconcile failed''"
| "errorText (ErrText s) = s"

definition ExecutionReasonTradeFailed :: string where
  "ExecutionReasonTradeFailed = ''TRADE_FAILED''"

record ExecutionEvent =
  ev_OrderID :: string
  ev_ParentOrderID :: string
  ev_MarketID :: string
  ev_TokenID :: string
  ev_Price :: float64
  ev_Side :: side
  ev_RequestedSize :: float64
  ev_FilledSize :: float64
  ev_Status :: ExecutionStatus
  ev_Reason :: string
  ev_At :: time

section \<open>Pricing\<close>

definition FloatEpsilon :: float64 where
  "FloatEpsilon = f64 (1 / 10 ^ 9)"

fun RequiredCollateral :: "side \<Rightarrow> float64 \<Rightarrow> float64 \<Rightarrow> float64" where
  "RequiredCollateral BUY price sz = sz * price"
| "RequiredCollateral SELL price sz = sz"
| "RequiredCollateral (OtherSide _) price sz = 0"

lemma FloatEpsilon_pos [simp]: "0 < FloatEpsilon"
  unfolding FloatEpsilon_def by code_simp

lemma FloatEpsilon_nonneg [simp]: "0 \<le> FloatEpsilon"
  using FloatEpsilon_pos by (rule less_imp_le)

lemma FloatEpsilon_le_1: "FloatEpsilon \<le> 1"
  unfolding FloatEpsilon_def by code_simp

lemma add_eps_less: "x + 1 < y \<Longrightarrow> x + FloatEpsilon < y"
  using f_add_mono [OF order_refl [of x] FloatEpsilon_le_1] by (rule le_less_trans)

lemma le_add_eps: "x \<le> y \<Longrightarrow> x \<le> y + FloatEpsilon"
  using f_add_increasing [OF FloatEpsilon_nonneg, of y] by (rule order_trans [rotated])

lemma RequiredCollateral_nonneg [simp]:
  "0 \<le> price \<Longrightarrow> 0 \<le> sz \<Longrightarrow> 0 \<le> RequiredCollateral sd price sz"
  by (cases sd) simp_all

lemma RequiredCollateral_le_size:
  "0 \<le> price \<Longrightarrow> price \<le> 1 \<Longrightarrow> 0 \<le> sz \<Longrightarrow> RequiredCollateral sd price sz \<le> sz"
  by (cases sd) (simp_all add: f_mult_le_right)

end
