(* ===== verification/State.thy ===== *)
theory State
  imports Core
begin

text \<open>
  Package \<^verbatim>\<open>state\<close>: the ledger of balance, token positions, order reservations and
  provisional reservations (\<^verbatim>\<open>types.go\<close>, \<^verbatim>\<open>state.go\<close>, \<^verbatim>\<open>reservation.go\<close>,
  \<^verbatim>\<open>fill.go\<close>, \<^verbatim>\<open>pnl.go\<close>).  Every method runs under the state's mutex, so an
  operation is a function from the state to the new state and the method's results; an
  error result is \<open>Some\<close>, Go's \<^verbatim>\<open>nil\<close> error is \<open>None\<close>.
\<close>

section \<open>Data\<close>

record OrderReservation =
  or_OrderID :: string
  or_MarketID :: string
  or_TokenID :: string
  or_Side :: side
  or_Price :: float64
  or_RemainingSize :: float64
  or_Reserved :: float64
  or_ExternalOrigin :: bool

record ProvisionalReservation =
  pr_IntentID :: string
  pr_MarketID :: string
  pr_TokenID :: string
  pr_Side :: side
  pr_Price :: float64
  pr_RemainingSize :: float64
  pr_Reserved :: float64
  pr_CreatedAt :: time
  pr_ExpiresAt :: time

record TokenPosition =
  tp_Available :: float64
  tp_Reserved :: float64
  tp_AvgCost :: float64
  tp_AvgCostKnown :: bool
  tp_TotalBought :: float64

record Balance =
  ba_Available :: float64
  ba_Reserved :: float64
  ba_MinBalance :: float64

text \<open>\<^verbatim>\<open>DailyPnLDate\<close> is the UTC date as a string, compared for equality only: the model
  keeps the UTC day number, \<open>None\<close> for the empty string.\<close>

record Snapshot =
  sn_Tokens :: "(string, TokenPosition) gomap"
  sn_Balance :: Balance
  sn_Orders :: "(string, OrderReservation) gomap"
  sn_DailyPnL :: float64
  sn_DailyPnLDate :: "int option"
  sn_OpenOrderCount :: int

record BalanceSyncConfig =
  bs_Enabled :: bool
  bs_HasReader :: bool
  bs_Interval :: duration
  bs_Epsilon :: float64
  bs_MinBalance :: float64

record expiringMarket =
  em_endTime :: int
  em_tokenIDs :: "string list"
  em_fired :: bool

record State =
  st_tokens :: "(string, TokenPosition) gomap"
  st_balance :: Balance
  st_orders :: "(string, OrderReservation) gomap"
  st_provisional :: "(string, ProvisionalReservation) gomap"
  st_dailyPnL :: float64
  st_dailyPnLDate :: "int option"
  st_balanceSync :: BalanceSyncConfig
  st_reconcileTrigger :: bool
  st_expiryMarkets :: "(string, expiringMarket) gomap"

definition zeroTokenPosition :: TokenPosition where
  "zeroTokenPosition = \<lparr>tp_Available = 0, tp_Reserved = 0, tp_AvgCost = 0,
     tp_AvgCostKnown = False, tp_TotalBought = 0\<rparr>"

abbreviation tokenPos :: "State \<Rightarrow> string \<Rightarrow> TokenPosition" where
  "tokenPos s k \<equiv> gget zeroTokenPosition (st_tokens s) k"

abbreviation putToken :: "string \<Rightarrow> TokenPosition \<Rightarrow> State \<Rightarrow> State" where
  "putToken k tp s \<equiv> s\<lparr>st_tokens := gput k tp (st_tokens s)\<rparr>"

section \<open>Construction and snapshots\<close>

definition defaultBalanceSyncInterval :: duration where
  "defaultBalanceSyncInterval = 5 * second"

definition defaultBalanceSyncEpsilon :: float64 where
  "defaultBalanceSyncEpsilon = f64 (1 / 10 ^ 6)"

definition normalizeBalanceSyncConfig :: "BalanceSyncConfig \<Rightarrow> BalanceSyncConfig" where
  "normalizeBalanceSyncConfig cfg =
    (if \<not> bs_Enabled cfg then cfg
     else let cfg = (if bs_Interval cfg \<le> 0 then cfg\<lparr>bs_Interval := defaultBalanceSyncInterval\<rparr> else cfg)
          in if bs_Epsilon cfg \<le> 0 then cfg\<lparr>bs_Epsilon := defaultBalanceSyncEpsilon\<rparr> else cfg)"

definition NewStateWithBalanceSync :: "BalanceSyncConfig \<Rightarrow> State" where
  "NewStateWithBalanceSync balanceSync =
    (let minBalance = (if bs_MinBalance balanceSync < 0 then 0 else bs_MinBalance balanceSync)
     in \<lparr>st_tokens = [],
         st_balance = \<lparr>ba_Available = 0, ba_Reserved = 0, ba_MinBalance = minBalance\<rparr>,
         st_orders = [], st_provisional = [], st_dailyPnL = 0, st_dailyPnLDate = None,
         st_balanceSync = normalizeBalanceSyncConfig balanceSync,
         st_reconcileTrigger = False, st_expiryMarkets = []\<rparr>)"

definition Snapshot_of :: "State \<Rightarrow> Snapshot" where
  "Snapshot_of s = \<lparr>sn_Tokens = st_tokens s, sn_Balance = st_balance s, sn_Orders = st_orders s,
     sn_DailyPnL = st_dailyPnL s, sn_DailyPnLDate = st_dailyPnLDate s,
     sn_OpenOrderCount = int (length (st_orders s))\<rparr>"

section \<open>Releasing reservations\<close>

definition releaseBalance :: "float64 \<Rightarrow> Balance \<Rightarrow> Balance" where
  "releaseBalance reserved b =
    (let b = b\<lparr>ba_Reserved := ba_Reserved b - reserved, ba_Available := ba_Available b + reserved\<rparr>
     in if ba_Reserved b < 0 then b\<lparr>ba_Reserved := 0\<rparr> else b)"

definition releaseToken :: "float64 \<Rightarrow> TokenPosition \<Rightarrow> TokenPosition" where
  "releaseToken reserved tp =
    (let tp = tp\<lparr>tp_Reserved := tp_Reserved tp - reserved, tp_Available := tp_Available tp + reserved\<rparr>
     in if tp_Reserved tp < 0 then tp\<lparr>tp_Reserved := 0\<rparr> else tp)"

definition releaseReservedLocked :: "side \<Rightarrow> string \<Rightarrow> float64 \<Rightarrow> State \<Rightarrow> State" where
  "releaseReservedLocked sd tokenID reserved s =
    (case sd of
       BUY \<Rightarrow> s\<lparr>st_balance := releaseBalance reserved (st_balance s)\<rparr>
     | SELL \<Rightarrow> putToken tokenID (releaseToken reserved (tokenPos s tokenID)) s
     | OtherSide _ \<Rightarrow> s)"

section \<open>Provisional reservations\<close>

definition TryReserveProvisional ::
  "time \<Rightarrow> string \<Rightarrow> string \<Rightarrow> string \<Rightarrow> side \<Rightarrow> float64 \<Rightarrow> float64 \<Rightarrow> time \<Rightarrow> duration \<Rightarrow>
   State \<Rightarrow> State \<times> goerror option" where
  "TryReserveProvisional clock intentID marketID tokenID sd price requestedSize now ttl s =
    (if intentID = [] then (s, Some (ErrText ''empty intent id''))
     else if marketID = [] then (s, Some (ErrText ''empty market id''))
     else if tokenID = [] then (s, Some (ErrText ''empty token id''))
     else if requestedSize \<le> 0 then (s, Some (ErrText ''invalid requested size''))
     else if price \<le> 0 \<or> 1 \<le> price then (s, Some (ErrText ''invalid price''))
     else if sd \<noteq> BUY \<and> sd \<noteq> SELL then (s, Some (ErrText ''invalid side''))
     else
       let now = (if now = 0 then clock else now);
           ttl = (if ttl \<le> 0 then 5 * second else ttl);
           reservedAmount = RequiredCollateral sd price requestedSize;
           p = \<lparr>pr_IntentID = intentID, pr_MarketID = marketID, pr_TokenID = tokenID, pr_Side = sd,
                pr_Price = price, pr_RemainingSize = requestedSize, pr_Reserved = reservedAmount,
                pr_CreatedAt = now, pr_ExpiresAt = now + ttl\<rparr>;
           record_p = (\<lambda>s. s\<lparr>st_provisional := gput intentID p (st_provisional s)\<rparr>)
       in if ghas (st_provisional s) intentID then (s, Some (ErrText ''intent already reserved''))
          else if sd = BUY then
            (let b = st_balance s in
             if ba_Available b + FloatEpsilon < reservedAmount
             then (s, Some (ErrText ''insufficient available balance for provisional reserve''))
             else (record_p (s\<lparr>st_balance := b\<lparr>ba_Available := ba_Available b - reservedAmount,
                                             ba_Reserved := ba_Reserved b + reservedAmount\<rparr>\<rparr>), None))
          else
            (let tp = tokenPos s tokenID in
             if tp_Available tp + FloatEpsilon < requestedSize
             then (s, Some (ErrText ''insufficient token position for provisional sell reserve''))
             else
               (let tp = tp\<lparr>tp_Available := tp_Available tp - requestedSize,
                            tp_Reserved := tp_Reserved tp + requestedSize\<rparr>;
                    tp = (if tp_Available tp < 0 then tp\<lparr>tp_Available := 0\<rparr> else tp)
                in (record_p (putToken tokenID tp s), None))))"

definition orderFromProvisional :: "string \<Rightarrow> ProvisionalReservation \<Rightarrow> OrderReservation" where
  "orderFromProvisional orderID p =
    \<lparr>or_OrderID = orderID, or_MarketID = pr_MarketID p, or_TokenID = pr_TokenID p,
     or_Side = pr_Side p, or_Price = pr_Price p, or_RemainingSize = pr_RemainingSize p,
     or_Reserved = pr_Reserved p, or_ExternalOrigin = False\<rparr>"

definition ConfirmProvisional :: "string \<Rightarrow> string \<Rightarrow> State \<Rightarrow> State \<times> bool \<times> goerror option" where
  "ConfirmProvisional intentID orderID s =
    (if intentID = [] then (s, False, Some (ErrText ''empty intent id''))
     else if orderID = [] then (s, False, Some (ErrText ''empty order id''))
     else case map_of (st_provisional s) intentID of
       None \<Rightarrow> (s, ghas (st_orders s) orderID, None)
     | Some p \<Rightarrow>
         (let s = s\<lparr>st_provisional := gdel intentID (st_provisional s)\<rparr> in
          if ghas (st_orders s) orderID
          then (releaseReservedLocked (pr_Side p) (pr_TokenID p) (pr_Reserved p) s, True, None)
          else (s\<lparr>st_orders := gput orderID (orderFromProvisional orderID p) (st_orders s)\<rparr>, True, None)))"

definition ReleaseProvisional :: "string \<Rightarrow> State \<Rightarrow> State \<times> bool" where
  "ReleaseProvisional intentID s =
    (if intentID = [] then (s, False)
     else case map_of (st_provisional s) intentID of
       None \<Rightarrow> (s, False)
     | Some p \<Rightarrow>
         (releaseReservedLocked (pr_Side p) (pr_TokenID p) (pr_Reserved p)
            (s\<lparr>st_provisional := gdel intentID (st_provisional s)\<rparr>), True))"

text \<open>The sweep of \<^verbatim>\<open>CleanupExpiredProvisional\<close>: first the expired entries leave the map,
  then each of them is released.\<close>

definition expiredProvisional :: "time \<Rightarrow> State \<Rightarrow> (string, ProvisionalReservation) gomap" where
  "expiredProvisional now s = filter (\<lambda>(k, p). \<not> now < pr_ExpiresAt p) (st_provisional s)"

fun releaseAll :: "(string, ProvisionalReservation) gomap \<Rightarrow> State \<Rightarrow> State" where
  "releaseAll [] s = s"
| "releaseAll ((k, p) # ps) s =
     releaseAll ps (releaseReservedLocked (pr_Side p) (pr_TokenID p) (pr_Reserved p) s)"

definition CleanupExpiredProvisional :: "time \<Rightarrow> time \<Rightarrow> State \<Rightarrow> State \<times> string list" where
  "CleanupExpiredProvisional clock now s =
    (let now = (if now = 0 then clock else now);
         expiredItems = expiredProvisional now s;
         s = s\<lparr>st_provisional := filter (\<lambda>(k, p). now < pr_ExpiresAt p) (st_provisional s)\<rparr>
     in (releaseAll expiredItems s, map fst expiredItems))"

section \<open>Order reservations\<close>

definition validateOrderArgs ::
  "string \<Rightarrow> string \<Rightarrow> string \<Rightarrow> side \<Rightarrow> float64 \<Rightarrow> float64 \<Rightarrow> goerror option" where
  "validateOrderArgs orderID marketID tokenID sd price sz =
    (if orderID = [] then Some (ErrText ''empty order id'')
     else if marketID = [] then Some ErrInvalidMarket
     else if tokenID = [] then Some ErrInvalidToken
     else if sz \<le> 0 then Some ErrInvalidSize
     else if price \<le> 0 \<or> 1 \<le> price then Some ErrInvalidPrice
     else if sd \<noteq> BUY \<and> sd \<noteq> SELL then Some ErrInvalidSide
     else None)"

definition AttachOrder ::
  "string \<Rightarrow> string \<Rightarrow> string \<Rightarrow> string \<Rightarrow> side \<Rightarrow> float64 \<Rightarrow> float64 \<Rightarrow>
   State \<Rightarrow> State \<times> goerror option" where
  "AttachOrder intentID orderID marketID tokenID sd price requestedSize s =
    (case validateOrderArgs orderID marketID tokenID sd price requestedSize of
       Some err \<Rightarrow> (s, Some err)
     | None \<Rightarrow>
       let reserved = RequiredCollateral sd price requestedSize;
           prov = (if intentID = [] then None else map_of (st_provisional s) intentID);
           fresh = \<lparr>or_OrderID = orderID, or_MarketID = marketID, or_TokenID = tokenID,
                    or_Side = sd, or_Price = price, or_RemainingSize = requestedSize,
                    or_Reserved = reserved, or_ExternalOrigin = False\<rparr>;
           record_o = (\<lambda>s. s\<lparr>st_orders := gput orderID fresh (st_orders s)\<rparr>)
       in if ghas (st_orders s) orderID then
            (case prov of
               Some p \<Rightarrow>
                 (releaseReservedLocked (pr_Side p) (pr_TokenID p) (pr_Reserved p)
                    (s\<lparr>st_provisional := gdel intentID (st_provisional s)\<rparr>), Some ErrOrderAlreadyReserved)
             | None \<Rightarrow> (s, Some ErrOrderAlreadyReserved))
          else (case prov of
            Some p \<Rightarrow>
              (s\<lparr>st_provisional := gdel intentID (st_provisional s),
                 st_orders := gput orderID (orderFromProvisional orderID p) (st_orders s)\<rparr>, None)
          | None \<Rightarrow>
              (case sd of
                 BUY \<Rightarrow>
                   (let b = st_balance s in
                    if ba_Available b + FloatEpsilon < reserved then (s, Some ErrInsufficientBalance)
                    else (record_o (s\<lparr>st_balance := b\<lparr>ba_Available := ba_Available b - reserved,
                                                    ba_Reserved := ba_Reserved b + reserved\<rparr>\<rparr>), None))
               | SELL \<Rightarrow>
                   (let tp = tokenPos s tokenID in
                    if tp_Available tp + FloatEpsilon < requestedSize then (s, Some ErrInsufficientPosition)
                    else
                      (let tp = tp\<lparr>tp_Available := tp_Available tp - requestedSize,
                                   tp_Reserved := tp_Reserved tp + requestedSize\<rparr>;
                           tp = (if tp_Available tp < 0 then tp\<lparr>tp_Available := 0\<rparr> else tp)
                       in (record_o (putToken tokenID tp s), None)))
               | OtherSide _ \<Rightarrow> (record_o s, None))))"

definition ReserveOrder ::
  "string \<Rightarrow> string \<Rightarrow> string \<Rightarrow> side \<Rightarrow> float64 \<Rightarrow> float64 \<Rightarrow> State \<Rightarrow> State \<times> goerror option" where
  "ReserveOrder orderID marketID tokenID sd price requestedSize =
     AttachOrder [] orderID marketID tokenID sd price requestedSize"

definition AttachExternalOrder ::
  "string \<Rightarrow> string \<Rightarrow> string \<Rightarrow> side \<Rightarrow> float64 \<Rightarrow> float64 \<Rightarrow> State \<Rightarrow> State \<times> goerror option" where
  "AttachExternalOrder orderID marketID tokenID sd price remainingSize s =
    (case validateOrderArgs orderID marketID tokenID sd price remainingSize of
       Some err \<Rightarrow> (s, Some err)
     | None \<Rightarrow>
       let reserved = RequiredCollateral sd price remainingSize;
           ext = \<lparr>or_OrderID = orderID, or_MarketID = marketID, or_TokenID = tokenID,
                  or_Side = sd, or_Price = price, or_RemainingSize = remainingSize,
                  or_Reserved = reserved, or_ExternalOrigin = True\<rparr>;
           record_o = (\<lambda>s. s\<lparr>st_orders := gput orderID ext (st_orders s)\<rparr>)
       in if ghas (st_orders s) orderID then (s, None)
          else (case sd of
            BUY \<Rightarrow>
              (let b = st_balance s in
               if ba_Available b + FloatEpsilon < reserved then (s, Some ErrInsufficientBalance)
               else (record_o (s\<lparr>st_balance := b\<lparr>ba_Available := ba_Available b - reserved,
                                               ba_Reserved := ba_Reserved b + reserved\<rparr>\<rparr>), None))
          | SELL \<Rightarrow>
              (let tp = tokenPos s tokenID in
               if tp_Available tp + FloatEpsilon < remainingSize then (s, Some ErrInsufficientPosition)
               else (record_o (putToken tokenID
                       (tp\<lparr>tp_Available := tp_Available tp - remainingSize,
                           tp_Reserved := tp_Reserved tp + remainingSize\<rparr>) s), None))
          | OtherSide _ \<Rightarrow> (record_o s, None)))"

definition ReleaseOrder :: "string \<Rightarrow> State \<Rightarrow> State" where
  "ReleaseOrder orderID s =
    (if orderID = [] then s
     else case map_of (st_orders s) orderID of
       None \<Rightarrow> s
     | Some res \<Rightarrow>
         (let s = (case or_Side res of
                     BUY \<Rightarrow> s\<lparr>st_balance := releaseBalance (or_Reserved res) (st_balance s)\<rparr>
                   | SELL \<Rightarrow> putToken (or_TokenID res)
                               (releaseToken (or_Reserved res) (tokenPos s (or_TokenID res))) s
                   | OtherSide _ \<Rightarrow> s)
          in s\<lparr>st_orders := gdel orderID (st_orders s)\<rparr>))"

definition ClearRedeemedPositions :: "string list \<Rightarrow> State \<Rightarrow> State" where
  "ClearRedeemedPositions tokenIDs s =
    (if tokenIDs = [] then s
     else if st_tokens s = [] then s
     else s\<lparr>st_tokens := fold (\<lambda>tokenID m. let k = TrimSpace tokenID in if k = [] then m else gdel k m)
                             tokenIDs (st_tokens s)\<rparr>)"

section \<open>Fills and profit\<close>

text \<open>\<open>today\<close> is the UTC day of the clock reading.\<close>

definition addDailyPnLLocked :: "int \<Rightarrow> float64 \<Rightarrow> State \<Rightarrow> State" where
  "addDailyPnLLocked today delta s =
    (let s = (if st_dailyPnLDate s \<noteq> Some today
              then s\<lparr>st_dailyPnL := 0, st_dailyPnLDate := Some today\<rparr> else s)
     in s\<lparr>st_dailyPnL := st_dailyPnL s + delta\<rparr>)"

definition utcDay :: "time \<Rightarrow> int" where
  "utcDay t = t div (86400 * second)"

text \<open>What a fill leaves of the reservation: size and reserved amount, both clamped at 0.\<close>

definition reduceReservation :: "float64 \<Rightarrow> float64 \<Rightarrow> OrderReservation \<Rightarrow> OrderReservation" where
  "reduceReservation filledSize consumed res =
    (let res = res\<lparr>or_RemainingSize := or_RemainingSize res - filledSize\<rparr>;
         res = (if or_RemainingSize res < 0 then res\<lparr>or_RemainingSize := 0\<rparr> else res);
         res = res\<lparr>or_Reserved := or_Reserved res - consumed\<rparr>
     in if or_Reserved res < 0 then res\<lparr>or_Reserved := 0\<rparr> else res)"

text \<open>The two branches of the switch in \<^verbatim>\<open>ApplyFill\<close>.\<close>

definition fillBuy :: "string \<Rightarrow> float64 \<Rightarrow> float64 \<Rightarrow> float64 \<Rightarrow> State \<Rightarrow> State" where
  "fillBuy tokenID filledSize fillPrice consumed s =
    (let tp = tokenPos s tokenID;
         b = st_balance s;
         b = b\<lparr>ba_Reserved := ba_Reserved b - consumed\<rparr>;
         b = (if ba_Reserved b < 0 then b\<lparr>ba_Reserved := 0\<rparr> else b);
         newTotal = tp_TotalBought tp + filledSize;
         tp = (if tp_TotalBought tp \<le> 0 then tp\<lparr>tp_AvgCost := fillPrice\<rparr>
               else if 0 < newTotal
               then tp\<lparr>tp_AvgCost := (tp_AvgCost tp * tp_TotalBought tp + fillPrice * filledSize) / newTotal\<rparr>
               else tp);
         tp = tp\<lparr>tp_TotalBought := newTotal, tp_AvgCostKnown := True,
                 tp_Available := tp_Available tp + filledSize\<rparr>
     in putToken tokenID tp (s\<lparr>st_balance := b\<rparr>))"

definition fillSell :: "time \<Rightarrow> string \<Rightarrow> float64 \<Rightarrow> float64 \<Rightarrow> float64 \<Rightarrow> State \<Rightarrow> State" where
  "fillSell clock tokenID filledSize fillPrice consumed s =
    (let tp = tokenPos s tokenID;
         tp = tp\<lparr>tp_Reserved := tp_Reserved tp - consumed\<rparr>;
         tp = (if tp_Reserved tp < 0 then tp\<lparr>tp_Reserved := 0\<rparr> else tp);
         s = (if tp_AvgCostKnown tp
              then addDailyPnLLocked (utcDay clock) ((fillPrice - tp_AvgCost tp) * filledSize) s
              else s);
         proceeds = fillPrice * filledSize;
         b = st_balance s
     in putToken tokenID tp (s\<lparr>st_balance := b\<lparr>ba_Available := ba_Available b + proceeds\<rparr>\<rparr>))"

definition ApplyFill ::
  "time \<Rightarrow> string \<Rightarrow> string \<Rightarrow> string \<Rightarrow> side \<Rightarrow> float64 \<Rightarrow> float64 \<Rightarrow>
   State \<Rightarrow> State \<times> goerror option" where
  "ApplyFill clock orderID marketID tokenID sd filledSize fillPrice s =
    (if orderID = [] then (s, Some ErrReservationNotFound)
     else if filledSize \<le> 0 then (s, Some ErrInvalidSize)
     else if sd \<noteq> BUY \<and> sd \<noteq> SELL then (s, Some ErrInvalidSide)
     else case map_of (st_orders s) orderID of
       None \<Rightarrow> (s, Some ErrReservationNotFound)
     | Some res \<Rightarrow>
       if or_MarketID res \<noteq> marketID \<or> or_TokenID res \<noteq> tokenID then (s, Some ErrFillMarketTokenMismatch)
       else if or_Side res \<noteq> sd then (s, Some ErrFillSideMismatch)
       else
         let fillPrice = (if fillPrice \<le> 0 then or_Price res else fillPrice);
             consumed = RequiredCollateral sd fillPrice filledSize;
             consumed = (if or_Reserved res < consumed then or_Reserved res else consumed);
             res = reduceReservation filledSize consumed res;
             s = (case sd of
                    BUY \<Rightarrow> fillBuy tokenID filledSize fillPrice consumed s
                  | SELL \<Rightarrow> fillSell clock tokenID filledSize fillPrice consumed s
                  | OtherSide _ \<Rightarrow> s)
         in (if or_RemainingSize res \<le> FloatEpsilon then s\<lparr>st_orders := gdel orderID (st_orders s)\<rparr>
             else s\<lparr>st_orders := gput orderID res (st_orders s)\<rparr>, None))"

fun unrealizedLoop :: "(string, float64) gomap \<Rightarrow> (string, TokenPosition) gomap \<Rightarrow> float64 \<Rightarrow> float64" where
  "unrealizedLoop mids [] pnl = pnl"
| "unrealizedLoop mids ((tokenID, tp) # m) pnl =
     (if \<not> tp_AvgCostKnown tp then unrealizedLoop mids m pnl
      else case map_of mids tokenID of
        None \<Rightarrow> unrealizedLoop mids m pnl
      | Some mid \<Rightarrow>
          if tp_Available tp \<le> 0 then unrealizedLoop mids m pnl
          else unrealizedLoop mids m (pnl + (mid - tp_AvgCost tp) * tp_Available tp))"

definition UnrealizedPnL :: "(string, float64) gomap \<Rightarrow> State \<Rightarrow> float64" where
  "UnrealizedPnL midPrices s = unrealizedLoop midPrices (st_tokens s) 0"

section \<open>On-chain balance\<close>

definition ReconcileOnchainBalance :: "float64 \<Rightarrow> float64 \<Rightarrow> State \<Rightarrow> State \<times> bool \<times> float64" where
  "ReconcileOnchainBalance onchainTotal epsilon s =
    (let onchainTotal = (if onchainTotal < 0 then 0 else onchainTotal);
         epsilon = (if epsilon < 0 then 0 else epsilon);
         b = st_balance s;
         newAvailable = onchainTotal - ba_Reserved b;
         newAvailable = (if newAvailable < 0 then 0 else newAvailable);
         drift = newAvailable - ba_Available b;
         drift = (if drift < 0 then - drift else drift)
     in if drift \<le> epsilon then (s, False, drift)
        else (s\<lparr>st_balance := b\<lparr>ba_Available := newAvailable\<rparr>\<rparr>, True, drift))"

section \<open>Accounts: a uniform view of balance and token positions\<close>

text \<open>A BUY reserves collateral, a SELL reserves tokens: both move an amount from
  \<open>Available\<close> to \<open>Reserved\<close> of one account.\<close>

datatype account = Collateral | Token string

fun acctReserved :: "account \<Rightarrow> State \<Rightarrow> float64" where
  "acctReserved Collateral s = ba_Reserved (st_balance s)"
| "acctReserved (Token k) s = tp_Reserved (tokenPos s k)"

fun acctAvailable :: "account \<Rightarrow> State \<Rightarrow> float64" where
  "acctAvailable Collateral s = ba_Available (st_balance s)"
| "acctAvailable (Token k) s = tp_Available (tokenPos s k)"

fun onAccount :: "account \<Rightarrow> side \<Rightarrow> string \<Rightarrow> bool" where
  "onAccount Collateral sd tok = (sd = BUY)"
| "onAccount (Token k) sd tok = (sd = SELL \<and> tok = k)"

definition weight :: "account \<Rightarrow> side \<Rightarrow> string \<Rightarrow> float64 \<Rightarrow> rat" where
  "weight a sd tok r = (if onAccount a sd tok then rval r else 0)"

text \<open>The exact total the open reservations claim from an account, and how far the
  account's \<open>Reserved\<close> counter is from it.\<close>

definition committed :: "account \<Rightarrow> State \<Rightarrow> rat" where
  "committed a s =
     gsum (\<lambda>r. weight a (or_Side r) (or_TokenID r) (or_Reserved r)) (st_orders s)
   + gsum (\<lambda>p. weight a (pr_Side p) (pr_TokenID p) (pr_Reserved p)) (st_provisional s)"

definition gap :: "account \<Rightarrow> State \<Rightarrow> rat" where
  "gap a s = rval (acctReserved a s) - committed a s"

text \<open>Reserving \<open>r\<close>; with \<open>cl\<close> the token branch clamps \<open>Available\<close> at 0.\<close>

definition reserveOn :: "bool \<Rightarrow> side \<Rightarrow> string \<Rightarrow> float64 \<Rightarrow> State \<Rightarrow> State" where
  "reserveOn cl sd tok r s =
    (case sd of
       BUY \<Rightarrow> (let b = st_balance s in
                s\<lparr>st_balance := b\<lparr>ba_Available := ba_Available b - r, ba_Reserved := ba_Reserved b + r\<rparr>\<rparr>)
     | SELL \<Rightarrow>
         (let tp = tokenPos s tok;
              tp = tp\<lparr>tp_Available := tp_Available tp - r, tp_Reserved := tp_Reserved tp + r\<rparr>
          in putToken tok (if cl \<and> tp_Available tp < 0 then tp\<lparr>tp_Available := 0\<rparr> else tp) s)
     | OtherSide _ \<Rightarrow> s)"

section \<open>Well-formed states\<close>

definition order_ok :: "string \<Rightarrow> OrderReservation \<Rightarrow> bool" where
  "order_ok k r \<longleftrightarrow> or_OrderID r = k \<and> k \<noteq> [] \<and> or_Side r \<in> {BUY, SELL} \<and>
     0 < or_RemainingSize r \<and> 0 \<le> or_Reserved r"

definition prov_ok :: "string \<Rightarrow> ProvisionalReservation \<Rightarrow> bool" where
  "prov_ok k p \<longleftrightarrow> pr_IntentID p = k \<and> k \<noteq> [] \<and> pr_Side p \<in> {BUY, SELL} \<and>
     0 < pr_RemainingSize p \<and> 0 \<le> pr_Reserved p"

definition wf_state :: "State \<Rightarrow> bool" where
  "wf_state s \<longleftrightarrow>
     gmap_ok (st_orders s) \<and> gmap_ok (st_provisional s) \<and> gmap_ok (st_tokens s) \<and>
     gall order_ok (st_orders s) \<and> gall prov_ok (st_provisional s) \<and>
     gall (\<lambda>k tp. 0 \<le> tp_Reserved tp) (st_tokens s) \<and>
     0 \<le> ba_Reserved (st_balance s) \<and> 0 \<le> ba_MinBalance (st_balance s)"

lemma tokenPos_reserved_nonneg: "wf_state s \<Longrightarrow> 0 \<le> tp_Reserved (tokenPos s k)"
  by (auto simp: wf_state_def gget_def zeroTokenPosition_def split: option.splits
      dest: gall_lookup)

lemma acctReserved_nonneg: "wf_state s \<Longrightarrow> 0 \<le> acctReserved a s"
  by (cases a) (auto simp: tokenPos_reserved_nonneg, simp add: wf_state_def)

lemma wf_state_putToken:
  "wf_state s \<Longrightarrow> 0 \<le> tp_Reserved tp \<Longrightarrow> wf_state (putToken k tp s)"
  by (simp add: wf_state_def gall_put gomap_simps)

lemma wf_state_balance:
  "wf_state s \<Longrightarrow> 0 \<le> ba_Reserved b \<Longrightarrow> ba_MinBalance b = ba_MinBalance (st_balance s) \<Longrightarrow>
   wf_state (s\<lparr>st_balance := b\<rparr>)"
  by (simp add: wf_state_def)

lemma wf_state_put_order: "wf_state s \<Longrightarrow> order_ok k r \<Longrightarrow> wf_state (s\<lparr>st_orders := gput k r (st_orders s)\<rparr>)"
  by (simp add: wf_state_def gall_put gomap_simps)

lemma wf_state_del_order: "wf_state s \<Longrightarrow> wf_state (s\<lparr>st_orders := gdel k (st_orders s)\<rparr>)"
  by (simp add: wf_state_def gall_del gomap_simps)

lemma wf_state_put_prov:
  "wf_state s \<Longrightarrow> prov_ok k p \<Longrightarrow> wf_state (s\<lparr>st_provisional := gput k p (st_provisional s)\<rparr>)"
  by (simp add: wf_state_def gall_put gomap_simps)

lemma wf_state_del_prov: "wf_state s \<Longrightarrow> wf_state (s\<lparr>st_provisional := gdel k (st_provisional s)\<rparr>)"
  by (simp add: wf_state_def gall_del gomap_simps)

lemmas wf_state_intros =
  wf_state_putToken wf_state_balance wf_state_put_order wf_state_del_order
  wf_state_put_prov wf_state_del_prov

lemma wf_order: "wf_state s \<Longrightarrow> map_of (st_orders s) k = Some r \<Longrightarrow> order_ok k r"
  by (auto simp: wf_state_def dest: gall_lookup)

lemma wf_prov: "wf_state s \<Longrightarrow> map_of (st_provisional s) k = Some p \<Longrightarrow> prov_ok k p"
  by (auto simp: wf_state_def dest: gall_lookup)

section \<open>The two account movements\<close>

lemma releaseBalance_simps [simp]:
  "ba_Reserved (releaseBalance r b) = max 0 (ba_Reserved b - r)"
  "ba_Available (releaseBalance r b) = ba_Available b + r"
  "ba_MinBalance (releaseBalance r b) = ba_MinBalance b"
  by (auto simp: releaseBalance_def Let_def max_def)

lemma releaseToken_simps [simp]:
  "tp_Reserved (releaseToken r tp) = max 0 (tp_Reserved tp - r)"
  "tp_Available (releaseToken r tp) = tp_Available tp + r"
  by (auto simp: releaseToken_def Let_def max_def)

lemma release_frame [simp]:
  "st_orders (releaseReservedLocked sd tok r s) = st_orders s"
  "st_provisional (releaseReservedLocked sd tok r s) = st_provisional s"
  "st_dailyPnL (releaseReservedLocked sd tok r s) = st_dailyPnL s"
  by (simp_all add: releaseReservedLocked_def split: side.split)

lemma reserve_frame [simp]:
  "st_orders (reserveOn cl sd tok r s) = st_orders s"
  "st_provisional (reserveOn cl sd tok r s) = st_provisional s"
  "st_dailyPnL (reserveOn cl sd tok r s) = st_dailyPnL s"
  by (simp_all add: reserveOn_def Let_def split: side.split)

lemma acctReserved_release:
  "acctReserved a (releaseReservedLocked sd tok r s) =
     (if onAccount a sd tok then max 0 (acctReserved a s - r) else acctReserved a s)"
  by (cases a; cases sd) (auto simp: releaseReservedLocked_def)

lemma acctAvailable_release:
  "acctAvailable a (releaseReservedLocked sd tok r s) =
     (if onAccount a sd tok then acctAvailable a s + r else acctAvailable a s)"
  by (cases a; cases sd) (auto simp: releaseReservedLocked_def)

lemma acctReserved_reserve:
  "acctReserved a (reserveOn cl sd tok r s) =
     (if onAccount a sd tok then acctReserved a s + r else acctReserved a s)"
  by (cases a; cases sd) (auto simp: reserveOn_def Let_def)

lemma acctAvailable_reserve:
  "acctAvailable a (reserveOn cl sd tok r s) =
     (if onAccount a sd tok
      then (if cl \<and> a \<noteq> Collateral then max 0 (acctAvailable a s - r) else acctAvailable a s - r)
      else acctAvailable a s)"
  by (cases a; cases sd) (auto simp: reserveOn_def Let_def max_def)

lemma wf_state_release: "wf_state s \<Longrightarrow> wf_state (releaseReservedLocked sd tok r s)"
  by (cases sd) (auto simp: releaseReservedLocked_def intro!: wf_state_intros)

lemma wf_state_reserve: "wf_state s \<Longrightarrow> 0 \<le> r \<Longrightarrow> wf_state (reserveOn cl sd tok r s)"
  using acctReserved_nonneg [of s Collateral] tokenPos_reserved_nonneg [of s tok]
  by (cases sd) (auto simp: reserveOn_def Let_def intro!: wf_state_intros)

section \<open>Case analysis of the operations\<close>

text \<open>Each operation either leaves the state alone or performs one account movement
  together with one change of the reservation maps.\<close>

lemma TryReserve_cases:
  obtains
    (error) e where "TryReserveProvisional clock i m t sd price sz now ttl s = (s, Some e)"
  | (reserved) p where
      "TryReserveProvisional clock i m t sd price sz now ttl s =
         ((reserveOn True (pr_Side p) (pr_TokenID p) (pr_Reserved p) s)
            \<lparr>st_provisional := gput i p (st_provisional s)\<rparr>, None)"
      "prov_ok i p" "pr_Side p = sd" "pr_TokenID p = t" "pr_MarketID p = m" "pr_Price p = price"
      "pr_RemainingSize p = sz" "pr_Reserved p = RequiredCollateral sd price sz"
      "\<not> ghas (st_provisional s) i"
      "pr_ExpiresAt p = (if now = 0 then clock else now) + (if ttl \<le> 0 then 5 * second else ttl)"
proof -
  let ?now = "if now = 0 then clock else now"
  let ?ttl = "if ttl \<le> 0 then 5 * second else ttl"
  let ?p = "\<lparr>pr_IntentID = i, pr_MarketID = m, pr_TokenID = t, pr_Side = sd, pr_Price = price,
     pr_RemainingSize = sz, pr_Reserved = RequiredCollateral sd price sz,
     pr_CreatedAt = ?now, pr_ExpiresAt = ?now + ?ttl\<rparr>"
  let ?r = "TryReserveProvisional clock i m t sd price sz now ttl s"
  have "(\<exists>e. ?r = (s, Some e)) \<or>
    (?r = ((reserveOn True sd t (RequiredCollateral sd price sz) s)
            \<lparr>st_provisional := gput i ?p (st_provisional s)\<rparr>, None) \<and>
     prov_ok i ?p \<and> \<not> ghas (st_provisional s) i)"
    by (cases sd)
      (auto simp: TryReserveProvisional_def Let_def prov_ok_def reserveOn_def not_le less_imp_le)
  then show ?thesis
    using error reserved [of ?p] by auto
qed

lemma validateOrderArgs_None:
  "validateOrderArgs i m t sd price sz = None \<longleftrightarrow>
     i \<noteq> [] \<and> m \<noteq> [] \<and> t \<noteq> [] \<and> 0 < sz \<and> 0 < price \<and> price < 1 \<and> sd \<in> {BUY, SELL}"
  by (auto simp: validateOrderArgs_def not_le)

lemma order_from_prov_ok: "prov_ok i p \<Longrightarrow> k \<noteq> [] \<Longrightarrow> order_ok k (orderFromProvisional k p)"
  by (auto simp: prov_ok_def order_ok_def orderFromProvisional_def)

lemma orderFromProvisional_simps [simp]:
  "or_Side (orderFromProvisional k p) = pr_Side p"
  "or_TokenID (orderFromProvisional k p) = pr_TokenID p"
  "or_Reserved (orderFromProvisional k p) = pr_Reserved p"
  by (simp_all add: orderFromProvisional_def)

lemma AttachOrder_cases:
  obtains
    (error) e where "AttachOrder i k m t sd price sz s = (s, Some e)"
  | (duplicate) p where
      "map_of (st_provisional s) i = Some p"
      "AttachOrder i k m t sd price sz s =
         (releaseReservedLocked (pr_Side p) (pr_TokenID p) (pr_Reserved p)
            (s\<lparr>st_provisional := gdel i (st_provisional s)\<rparr>), Some ErrOrderAlreadyReserved)"
  | (converted) p where
      "map_of (st_provisional s) i = Some p" "k \<noteq> []" "\<not> ghas (st_orders s) k"
      "AttachOrder i k m t sd price sz s =
         (s\<lparr>st_provisional := gdel i (st_provisional s),
            st_orders := gput k (orderFromProvisional k p) (st_orders s)\<rparr>, None)"
  | (fresh) r where
      "AttachOrder i k m t sd price sz s =
         ((reserveOn True (or_Side r) (or_TokenID r) (or_Reserved r) s)
            \<lparr>st_orders := gput k r (st_orders s)\<rparr>, None)"
      "order_ok k r" "or_Side r = sd" "or_TokenID r = t" "or_Reserved r = RequiredCollateral sd price sz"
      "or_MarketID r = m" "or_RemainingSize r = sz" "or_Price r = price"
      "\<not> ghas (st_orders s) k" "i = [] \<or> map_of (st_provisional s) i = None"
proof -
  let ?r = "\<lparr>or_OrderID = k, or_MarketID = m, or_TokenID = t, or_Side = sd, or_Price = price,
     or_RemainingSize = sz, or_Reserved = RequiredCollateral sd price sz, or_ExternalOrigin = False\<rparr>"
  consider (bad) e where "validateOrderArgs k m t sd price sz = Some e"
    | (good) "validateOrderArgs k m t sd price sz = None"
    by (cases "validateOrderArgs k m t sd price sz") auto
  then show ?thesis
  proof cases
    case bad
    then show ?thesis by (intro error [of e]) (simp add: AttachOrder_def)
  next
    case good
    then have v: "k \<noteq> []" "0 < sz" "0 < price" "sd \<in> {BUY, SELL}"
      by (simp_all add: validateOrderArgs_None)
    define prov where "prov = (if i = [] then None else map_of (st_provisional s) i)"
    show ?thesis
    proof (cases prov)
      case (Some p)
      then have p: "i \<noteq> []" "map_of (st_provisional s) i = Some p"
        by (auto simp: prov_def split: if_splits)
      show ?thesis
      proof (cases "ghas (st_orders s) k")
        case True
        show ?thesis
          by (rule duplicate [OF p(2)]) (simp add: AttachOrder_def good p True)
      next
        case False
        show ?thesis
          by (rule converted [OF p(2) v(1) False]) (simp add: AttachOrder_def good p False)
      qed
    next
      case None
      then have p: "i = [] \<or> map_of (st_provisional s) i = None"
        by (auto simp: prov_def split: if_splits)
      show ?thesis
      proof (cases "ghas (st_orders s) k")
        case True
        show ?thesis using p
          by (intro error [of ErrOrderAlreadyReserved]) (auto simp: AttachOrder_def good True)
      next
        case False
        have ok: "order_ok k ?r"
          using v by (auto simp: order_ok_def less_imp_le)
        have "(\<exists>e. AttachOrder i k m t sd price sz s = (s, Some e)) \<or>
          AttachOrder i k m t sd price sz s =
            ((reserveOn True sd t (RequiredCollateral sd price sz) s)
              \<lparr>st_orders := gput k ?r (st_orders s)\<rparr>, None)"
          using v(4) p by (auto simp: AttachOrder_def good False reserveOn_def Let_def split: if_splits)
        then show ?thesis
          using error fresh [of ?r] ok False p by auto
      qed
    qed
  qed
qed

lemma AttachExternal_cases:
  obtains
    (unchanged) e where "AttachExternalOrder k m t sd price sz s = (s, e)"
  | (fresh) r where
      "AttachExternalOrder k m t sd price sz s =
         ((reserveOn False (or_Side r) (or_TokenID r) (or_Reserved r) s)
            \<lparr>st_orders := gput k r (st_orders s)\<rparr>, None)"
      "order_ok k r" "or_ExternalOrigin r" "\<not> ghas (st_orders s) k"
proof -
  let ?r = "\<lparr>or_OrderID = k, or_MarketID = m, or_TokenID = t, or_Side = sd, or_Price = price,
     or_RemainingSize = sz, or_Reserved = RequiredCollateral sd price sz, or_ExternalOrigin = True\<rparr>"
  consider (bad) e where "validateOrderArgs k m t sd price sz = Some e" | (dup) "ghas (st_orders s) k"
    "validateOrderArgs k m t sd price sz = None"
    | (good) "validateOrderArgs k m t sd price sz = None" "\<not> ghas (st_orders s) k"
    by (cases "validateOrderArgs k m t sd price sz") auto
  then show ?thesis
  proof cases
    case good
    then have v: "k \<noteq> []" "0 < sz" "0 < price" "sd \<in> {BUY, SELL}"
      by (simp_all add: validateOrderArgs_None)
    have ok: "order_ok k ?r" using v by (auto simp: order_ok_def less_imp_le)
    have "(\<exists>e. AttachExternalOrder k m t sd price sz s = (s, e)) \<or>
      AttachExternalOrder k m t sd price sz s =
        ((reserveOn False sd t (RequiredCollateral sd price sz) s)
          \<lparr>st_orders := gput k ?r (st_orders s)\<rparr>, None)"
      using v(4) by (auto simp: AttachExternalOrder_def good reserveOn_def Let_def split: if_splits)
    then show ?thesis using unchanged fresh [of ?r] ok good by auto
  qed (auto intro: unchanged simp: AttachExternalOrder_def)
qed

lemma ReleaseOrder_eq:
  assumes "map_of (st_orders s) k = Some r" and "k \<noteq> []"
  shows "ReleaseOrder k s =
    (releaseReservedLocked (or_Side r) (or_TokenID r) (or_Reserved r) s)\<lparr>st_orders := gdel k (st_orders s)\<rparr>"
  using assms by (simp add: ReleaseOrder_def releaseReservedLocked_def Let_def split: side.split)

lemma ReleaseOrder_none: "map_of (st_orders s) k = None \<Longrightarrow> ReleaseOrder k s = s"
  by (simp add: ReleaseOrder_def)

lemma ReleaseProvisional_eq:
  assumes "map_of (st_provisional s) i = Some p" and "i \<noteq> []"
  shows "ReleaseProvisional i s =
    (releaseReservedLocked (pr_Side p) (pr_TokenID p) (pr_Reserved p)
       (s\<lparr>st_provisional := gdel i (st_provisional s)\<rparr>), True)"
  using assms by (simp add: ReleaseProvisional_def)

lemma ReleaseProvisional_none: "map_of (st_provisional s) i = None \<Longrightarrow> ReleaseProvisional i s = (s, False)"
  by (simp add: ReleaseProvisional_def)

text \<open>The effective price of a fill, the part of the reservation it consumes, and what is
  left of the reservation.\<close>

definition effPrice :: "OrderReservation \<Rightarrow> float64 \<Rightarrow> float64" where
  "effPrice res fillPrice = (if fillPrice \<le> 0 then or_Price res else fillPrice)"

definition fillConsumed :: "OrderReservation \<Rightarrow> float64 \<Rightarrow> float64 \<Rightarrow> float64" where
  "fillConsumed res filledSize fillPrice =
     min (or_Reserved res) (RequiredCollateral (or_Side res) (effPrice res fillPrice) filledSize)"

definition fillLeft :: "OrderReservation \<Rightarrow> float64 \<Rightarrow> float64 \<Rightarrow> OrderReservation" where
  "fillLeft res filledSize fillPrice =
     res\<lparr>or_RemainingSize := max 0 (or_RemainingSize res - filledSize),
         or_Reserved := max 0 (or_Reserved res - fillConsumed res filledSize fillPrice)\<rparr>"

definition afterFill :: "string \<Rightarrow> OrderReservation \<Rightarrow> State \<Rightarrow> (string, OrderReservation) gomap" where
  "afterFill k res s =
     (if or_RemainingSize res \<le> FloatEpsilon then gdel k (st_orders s) else gput k res (st_orders s))"

definition fillEffect :: "time \<Rightarrow> OrderReservation \<Rightarrow> float64 \<Rightarrow> float64 \<Rightarrow> State \<Rightarrow> State" where
  "fillEffect clock res sz price s =
    (case or_Side res of
       BUY \<Rightarrow> fillBuy (or_TokenID res) sz (effPrice res price) (fillConsumed res sz price) s
     | SELL \<Rightarrow> fillSell clock (or_TokenID res) sz (effPrice res price) (fillConsumed res sz price) s
     | OtherSide _ \<Rightarrow> s)"

lemma reduceReservation_eq: "reduceReservation sz (fillConsumed res sz price) res = fillLeft res sz price"
  unfolding fillLeft_def reduceReservation_def Let_def by (cases res) (auto simp: max_def)

lemma fillEffect_eqs:
  "or_Side res = BUY \<Longrightarrow> fillEffect clock res sz price s =
     fillBuy (or_TokenID res) sz (effPrice res price) (fillConsumed res sz price) s"
  "or_Side res = SELL \<Longrightarrow> fillEffect clock res sz price s =
     fillSell clock (or_TokenID res) sz (effPrice res price) (fillConsumed res sz price) s"
  by (simp_all add: fillEffect_def)

lemma fill_frame [simp]:
  "st_orders (fillBuy tok sz fp c s) = st_orders s"
  "st_orders (fillSell clock tok sz fp c s) = st_orders s"
  by (simp_all add: fillBuy_def fillSell_def addDailyPnLLocked_def Let_def)

lemma fillEffect_frame [simp]:
  "st_orders (fillEffect clock res sz price s) = st_orders s"
  "st_provisional (fillEffect clock res sz price s) = st_provisional s"
  by (simp_all add: fillEffect_def fillBuy_def fillSell_def addDailyPnLLocked_def Let_def split: side.split)

lemma acctReserved_fillBuy:
  "acctReserved a (fillBuy tok sz fp c s) =
     (if a = Collateral then max 0 (ba_Reserved (st_balance s) - c) else acctReserved a s)"
  by (cases a) (auto simp: fillBuy_def Let_def max_def)

lemma acctReserved_fillSell:
  "acctReserved a (fillSell clock tok sz fp c s) =
     (if a = Token tok then max 0 (tp_Reserved (tokenPos s tok) - c) else acctReserved a s)"
  by (cases a) (auto simp: fillSell_def addDailyPnLLocked_def Let_def max_def)

lemma acctReserved_fill:
  "acctReserved a (fillEffect clock res sz price s) =
     (if onAccount a (or_Side res) (or_TokenID res)
      then max 0 (acctReserved a s - fillConsumed res sz price) else acctReserved a s)"
  by (cases a; cases "or_Side res")
    (auto simp: fillEffect_def acctReserved_fillBuy acctReserved_fillSell simp del: acctReserved.simps,
     auto)

text \<open>Every call of \<^verbatim>\<open>ApplyFill\<close> is an error that changes nothing, or the fill effect with
  the reservation reduced or removed.\<close>

lemma ApplyFill_cases:
  obtains
    (error) e where "ApplyFill clock k m t sd sz price s = (s, Some e)"
  | (filled) res where
      "ApplyFill clock k m t sd sz price s =
         ((fillEffect clock res sz price s)\<lparr>st_orders := afterFill k (fillLeft res sz price) s\<rparr>, None)"
      "map_of (st_orders s) k = Some res" "k \<noteq> []" "0 < sz"
      "or_Side res = sd" "sd \<in> {BUY, SELL}" "or_TokenID res = t" "or_MarketID res = m"
proof (cases "\<exists>e. ApplyFill clock k m t sd sz price s = (s, Some e)")
  case True
  then show ?thesis using error by blast
next
  case False
  then have g: "k \<noteq> []" "\<not> sz \<le> 0" "sd \<in> {BUY, SELL}"
    by (auto simp: ApplyFill_def split: if_splits)
  from False g obtain res where r: "map_of (st_orders s) k = Some res"
    "or_Side res = sd" "or_TokenID res = t" "or_MarketID res = m"
    by (auto simp: ApplyFill_def split: if_splits option.splits)
  have c: "(if or_Reserved res < RequiredCollateral sd (effPrice res price) sz then or_Reserved res
            else RequiredCollateral sd (effPrice res price) sz) = fillConsumed res sz price"
    using r by (auto simp: fillConsumed_def min_def)
  have "ApplyFill clock k m t sd sz price s =
     ((fillEffect clock res sz price s)\<lparr>st_orders := afterFill k (fillLeft res sz price) s\<rparr>, None)"
    using g(1,2) r g(3)
    by (simp only: ApplyFill_def effPrice_def [symmetric] Let_def c reduceReservation_eq if_False
        option.case HOL.simp_thms if_cancel)
      (auto simp: fillEffect_eqs afterFill_def)
  then show ?thesis
    using filled [of res] r g by (simp add: not_le)
qed

end
