(* ===== verification/Reconcile.thy ===== *)
theory Reconcile
  imports State
begin

text \<open>
  The rest of package \<^verbatim>\<open>state\<close>: balance synchronisation (\<^verbatim>\<open>balance_sync.go\<close>),
  reconciliation with the exchange (\<^verbatim>\<open>reconcile.go\<close>), restoring at start-up
  (\<^verbatim>\<open>state_restore.go\<close> and \<^verbatim>\<open>Restore\<close> of \<^verbatim>\<open>state.go\<close>) and the expiry
  watch (\<^verbatim>\<open>position_expiring.go\<close>).  The replies of the exchange client and of the
  on-chain reader are arguments (\<open>Inl\<close> an error); JSON values are read through the
  accessors of the third-party package \<^verbatim>\<open>gjson\<close>, which are a parameter.
\<close>

section \<open>Data of the exchange\<close>

record 'j gjson =
  gj_Get :: "'j \<Rightarrow> string \<Rightarrow> 'j"
  gj_String :: "'j \<Rightarrow> string"
  gj_Float :: "'j \<Rightarrow> float64"
  gj_Array :: "'j \<Rightarrow> 'j list"

text \<open>The fields the program reads of the SDK's \<^verbatim>\<open>orders.OpenOrder\<close>.\<close>

record OpenOrder =
  oo_Id :: string
  oo_Market :: string
  oo_AssetId :: string
  oo_Side :: side
  oo_Price :: float64
  oo_OriginalSize :: float64
  oo_SizeMatched :: float64

record ReconcileReport =
  rr_OrdersAdded :: int
  rr_OrdersRemoved :: int
  rr_OrdersUpdated :: int
  rr_PositionsAdded :: int
  rr_PositionsRemoved :: int
  rr_PositionsUpdated :: int
  rr_DurationMs :: int
  rr_Err :: "goerror option"

record BalanceSyncEvent =
  be_OnchainTotal :: float64
  be_Drift :: float64
  be_Changed :: bool
  be_Err :: "goerror option"

section \<open>Balance synchronisation\<close>

text \<open>The second component of the result is the event returned, the third the event handed
  to the \<^verbatim>\<open>OnEvent\<close> callback, if any.\<close>

definition SyncBalanceOnce ::
  "goerror + float64 \<Rightarrow> State \<Rightarrow> State \<times> BalanceSyncEvent \<times> BalanceSyncEvent option" where
  "SyncBalanceOnce reading s =
    (let none = \<lparr>be_OnchainTotal = 0, be_Drift = 0, be_Changed = False, be_Err = None\<rparr> in
     if \<not> bs_HasReader (st_balanceSync s) then (s, none, None)
     else case reading of
       Inl err \<Rightarrow> (let evt = none\<lparr>be_Err := Some err\<rparr> in (s, evt, Some evt))
     | Inr onchainTotal \<Rightarrow>
         (let (s', changed, drift) = ReconcileOnchainBalance onchainTotal (bs_Epsilon (st_balanceSync s)) s;
              evt = \<lparr>be_OnchainTotal = onchainTotal, be_Drift = drift, be_Changed = changed, be_Err = None\<rparr>
          in (s', evt, if changed then Some evt else None)))"

section \<open>Reconciling orders\<close>

definition TriggerReconcile :: "State \<Rightarrow> State" where
  "TriggerReconcile s = s\<lparr>st_reconcileTrigger := True\<rparr>"

definition remoteByID :: "OpenOrder list \<Rightarrow> (string, OpenOrder) gomap" where
  "remoteByID remote =
     fold (\<lambda>ord m. let id = TrimSpace (oo_Id ord) in if id = [] then m else gput id ord m) remote []"

definition remainingOf :: "OpenOrder \<Rightarrow> float64" where
  "remainingOf ord = max 0 (oo_OriginalSize ord - oo_SizeMatched ord)"

definition releaseOrderLocked :: "string \<Rightarrow> OrderReservation \<Rightarrow> State \<Rightarrow> State" where
  "releaseOrderLocked orderID r s =
    (let s = (case or_Side r of
                BUY \<Rightarrow> s\<lparr>st_balance := releaseBalance (or_Reserved r) (st_balance s)\<rparr>
              | SELL \<Rightarrow> putToken (or_TokenID r)
                          (releaseToken (or_Reserved r) (tokenPos s (or_TokenID r))) s
              | OtherSide _ \<Rightarrow> s)
     in s\<lparr>st_orders := gdel orderID (st_orders s)\<rparr>)"

definition attachExternalLocked ::
  "string \<Rightarrow> string \<Rightarrow> string \<Rightarrow> side \<Rightarrow> float64 \<Rightarrow> float64 \<Rightarrow> State \<Rightarrow> State \<times> goerror option" where
  "attachExternalLocked orderID marketID tokenID sd price remainingSize s =
    (if orderID = [] \<or> marketID = [] \<or> tokenID = [] \<or> remainingSize \<le> 0 \<or> price \<le> 0 \<or> 1 \<le> price
     then (s, Some ErrReconcileFailed)
     else if ghas (st_orders s) orderID then (s, None)
     else
       let ext = (\<lambda>reserved. \<lparr>or_OrderID = orderID, or_MarketID = marketID, or_TokenID = tokenID,
                    or_Side = sd, or_Price = price, or_RemainingSize = remainingSize,
                    or_Reserved = reserved, or_ExternalOrigin = True\<rparr>);
           record_o = (\<lambda>reserved s. s\<lparr>st_orders := gput orderID (ext reserved) (st_orders s)\<rparr>)
       in case sd of
         BUY \<Rightarrow>
           (let reserved = price * remainingSize; b = st_balance s
            in (record_o reserved
                  (s\<lparr>st_balance := b\<lparr>ba_Available := ba_Available b - reserved,
                                    ba_Reserved := ba_Reserved b + reserved\<rparr>\<rparr>), None))
       | SELL \<Rightarrow>
           (let tp = tokenPos s tokenID;
                tp = tp\<lparr>tp_Available := tp_Available tp - remainingSize,
                        tp_Reserved := tp_Reserved tp + remainingSize\<rparr>
            in (record_o remainingSize (putToken tokenID tp s), None))
       | OtherSide _ \<Rightarrow> (s, Some ErrReconcileFailed))"

text \<open>The two loops of \<^verbatim>\<open>reconcileOrders\<close>, each with its counters.\<close>

fun releaseMissing ::
  "(string, OpenOrder) gomap \<Rightarrow> (string, OrderReservation) gomap \<Rightarrow> State \<Rightarrow> int \<Rightarrow> State \<times> int" where
  "releaseMissing remote [] s removed = (s, removed)"
| "releaseMissing remote ((orderID, local) # rest) s removed =
     (if ghas remote orderID then releaseMissing remote rest s removed
      else releaseMissing remote rest (releaseOrderLocked orderID local s) (removed + 1))"

fun addOrUpdate :: "(string, OpenOrder) gomap \<Rightarrow> State \<Rightarrow> int \<Rightarrow> int \<Rightarrow> State \<times> int \<times> int" where
  "addOrUpdate [] s added updated = (s, added, updated)"
| "addOrUpdate ((orderID, ro) # rest) s added updated =
     (let remaining = remainingOf ro in
      if remaining \<le> 0 then addOrUpdate rest s added updated
      else case map_of (st_orders s) orderID of
        None \<Rightarrow>
          (let (s', err) = attachExternalLocked orderID (oo_Market ro) (oo_AssetId ro) (oo_Side ro)
                             (oo_Price ro) remaining s
           in addOrUpdate rest s' (if err = None then added + 1 else added) updated)
      | Some local \<Rightarrow>
          if FloatEpsilon < \<bar>or_RemainingSize local - remaining\<bar> \<or>
             FloatEpsilon < \<bar>or_Price local - oo_Price ro\<bar>
          then addOrUpdate rest
                 (s\<lparr>st_orders := gput orderID
                      (local\<lparr>or_RemainingSize := remaining, or_Price := oo_Price ro\<rparr>) (st_orders s)\<rparr>)
                 added (updated + 1)
          else addOrUpdate rest s added updated)"

definition reconcileOrders :: "OpenOrder list \<Rightarrow> State \<Rightarrow> State \<times> int \<times> int \<times> int" where
  "reconcileOrders remote s =
    (let rm = remoteByID remote;
         (s, removed) = releaseMissing rm (st_orders s) s 0;
         (s, added, updated) = addOrUpdate rm s 0 0
     in (s, added, removed, updated))"

section \<open>Reconciling positions\<close>

fun firstNonEmptyJSON :: "'j gjson \<Rightarrow> 'j \<Rightarrow> string list \<Rightarrow> string" where
  "firstNonEmptyJSON G item [] = []"
| "firstNonEmptyJSON G item (k # ks) =
     (let v = TrimSpace (gj_String G (gj_Get G item k)) in if v \<noteq> [] then v else firstNonEmptyJSON G item ks)"

definition tokenIDKeys :: "string list" where
  "tokenIDKeys = [''asset'', ''assetId'', ''asset_id'', ''tokenId'']"

definition positionItems :: "'j gjson \<Rightarrow> 'j option \<Rightarrow> 'j list" where
  "positionItems G remote =
    (case remote of
       None \<Rightarrow> []
     | Some j \<Rightarrow> (let items = gj_Array G j in if items = [] then gj_Array G (gj_Get G j ''data'') else items))"

definition remoteByToken :: "'j gjson \<Rightarrow> 'j option \<Rightarrow> (string, float64) gomap" where
  "remoteByToken G remote =
     fold (\<lambda>item m. let tokenID = firstNonEmptyJSON G item tokenIDKeys in
             if tokenID = [] then m
             else let sz = gj_Float G (gj_Get G item ''size'') in
               if sz \<le> 0 then m else gput tokenID (gget 0 m tokenID + sz) m)
       (positionItems G remote) []"

fun addOrUpdatePos :: "(string, float64) gomap \<Rightarrow> State \<Rightarrow> int \<Rightarrow> int \<Rightarrow> State \<times> int \<times> int" where
  "addOrUpdatePos [] s added updated = (s, added, updated)"
| "addOrUpdatePos ((tk, sz) # rest) s added updated =
     (case map_of (st_tokens s) tk of
        None \<Rightarrow>
          addOrUpdatePos rest (putToken tk (zeroTokenPosition\<lparr>tp_Available := sz, tp_AvgCostKnown := False\<rparr>) s)
            (added + 1) updated
      | Some tp \<Rightarrow>
          if FloatEpsilon < \<bar>tp_Available tp + tp_Reserved tp - sz\<bar> then
            (let diff = sz - (tp_Available tp + tp_Reserved tp);
                 tp = tp\<lparr>tp_Available := tp_Available tp + diff\<rparr>;
                 tp = (if tp_Available tp < 0 then tp\<lparr>tp_Available := 0\<rparr> else tp)
             in addOrUpdatePos rest (putToken tk tp s) added (updated + 1))
          else addOrUpdatePos rest s added updated)"

definition reconcilePositionTable :: "(string, float64) gomap \<Rightarrow> State \<Rightarrow> State \<times> int \<times> int \<times> int" where
  "reconcilePositionTable rm s =
    (let gone = filter (\<lambda>(tk, tp). \<not> ghas rm tk) (st_tokens s);
         s = s\<lparr>st_tokens := filter (\<lambda>(tk, tp). ghas rm tk) (st_tokens s)\<rparr>;
         (s, added, updated) = addOrUpdatePos rm s 0 0
     in (s, added, int (length gone), updated))"

definition reconcilePositions :: "'j gjson \<Rightarrow> 'j option \<Rightarrow> State \<Rightarrow> State \<times> int \<times> int \<times> int" where
  "reconcilePositions G remote s = reconcilePositionTable (remoteByToken G remote) s"

section \<open>One pass, and the retry loop\<close>

definition emptyReport :: ReconcileReport where
  "emptyReport = \<lparr>rr_OrdersAdded = 0, rr_OrdersRemoved = 0, rr_OrdersUpdated = 0,
     rr_PositionsAdded = 0, rr_PositionsRemoved = 0, rr_PositionsUpdated = 0,
     rr_DurationMs = 0, rr_Err = None\<rparr>"

text \<open>What the exchange client (\<open>None\<close>: no client) answers in one pass, and how long the
  pass takes.\<close>

record 'j exchangeReply =
  er_orders :: "goerror + OpenOrder list"
  er_positions :: "goerror + 'j option"
  er_duration :: int

definition ReconcileWithExchange ::
  "'j gjson \<Rightarrow> 'j exchangeReply option \<Rightarrow> State \<Rightarrow> State \<times> ReconcileReport" where
  "ReconcileWithExchange G reply s =
    (case reply of
       None \<Rightarrow> (s, emptyReport\<lparr>rr_Err := Some ErrReconcileFailed\<rparr>)
     | Some rp \<Rightarrow>
       (case er_orders rp of
          Inl err \<Rightarrow> (s, emptyReport\<lparr>rr_Err := Some err\<rparr>)
        | Inr openOrders \<Rightarrow>
          (case er_positions rp of
             Inl err \<Rightarrow> (s, emptyReport\<lparr>rr_Err := Some err\<rparr>)
           | Inr positions \<Rightarrow>
             (let (s, oa, orm, ou) = reconcileOrders openOrders s;
                  (s, pa, prm, pu) = reconcilePositions G positions s
              in (s, \<lparr>rr_OrdersAdded = oa, rr_OrdersRemoved = orm, rr_OrdersUpdated = ou,
                      rr_PositionsAdded = pa, rr_PositionsRemoved = prm, rr_PositionsUpdated = pu,
                      rr_DurationMs = er_duration rp, rr_Err = None\<rparr>)))))"

text \<open>\<^verbatim>\<open>runReconcileWithRetry\<close>: a failed pass is repeated once per backoff until one
  succeeds.  Before each retry the context may be cancelled (\<open>None\<close> in the list of what
  happens during the waits, or the end of that list); then nothing is reported.\<close>

fun retryLoop ::
  "'j gjson \<Rightarrow> duration list \<Rightarrow> 'j exchangeReply option option list \<Rightarrow> State \<Rightarrow> ReconcileReport \<Rightarrow>
   State \<times> ReconcileReport option" where
  "retryLoop G [] env s rep = (s, Some rep)"
| "retryLoop G (w # ws) [] s rep = (s, None)"
| "retryLoop G (w # ws) (None # env) s rep = (s, None)"
| "retryLoop G (w # ws) (Some reply # env) s rep =
     (let (s, rep) = ReconcileWithExchange G reply s
      in if rr_Err rep = None then (s, Some rep) else retryLoop G ws env s rep)"

definition runReconcileWithRetry ::
  "'j gjson \<Rightarrow> duration list \<Rightarrow> 'j exchangeReply option \<Rightarrow> 'j exchangeReply option option list \<Rightarrow>
   State \<Rightarrow> State \<times> ReconcileReport option" where
  "runReconcileWithRetry G backoff reply env s =
    (let (s, rep) = ReconcileWithExchange G reply s
     in if rr_Err rep \<noteq> None then retryLoop G backoff env s rep else (s, Some rep))"

section \<open>Restoring\<close>

fun restoreOrders :: "(string, OrderReservation) gomap \<Rightarrow> State \<Rightarrow> State" where
  "restoreOrders [] s = s"
| "restoreOrders ((key, r) # rest) s =
     (if or_OrderID r = [] then restoreOrders rest s
      else if or_RemainingSize r \<le> 0 then restoreOrders rest s
      else
        let r = (if or_Reserved r < 0 then r\<lparr>or_Reserved := 0\<rparr> else r);
            s = s\<lparr>st_orders := gput (or_OrderID r) r (st_orders s)\<rparr>
        in restoreOrders rest
             (case or_Side r of
                BUY \<Rightarrow>
                  (let b = st_balance s in
                   s\<lparr>st_balance := b\<lparr>ba_Available := ba_Available b - or_Reserved r,
                                     ba_Reserved := ba_Reserved b + or_Reserved r\<rparr>\<rparr>)
              | SELL \<Rightarrow>
                  (let tp = tokenPos s (or_TokenID r) in
                   putToken (or_TokenID r) (tp\<lparr>tp_Available := tp_Available tp - or_Reserved r,
                                                tp_Reserved := tp_Reserved tp + or_Reserved r\<rparr>) s)
              | OtherSide _ \<Rightarrow> s))"

definition Restore :: "Snapshot \<Rightarrow> State \<Rightarrow> State" where
  "Restore snapshot s =
     restoreOrders (sn_Orders snapshot)
       (s\<lparr>st_tokens := sn_Tokens snapshot, st_balance := sn_Balance snapshot,
          st_orders := [], st_provisional := []\<rparr>)"

text \<open>The position and order tables \<^verbatim>\<open>RestoreFromExchange\<close> builds.\<close>

definition restoredTokens :: "'j gjson \<Rightarrow> 'j option \<Rightarrow> (string, TokenPosition) gomap" where
  "restoredTokens G positions =
     fold (\<lambda>item m. let tokenID = firstNonEmptyJSON G item tokenIDKeys in
             if tokenID = [] then m
             else let sz = gj_Float G (gj_Get G item ''size'') in
               if sz \<le> 0 then m
               else let tp = gget zeroTokenPosition m tokenID
                    in gput tokenID (tp\<lparr>tp_Available := tp_Available tp + sz\<rparr>) m)
       (positionItems G positions) []"

fun restoredReservations ::
  "OpenOrder list \<Rightarrow> string list \<Rightarrow> OrderReservation list \<Rightarrow> string list \<times> OrderReservation list" where
  "restoredReservations [] ids rs = (ids, rs)"
| "restoredReservations (order # rest) ids rs =
     (let remainingSize = remainingOf order in
      if remainingSize \<le> 0 then restoredReservations rest ids rs
      else let reserved = RequiredCollateral (oo_Side order) (oo_Price order) remainingSize in
        if reserved \<le> 0 then restoredReservations rest ids rs
        else let orderID = TrimSpace (oo_Id order) in
          if orderID \<noteq> [] \<and> orderID \<notin> set ids
          then restoredReservations rest (ids @ [orderID])
                 (rs @ [\<lparr>or_OrderID = orderID, or_MarketID = oo_Market order, or_TokenID = oo_AssetId order,
                         or_Side = oo_Side order, or_Price = oo_Price order,
                         or_RemainingSize = remainingSize, or_Reserved = reserved,
                         or_ExternalOrigin = False\<rparr>])
          else restoredReservations rest ids rs)"

definition mapReservationsByID :: "OrderReservation list \<Rightarrow> (string, OrderReservation) gomap" where
  "mapReservationsByID reservations =
     fold (\<lambda>r m. if TrimSpace (or_OrderID r) = [] then m else gput (or_OrderID r) r m) reservations []"

definition RestoreFromExchange ::
  "'j gjson \<Rightarrow> goerror + float64 \<Rightarrow> goerror + OpenOrder list \<Rightarrow> goerror + 'j option \<Rightarrow> State \<Rightarrow>
   State \<times> (goerror + string list)" where
  "RestoreFromExchange G reading ordersReply positionsReply s =
    (let s = fst (SyncBalanceOnce reading s) in
     case ordersReply of
       Inl err \<Rightarrow> (s, Inl (ErrText (''fetch open orders failed: '' @ errorText err)))
     | Inr openOrders \<Rightarrow>
       (case positionsReply of
          Inl err \<Rightarrow> (s, Inl (ErrText (''fetch positions failed: '' @ errorText err)))
        | Inr positions \<Rightarrow>
          (let (orderIDs, reservations) = restoredReservations openOrders [] []
           in (Restore \<lparr>sn_Tokens = restoredTokens G positions, sn_Balance = st_balance s,
                        sn_Orders = mapReservationsByID reservations, sn_DailyPnL = 0,
                        sn_DailyPnLDate = None, sn_OpenOrderCount = 0\<rparr> s, Inr orderIDs))))"

section \<open>Position expiry\<close>

record PositionExpiringEvent =
  pe_MarketID :: string
  pe_EndTime :: int
  pe_TokenIDs :: "string list"
  pe_Available :: "(string, float64) gomap"

definition RegisterMarketExpiry :: "string \<Rightarrow> int \<Rightarrow> string list \<Rightarrow> State \<Rightarrow> State" where
  "RegisterMarketExpiry marketID endTimeMs tokenIDs s =
     s\<lparr>st_expiryMarkets := gput marketID
          \<lparr>em_endTime = endTimeMs, em_tokenIDs = tokenIDs, em_fired = False\<rparr> (st_expiryMarkets s)\<rparr>"

definition snapshotTokenAvailable :: "string list \<Rightarrow> State \<Rightarrow> (string, float64) gomap" where
  "snapshotTokenAvailable tokenIDs s =
     fold (\<lambda>tk out. gput tk (tp_Available (tokenPos s tk)) out) tokenIDs []"

definition expiryDue :: "int \<Rightarrow> expiringMarket \<Rightarrow> bool" where
  "expiryDue cutoff m = (\<not> (em_fired m \<or> cutoff < em_endTime m))"

text \<open>\<^verbatim>\<open>Duration.Milliseconds\<close> truncates toward zero; \<open>warnBefore\<close> is positive.\<close>

definition checkExpiry :: "time \<Rightarrow> duration \<Rightarrow> State \<Rightarrow> State \<times> PositionExpiringEvent list" where
  "checkExpiry clock warnBefore s =
    (let cutoff = timeUnixMilli clock + warnBefore div 1000000;
         due = filter (\<lambda>(mid, m). expiryDue cutoff m) (st_expiryMarkets s);
         toFire = map (\<lambda>(mid, m). \<lparr>pe_MarketID = mid, pe_EndTime = em_endTime m,
                     pe_TokenIDs = em_tokenIDs m,
                     pe_Available = snapshotTokenAvailable (em_tokenIDs m) s\<rparr>) due
     in (s\<lparr>st_expiryMarkets := map (\<lambda>(mid, m). (mid, if expiryDue cutoff m then m\<lparr>em_fired := True\<rparr> else m))
            (st_expiryMarkets s)\<rparr>, toFire))"

end
