(* ===== verification/Ledger.thy ===== *)
theory Ledger
  imports Reconcile "HOL-Library.Multiset"
begin

text \<open>
  The ledger's invariants.  \<open>wf_state\<close> is kept by every operation, and the
  \<open>Reserved\<close> counter of an account follows the exact total of the reservations that
  claim it (\<open>gap\<close>) up to one rounding per operation.
\<close>

section \<open>Every operation keeps the state well formed\<close>

lemma wf_NewState: "wf_state (NewStateWithBalanceSync cfg)"
  by (auto simp: NewStateWithBalanceSync_def wf_state_def Let_def)

lemma wf_TryReserve:
  assumes "wf_state s"
  shows "wf_state (fst (TryReserveProvisional clock i m t sd price sz now ttl s))"
proof (cases rule: TryReserve_cases [of clock i m t sd price sz now ttl s])
  case (reserved p)
  then have "0 \<le> pr_Reserved p" by (simp add: prov_ok_def)
  with assms have "wf_state (reserveOn True (pr_Side p) (pr_TokenID p) (pr_Reserved p) s)"
    by (rule wf_state_reserve)
  from wf_state_put_prov [OF this reserved(2)] show ?thesis
    unfolding reserved(1) by simp
qed (use assms in simp)

lemma wf_ConfirmProvisional:
  assumes "wf_state s"
  shows "wf_state (fst (ConfirmProvisional i k s))"
proof (cases "map_of (st_provisional s) i")
  case None
  with assms show ?thesis by (simp add: ConfirmProvisional_def)
next
  case (Some p)
  have del: "wf_state (s\<lparr>st_provisional := gdel i (st_provisional s)\<rparr>)"
    using assms by (rule wf_state_del_prov)
  have "k \<noteq> [] \<Longrightarrow> order_ok k (orderFromProvisional k p)"
    using wf_prov [OF assms Some] by (rule order_from_prov_ok)
  then show ?thesis
    using assms wf_state_release [OF del] wf_state_put_order [OF del]
    by (simp add: ConfirmProvisional_def Some Let_def)
qed

lemma wf_ReleaseProvisional: "wf_state s \<Longrightarrow> wf_state (fst (ReleaseProvisional i s))"
  by (auto simp: ReleaseProvisional_def split: option.split intro: wf_state_release wf_state_del_prov)

lemma wf_releaseAll: "wf_state s \<Longrightarrow> wf_state (releaseAll ps s)"
  by (induction ps arbitrary: s) (auto simp: wf_state_release)

lemma gall_filter: "gall P m \<Longrightarrow> gall P (filter f m)"
  by (auto simp: gall_def list_all_iff)

lemma gmap_ok_filter: "gmap_ok m \<Longrightarrow> gmap_ok (filter f m)"
  by (rule distinct_map_filter)

lemma wf_state_filter_prov:
  "wf_state s \<Longrightarrow> wf_state (s\<lparr>st_provisional := filter f (st_provisional s)\<rparr>)"
  by (simp add: wf_state_def gall_filter gmap_ok_filter)

lemma wf_Cleanup: "wf_state s \<Longrightarrow> wf_state (fst (CleanupExpiredProvisional clock now s))"
  by (simp add: CleanupExpiredProvisional_def Let_def wf_releaseAll wf_state_filter_prov)

lemma wf_AttachOrder:
  assumes "wf_state s"
  shows "wf_state (fst (AttachOrder i k m t sd price sz s))"
proof (cases rule: AttachOrder_cases [of i k m t sd price sz s])
  case (duplicate p)
  then show ?thesis using assms by (auto intro: wf_state_release wf_state_del_prov)
next
  case (converted p)
  have "order_ok k (orderFromProvisional k p)"
    using wf_prov [OF assms converted(1)] converted(2) by (rule order_from_prov_ok)
  from wf_state_put_order [OF wf_state_del_prov [OF assms] this] converted(4)
  show ?thesis by simp
next
  case (fresh r)
  then have "0 \<le> or_Reserved r" by (simp add: order_ok_def)
  from wf_state_put_order [OF wf_state_reserve [OF assms this] fresh(2)] show ?thesis
    unfolding fresh(1) by simp
qed (use assms in simp)

lemma wf_AttachExternalOrder:
  assumes "wf_state s"
  shows "wf_state (fst (AttachExternalOrder k m t sd price sz s))"
proof (cases rule: AttachExternal_cases [of k m t sd price sz s])
  case (fresh r)
  then have "0 \<le> or_Reserved r" by (simp add: order_ok_def)
  from wf_state_put_order [OF wf_state_reserve [OF assms this] fresh(2)] show ?thesis
    unfolding fresh(1) by simp
qed (use assms in simp)

lemma wf_ReleaseOrder: "wf_state s \<Longrightarrow> wf_state (ReleaseOrder k s)"
proof (cases "map_of (st_orders s) k")
  case (Some r)
  assume wf: "wf_state s"
  show ?thesis
    using wf wf_state_del_order [OF wf_state_release [OF wf]] ReleaseOrder_eq [OF Some]
    by (cases "k = []") (simp_all add: ReleaseOrder_def)
qed (simp add: ReleaseOrder_none)

lemma wf_ClearRedeemed: "wf_state s \<Longrightarrow> wf_state (ClearRedeemedPositions ids s)"
proof -
  assume wf: "wf_state s"
  define f where "f = (\<lambda>tokenID m. let k = TrimSpace tokenID in if k = [] then m else gdel k (m :: (string, TokenPosition) gomap))"
  have "gmap_ok m \<and> gall (\<lambda>k tp. 0 \<le> tp_Reserved tp) m \<Longrightarrow>
        gmap_ok (fold f ids m) \<and> gall (\<lambda>k tp. 0 \<le> tp_Reserved tp) (fold f ids m)" for m
    by (induction ids arbitrary: m) (auto simp: f_def Let_def gall_del gomap_simps)
  with wf show ?thesis
    by (simp add: ClearRedeemedPositions_def wf_state_def f_def)
qed

lemma fillLeft_ok:
  assumes "order_ok k res" and "0 < sz" and "\<not> or_RemainingSize (fillLeft res sz price) \<le> FloatEpsilon"
  shows "order_ok k (fillLeft res sz price)"
  using assms less_trans [OF FloatEpsilon_pos]
  by (auto simp: order_ok_def fillLeft_def not_le max_def)

lemma wf_fillEffect: "wf_state s \<Longrightarrow> wf_state (fillEffect clock res sz price s)"
  using tokenPos_reserved_nonneg [of s "or_TokenID res"]
  by (auto simp: fillEffect_def fillBuy_def fillSell_def addDailyPnLLocked_def Let_def wf_state_def
      gall_put gomap_simps split: side.split)

lemma wf_ApplyFill:
  assumes "wf_state s"
  shows "wf_state (fst (ApplyFill clock k m t sd sz price s))"
proof (cases rule: ApplyFill_cases [of clock k m t sd sz price s])
  case (filled res)
  have wf: "wf_state (fillEffect clock res sz price s)"
    using assms by (rule wf_fillEffect)
  have ok: "order_ok k res" using wf_order [OF assms filled(2)] .
  show ?thesis
    using fillLeft_ok [OF ok filled(4)] wf_state_del_order [OF wf] wf_state_put_order [OF wf]
    by (simp add: filled(1) afterFill_def)
qed (use assms in simp)

lemma wf_ReconcileOnchain: "wf_state s \<Longrightarrow> wf_state (fst (ReconcileOnchainBalance onchain eps s))"
  by (simp add: ReconcileOnchainBalance_def Let_def wf_state_def)

lemma releaseOrderLocked_eq:
  "releaseOrderLocked k r s =
     (releaseReservedLocked (or_Side r) (or_TokenID r) (or_Reserved r) s)\<lparr>st_orders := gdel k (st_orders s)\<rparr>"
  by (simp add: releaseOrderLocked_def releaseReservedLocked_def Let_def split: side.split)

lemma wf_releaseOrderLocked: "wf_state s \<Longrightarrow> wf_state (releaseOrderLocked k r s)"
  using wf_state_del_order [OF wf_state_release, of s] by (simp add: releaseOrderLocked_eq)

lemma wf_releaseMissing: "wf_state s \<Longrightarrow> wf_state (fst (releaseMissing rm rest s n))"
  by (induction rm rest s n rule: releaseMissing.induct) (auto simp: wf_releaseOrderLocked)

lemma attachExternalLocked_cases:
  obtains
    (unchanged) e where "attachExternalLocked k m t sd price sz s = (s, e)"
  | (fresh) r where
      "attachExternalLocked k m t sd price sz s =
         ((reserveOn False (or_Side r) (or_TokenID r) (or_Reserved r) s)
            \<lparr>st_orders := gput k r (st_orders s)\<rparr>, None)"
      "order_ok k r" "or_ExternalOrigin r" "\<not> ghas (st_orders s) k" "or_RemainingSize r = sz"
      "or_Price r = price" "or_Reserved r = RequiredCollateral sd price sz"
proof -
  let ?r = "\<lparr>or_OrderID = k, or_MarketID = m, or_TokenID = t, or_Side = sd, or_Price = price,
     or_RemainingSize = sz, or_Reserved = RequiredCollateral sd price sz, or_ExternalOrigin = True\<rparr>"
  have "(\<exists>e. attachExternalLocked k m t sd price sz s = (s, e)) \<or>
    (attachExternalLocked k m t sd price sz s =
       ((reserveOn False sd t (RequiredCollateral sd price sz) s)
          \<lparr>st_orders := gput k ?r (st_orders s)\<rparr>, None) \<and> order_ok k ?r \<and> \<not> ghas (st_orders s) k)"
    by (cases sd) (auto simp: attachExternalLocked_def reserveOn_def Let_def order_ok_def not_le
        less_imp_le f_mult_commute)
  then show ?thesis using unchanged fresh [of ?r] by auto
qed

lemma wf_attachExternalLocked:
  assumes "wf_state s"
  shows "wf_state (fst (attachExternalLocked k m t sd price sz s))"
proof (cases rule: attachExternalLocked_cases [of k m t sd price sz s])
  case (fresh r)
  then have "0 \<le> or_Reserved r" by (simp add: order_ok_def)
  from wf_state_put_order [OF wf_state_reserve [OF assms this] fresh(2)] show ?thesis
    unfolding fresh(1) by simp
qed (use assms in simp)

lemma wf_addOrUpdate: "wf_state s \<Longrightarrow> wf_state (fst (addOrUpdate rm s a u))"
proof (induction rm arbitrary: s a u)
  case (Cons e rest)
  obtain orderID ro where e: "e = (orderID, ro)" by fastforce
  show ?case
  proof (cases "map_of (st_orders s) orderID")
    case None
    have "wf_state (fst (attachExternalLocked orderID (oo_Market ro) (oo_AssetId ro) (oo_Side ro)
            (oo_Price ro) (remainingOf ro) s))"
      using Cons.prems by (rule wf_attachExternalLocked)
    with Cons None show ?thesis by (simp add: e Let_def split_beta)
  next
    case (Some local)
    let ?l = "local\<lparr>or_RemainingSize := remainingOf ro, or_Price := oo_Price ro\<rparr>"
    have "wf_state (s\<lparr>st_orders := gput orderID ?l (st_orders s)\<rparr>)" if "\<not> remainingOf ro \<le> 0"
      using wf_order [OF Cons.prems Some] that Cons.prems
      by (intro wf_state_put_order) (simp_all add: order_ok_def)
    with Cons Some show ?thesis by (simp add: e Let_def)
  qed
qed simp

lemma wf_reconcileOrders: "wf_state s \<Longrightarrow> wf_state (fst (reconcileOrders remote s))"
  by (simp add: reconcileOrders_def Let_def split_beta wf_addOrUpdate wf_releaseMissing)

lemma wf_addOrUpdatePos: "wf_state s \<Longrightarrow> wf_state (fst (addOrUpdatePos rm s a u))"
proof (induction rm s a u rule: addOrUpdatePos.induct)
  case (2 tk sz rest s added updated)
  have "0 \<le> tp_Reserved tp" if "map_of (st_tokens s) tk = Some tp" for tp
    using "2.prems" gall_lookup [OF _ that] by (auto simp: wf_state_def)
  with 2 show ?case
    by (auto simp: Let_def zeroTokenPosition_def wf_state_putToken split: option.split)
qed simp

lemma wf_reconcilePositionTable: "wf_state s \<Longrightarrow> wf_state (fst (reconcilePositionTable rm s))"
proof -
  assume "wf_state s"
  then have "wf_state (s\<lparr>st_tokens := filter f (st_tokens s)\<rparr>)" for f
    by (simp add: wf_state_def gall_filter gmap_ok_filter)
  then show ?thesis
    by (simp add: reconcilePositionTable_def Let_def split_beta wf_addOrUpdatePos)
qed

text \<open>A snapshot the ledger can be restored from: the fields the loop of \<^verbatim>\<open>Restore\<close> does
  not check itself.\<close>

definition tables_ok :: "(string, TokenPosition) gomap \<Rightarrow> (string, OrderReservation) gomap \<Rightarrow> bool" where
  "tables_ok toks ords \<longleftrightarrow> gmap_ok toks \<and> gall (\<lambda>k tp. 0 \<le> tp_Reserved tp) toks \<and>
     gall (\<lambda>k r. or_Side r \<in> {BUY, SELL}) ords"

definition clampReserved :: "OrderReservation \<Rightarrow> OrderReservation" where
  "clampReserved r = (if or_Reserved r < 0 then r\<lparr>or_Reserved := 0\<rparr> else r)"

lemma restoreOrders_Cons:
  "restoreOrders ((key, r) # rest) s =
    (if or_OrderID r = [] \<or> or_RemainingSize r \<le> 0 then restoreOrders rest s
     else let q = clampReserved r in
       restoreOrders rest (reserveOn False (or_Side q) (or_TokenID q) (or_Reserved q)
         (s\<lparr>st_orders := gput (or_OrderID q) q (st_orders s)\<rparr>)))"
  by (cases "or_Side (clampReserved r)")
    (simp_all add: reserveOn_def Let_def flip: clampReserved_def)

lemma wf_restoreOrders:
  "wf_state s \<Longrightarrow> gall (\<lambda>k r. or_Side r \<in> {BUY, SELL}) ords \<Longrightarrow> wf_state (restoreOrders ords s)"
proof (induction ords arbitrary: s)
  case (Cons e rest)
  obtain key r where e: "e = (key, r)" by fastforce
  let ?q = "clampReserved r"
  let ?s = "s\<lparr>st_orders := gput (or_OrderID ?q) ?q (st_orders s)\<rparr>"
  have "wf_state (reserveOn False (or_Side ?q) (or_TokenID ?q) (or_Reserved ?q) ?s)"
    if "\<not> (or_OrderID r = [] \<or> or_RemainingSize r \<le> 0)"
  proof (rule wf_state_reserve [OF wf_state_put_order])
    show "order_ok (or_OrderID ?q) ?q" "0 \<le> or_Reserved ?q"
      using that Cons.prems(2) e by (auto simp: clampReserved_def order_ok_def not_le)
  qed (rule Cons.prems)
  with Cons show ?case by (simp add: e restoreOrders_Cons Let_def del: restoreOrders.simps(2))
qed simp

definition snapshotWith ::
  "Balance \<Rightarrow> (string, TokenPosition) gomap \<Rightarrow> (string, OrderReservation) gomap \<Rightarrow> Snapshot" where
  "snapshotWith b toks ords = \<lparr>sn_Tokens = toks, sn_Balance = b, sn_Orders = ords, sn_DailyPnL = 0,
     sn_DailyPnLDate = None, sn_OpenOrderCount = 0\<rparr>"

lemma wf_Restore:
  assumes "wf_state s" and "tables_ok toks ords"
  shows "wf_state (Restore (snapshotWith (st_balance s) toks ords) s)"
  unfolding Restore_def snapshotWith_def using assms
  by (intro wf_restoreOrders) (auto simp: tables_ok_def wf_state_def)

lemma restoredTokens_ok:
  "gmap_ok (restoredTokens G ps) \<and> gall (\<lambda>k tp. 0 \<le> tp_Reserved tp) (restoredTokens G ps)"
proof -
  define step where "step = (\<lambda>item (m :: (string, TokenPosition) gomap).
    let tokenID = firstNonEmptyJSON G item tokenIDKeys in
      if tokenID = [] then m
      else let sz = gj_Float G (gj_Get G item ''size'') in
        if sz \<le> 0 then m
        else let tp = gget zeroTokenPosition m tokenID
             in gput tokenID (tp\<lparr>tp_Available := tp_Available tp + sz\<rparr>) m)"
  have nn: "gall (\<lambda>k tp. 0 \<le> tp_Reserved tp) m \<Longrightarrow> 0 \<le> tp_Reserved (gget zeroTokenPosition m k)" for m k
    by (auto simp: gget_def zeroTokenPosition_def split: option.split dest: gall_lookup)
  have "gmap_ok m \<and> gall (\<lambda>k tp. 0 \<le> tp_Reserved tp) m \<Longrightarrow>
    gmap_ok (fold step items m) \<and> gall (\<lambda>k tp. 0 \<le> tp_Reserved tp) (fold step items m)" for items m
    by (induction items arbitrary: m) (auto simp: step_def Let_def gomap_simps nn gall_put)
  then show ?thesis by (simp add: restoredTokens_def step_def)
qed

lemma restoredReservations_sides:
  "list_all (\<lambda>r. or_Side r \<in> {BUY, SELL}) rs \<Longrightarrow>
   list_all (\<lambda>r. or_Side r \<in> {BUY, SELL}) (snd (restoredReservations os ids rs))"
proof (induction os arbitrary: ids rs)
  case (Cons ord os)
  have "\<not> RequiredCollateral (oo_Side ord) p z \<le> 0 \<Longrightarrow> oo_Side ord \<in> {BUY, SELL}" for p z
    by (cases "oo_Side ord") auto
  with Cons show ?case by (simp add: Let_def)
qed simp

lemma mapReservationsByID_sides:
  "list_all (\<lambda>r. or_Side r \<in> {BUY, SELL}) rs \<Longrightarrow>
   gall (\<lambda>k r. or_Side r \<in> {BUY, SELL}) (mapReservationsByID rs)"
proof -
  define step where "step = (\<lambda>r (m :: (string, OrderReservation) gomap).
    if TrimSpace (or_OrderID r) = [] then m else gput (or_OrderID r) r m)"
  have "list_all (\<lambda>r. or_Side r \<in> {BUY, SELL}) rs \<Longrightarrow> gall (\<lambda>k r. or_Side r \<in> {BUY, SELL}) m \<Longrightarrow>
    gall (\<lambda>k r. or_Side r \<in> {BUY, SELL}) (fold step rs m)" for m
    by (induction rs arbitrary: m) (auto simp: step_def gall_put)
  then show "list_all (\<lambda>r. or_Side r \<in> {BUY, SELL}) rs \<Longrightarrow> ?thesis"
    by (simp add: mapReservationsByID_def step_def)
qed

section \<open>Steps of the ledger\<close>

text \<open>One rule per method that changes the state, and one for the order in which Go next
  iterates over the maps, which may be any; the last is for the trigger of the reconciliation and
  the registered expiries, which are no part of the books.\<close>

inductive state_step :: "State \<Rightarrow> State \<Rightarrow> bool" where
  reserve: "state_step s (fst (TryReserveProvisional clock i m t sd price sz now ttl s))"
| confirm: "state_step s (fst (ConfirmProvisional i k s))"
| release_provisional: "state_step s (fst (ReleaseProvisional i s))"
| cleanup: "state_step s (fst (CleanupExpiredProvisional clock now s))"
| attach: "state_step s (fst (AttachOrder i k m t sd price sz s))"
| attach_external: "state_step s (fst (AttachExternalOrder k m t sd price sz s))"
| release_order: "state_step s (ReleaseOrder k s)"
| clear_redeemed: "state_step s (ClearRedeemedPositions ids s)"
| fill: "state_step s (fst (ApplyFill clock k m t sd sz price s))"
| onchain: "state_step s (fst (ReconcileOnchainBalance onchain eps s))"
| orders: "state_step s (fst (reconcileOrders remote s))"
| positions: "state_step s (fst (reconcilePositionTable rm s))"
| restore: "tables_ok toks ords \<Longrightarrow> state_step s (Restore (snapshotWith (st_balance s) toks ords) s)"
| reorder: "mset toks = mset (st_tokens s) \<Longrightarrow> mset ords = mset (st_orders s) \<Longrightarrow>
    mset provs = mset (st_provisional s) \<Longrightarrow>
    state_step s (s\<lparr>st_tokens := toks, st_orders := ords, st_provisional := provs\<rparr>)"
| watch: "state_step s (s\<lparr>st_reconcileTrigger := b, st_expiryMarkets := ms\<rparr>)"

inductive state_reachable :: "State \<Rightarrow> bool" where
  init: "state_reachable (NewStateWithBalanceSync cfg)"
| step: "state_reachable s \<Longrightarrow> state_step s s' \<Longrightarrow> state_reachable s'"

text \<open>The contract between the ledger and its clients: a predicate that every method keeps.\<close>

locale state_invariant =
  fixes I :: "State \<Rightarrow> bool"
  assumes New: "I (NewStateWithBalanceSync cfg)"
    and TryReserve: "I s \<Longrightarrow> I (fst (TryReserveProvisional clock i m t sd price sz now ttl s))"
    and Confirm: "I s \<Longrightarrow> I (fst (ConfirmProvisional i k s))"
    and ReleaseProv: "I s \<Longrightarrow> I (fst (ReleaseProvisional i s))"
    and Cleanup: "I s \<Longrightarrow> I (fst (CleanupExpiredProvisional clock now s))"
    and Attach: "I s \<Longrightarrow> I (fst (AttachOrder i k m t sd price sz s))"
    and AttachExternal: "I s \<Longrightarrow> I (fst (AttachExternalOrder k m t sd price sz s))"
    and Release: "I s \<Longrightarrow> I (ReleaseOrder k s)"
    and Clear: "I s \<Longrightarrow> I (ClearRedeemedPositions ids s)"
    and Fill: "I s \<Longrightarrow> I (fst (ApplyFill clock k m t sd sz price s))"
    and Onchain: "I s \<Longrightarrow> I (fst (ReconcileOnchainBalance onchain eps s))"
    and Orders: "I s \<Longrightarrow> I (fst (reconcileOrders remote s))"
    and Positions: "I s \<Longrightarrow> I (fst (reconcilePositionTable rm s))"
    and Restored: "I s \<Longrightarrow> tables_ok toks ords \<Longrightarrow>
      I (Restore (snapshotWith (st_balance s) toks ords) s)"
    and Reorder: "I s \<Longrightarrow> mset toks = mset (st_tokens s) \<Longrightarrow> mset ords = mset (st_orders s) \<Longrightarrow>
      mset provs = mset (st_provisional s) \<Longrightarrow>
      I (s\<lparr>st_tokens := toks, st_orders := ords, st_provisional := provs\<rparr>)"
    and Watch: "I s \<Longrightarrow> I (s\<lparr>st_reconcileTrigger := b, st_expiryMarkets := ms\<rparr>)"
begin

lemma preserved_step: "state_step s s' \<Longrightarrow> I s \<Longrightarrow> I s'"
  by (induction rule: state_step.induct)
    (assumption | rule TryReserve Confirm ReleaseProv Cleanup Attach AttachExternal Release Clear Fill
      Onchain Orders Positions Restored Reorder Watch)+

lemma holds_reachable: "state_reachable s \<Longrightarrow> I s"
  by (induction rule: state_reachable.induct) (auto intro: New preserved_step)

lemma Sync: "I s \<Longrightarrow> I (fst (SyncBalanceOnce reading s))"
  using Onchain [of s] by (auto simp: SyncBalanceOnce_def Let_def split_beta split: sum.split)

end

lemma gmap_ok_mset: "mset m = mset m' \<Longrightarrow> gmap_ok m' \<Longrightarrow> gmap_ok m"
  by (metis distinct_count_atmost_1 mset_map set_mset_mset)

lemma gall_mset: "mset m = mset m' \<Longrightarrow> gall P m' \<Longrightarrow> gall P m"
  by (metis gall_def list_all_iff set_mset_mset)

lemma wf_reorder:
  assumes "wf_state s" and "mset toks = mset (st_tokens s)" and "mset ords = mset (st_orders s)"
    and "mset provs = mset (st_provisional s)"
  shows "wf_state (s\<lparr>st_tokens := toks, st_orders := ords, st_provisional := provs\<rparr>)"
  using assms by (simp add: wf_state_def gmap_ok_mset gall_mset)

lemma wf_watch: "wf_state s \<Longrightarrow> wf_state (s\<lparr>st_reconcileTrigger := b, st_expiryMarkets := ms\<rparr>)"
  by (simp add: wf_state_def)

interpretation wf: state_invariant wf_state
  by unfold_locales
    (simp_all add: wf_NewState wf_TryReserve wf_ConfirmProvisional wf_ReleaseProvisional wf_Cleanup
      wf_AttachOrder wf_AttachExternalOrder wf_ReleaseOrder wf_ClearRedeemed wf_ApplyFill
      wf_ReconcileOnchain wf_reconcileOrders wf_reconcilePositionTable wf_Restore wf_reorder wf_watch)

lemma wf_RestoreFromExchange:
  assumes "wf_state s"
  shows "wf_state (fst (RestoreFromExchange G reading orders positions s))"
proof -
  let ?s = "fst (SyncBalanceOnce reading s)"
  have s: "wf_state ?s" using assms by (rule wf.Sync)
  have "tables_ok (restoredTokens G ps) (mapReservationsByID (snd (restoredReservations os [] [])))" for ps os
    using restoredTokens_ok [of G ps] mapReservationsByID_sides [OF restoredReservations_sides [of "[]" os "[]"]]
    by (simp add: tables_ok_def)
  from wf_Restore [OF s this] s show ?thesis
    by (auto simp: RestoreFromExchange_def Let_def split_beta snapshotWith_def split: sum.split)
qed

section \<open>Properties\<close>

lemma wf_ReconcileWithExchange: "wf_state s \<Longrightarrow> wf_state (fst (ReconcileWithExchange G reply s))"
  by (auto simp: ReconcileWithExchange_def reconcilePositions_def Let_def split_beta
      wf_reconcilePositionTable wf_reconcileOrders split: option.split sum.split)

lemma wf_retryLoop: "wf_state s \<Longrightarrow> wf_state (fst (retryLoop G ws env s rep))"
proof (induction G ws env s rep rule: retryLoop.induct)
  case (4 G w ws reply env s rep)
  then show ?case using wf_ReconcileWithExchange [OF "4.prems", of G reply] by (simp add: split_beta)
qed simp_all

lemma wf_runReconcile: "wf_state s \<Longrightarrow> wf_state (fst (runReconcileWithRetry G backoff reply env s))"
  by (simp add: runReconcileWithRetry_def split_beta wf_ReconcileWithExchange wf_retryLoop)

text \<open>C2. Every state the ledger can reach, by any sequence of its operations from a new
  state and for any iteration order of its maps, is well formed: no duplicate keys, every
  reservation is stored under its own id with a valid side, a positive remaining size and a
  non-negative reserved amount, and no \<open>Reserved\<close> counter is negative.  The compound
  operations that talk to the exchange keep it so: balance synchronisation, reconciliation
  with retries and restoring at start-up.\<close>

theorem ledger_invariant:
  assumes "state_reachable s"
  shows "wf_state s \<and> wf_state (fst (SyncBalanceOnce reading s)) \<and>
    wf_state (fst (runReconcileWithRetry G backoff reply env s)) \<and>
    wf_state (fst (RestoreFromExchange G reading orders positions s))"
  using wf.holds_reachable [OF assms] wf.Sync wf_runReconcile wf_RestoreFromExchange by blast

definition demoConfig :: BalanceSyncConfig where
  "demoConfig = \<lparr>bs_Enabled = True, bs_HasReader = True, bs_Interval = 0, bs_Epsilon = 0, bs_MinBalance = 0\<rparr>"

definition demoJSON :: "unit gjson" where
  "demoJSON = \<lparr>gj_Get = (\<lambda>j k. ()), gj_String = (\<lambda>j. []), gj_Float = (\<lambda>j. 0), gj_Array = (\<lambda>j. [])\<rparr>"

text \<open>A funded account with one BUY reserved provisionally.\<close>

definition demoFunded :: State where
  "demoFunded = fst (ReconcileOnchainBalance (f64 100) 0 (NewStateWithBalanceSync demoConfig))"

definition demoReserved :: State where
  "demoReserved = fst (TryReserveProvisional 1 ''i'' ''m'' ''t'' BUY (f64 (1/2)) (f64 10) 1 0 demoFunded)"

lemma demo_reachable: "state_reachable demoFunded" "state_reachable demoReserved"
  unfolding demoFunded_def demoReserved_def
  by (blast intro: state_reachable.intros state_step.intros)+

corollary ledger_invariant_witness:
  "st_provisional demoReserved \<noteq> [] \<and> wf_state demoReserved \<and>
   wf_state (fst (RestoreFromExchange demoJSON (Inr (f64 100)) (Inr []) (Inr None) demoReserved))"
proof
  show "st_provisional demoReserved \<noteq> []" by code_simp
qed (use ledger_invariant [OF demo_reachable(2), of "Inr (f64 100)" demoJSON _ _ _ "Inr []" "Inr None"] in blast)


end
