(* ===== verification/Books.thy ===== *)
theory Books
  imports Ledger
begin

text \<open>
  The books of the ledger: how far the \<open>Reserved\<close> counter of an account can drift from
  the exact total of the reservations that claim it.  Reserving, confirming and releasing
  keep the books up to one rounding; a fill below the reserved price does not.
\<close>

section \<open>The claimed total\<close>

lemma weight_nonneg: "0 \<le> r \<Longrightarrow> 0 \<le> weight a sd tok r"
  by (simp add: weight_def)

lemma weight_le: "0 \<le> r \<Longrightarrow> weight a sd tok r \<le> rval r"
  by (simp add: weight_def)

lemma gsum_nonneg: "gall (\<lambda>k v. 0 \<le> f v) m \<Longrightarrow> 0 \<le> gsum f (m :: ('k, 'v) gomap)"
  for f :: "'v \<Rightarrow> rat"
  by (induction m) (auto simp: add_nonneg_nonneg)

lemma committed_frame:
  "st_orders s' = st_orders s \<Longrightarrow> st_provisional s' = st_provisional s \<Longrightarrow> committed a s' = committed a s"
  by (simp add: committed_def)

lemma committed_put_prov:
  "\<not> ghas (st_provisional s) i \<Longrightarrow>
   committed a (s\<lparr>st_provisional := gput i p (st_provisional s)\<rparr>) =
     committed a s + weight a (pr_Side p) (pr_TokenID p) (pr_Reserved p)"
  by (simp add: committed_def ghas_def gsum_put_new)

lemma committed_del_prov:
  "wf_state s \<Longrightarrow> map_of (st_provisional s) i = Some p \<Longrightarrow>
   committed a (s\<lparr>st_provisional := gdel i (st_provisional s)\<rparr>) =
     committed a s - weight a (pr_Side p) (pr_TokenID p) (pr_Reserved p)"
  by (simp add: committed_def wf_state_def gsum_del)

lemma committed_put_order:
  "\<not> ghas (st_orders s) k \<Longrightarrow>
   committed a (s\<lparr>st_orders := gput k r (st_orders s)\<rparr>) =
     committed a s + weight a (or_Side r) (or_TokenID r) (or_Reserved r)"
  by (simp add: committed_def ghas_def gsum_put_new)

lemma committed_del_order:
  "wf_state s \<Longrightarrow> map_of (st_orders s) k = Some r \<Longrightarrow>
   committed a (s\<lparr>st_orders := gdel k (st_orders s)\<rparr>) =
     committed a s - weight a (or_Side r) (or_TokenID r) (or_Reserved r)"
  by (simp add: committed_def wf_state_def gsum_del)

lemma committed_nonneg: "wf_state s \<Longrightarrow> 0 \<le> committed a s"
  unfolding committed_def
  by (intro add_nonneg_nonneg gsum_nonneg)
    (auto simp: wf_state_def order_ok_def prov_ok_def weight_nonneg elim: gall_mono)

lemma prov_le_committed:
  assumes "wf_state s" and "map_of (st_provisional s) i = Some p" and "onAccount a (pr_Side p) (pr_TokenID p)"
  shows "rval (pr_Reserved p) \<le> committed a s"
  using committed_nonneg [OF wf_state_del_prov [OF assms(1)], of a i] committed_del_prov [OF assms(1,2), of a]
    assms(3) by (simp add: weight_def)

lemma order_le_committed:
  assumes "wf_state s" and "map_of (st_orders s) k = Some r" and "onAccount a (or_Side r) (or_TokenID r)"
  shows "rval (or_Reserved r) \<le> committed a s"
  using committed_nonneg [OF wf_state_del_order [OF assms(1)], of a k] committed_del_order [OF assms(1,2), of a]
    assms(3) by (simp add: weight_def)

section \<open>One movement\<close>

lemma gap_reserve:
  assumes "wf_state s" and "0 \<le> r"
  shows "\<bar>(rval (acctReserved a (reserveOn cl sd tok r s)) - (committed a s + weight a sd tok r)) - gap a s\<bar>
    \<le> slack (rval (acctReserved a s) + rval r)"
  using f_add_err [of "acctReserved a s" r]
  by (auto simp: gap_def acctReserved_reserve weight_def algebra_simps)

lemma gap_release:
  assumes "0 \<le> r" and "onAccount a sd tok \<Longrightarrow> rval r \<le> committed a s"
  shows "\<bar>rval (acctReserved a (releaseReservedLocked sd tok r s)) - (committed a s - weight a sd tok r)\<bar>
    \<le> \<bar>gap a s\<bar> + slack (rval (acctReserved a s) - rval r)"
  using clamped_diff_gap [of r "committed a s" "acctReserved a s"] assms
  by (auto simp: gap_def acctReserved_release weight_def)

section \<open>The operations\<close>

text \<open>Bound on the drift of one release: the counter and the total it stands for.\<close>

definition releaseSlack :: "account \<Rightarrow> State \<Rightarrow> rat" where
  "releaseSlack a s = slack (rval (acctReserved a s) + committed a s)"

lemma release_slack_le:
  assumes "wf_state s" and "0 \<le> r" and "rval r \<le> committed a s"
  shows "slack (rval (acctReserved a s) - rval r) \<le> releaseSlack a s"
proof -
  have "0 \<le> rval (acctReserved a s)" "0 \<le> rval r"
    using acctReserved_nonneg [OF assms(1), of a] assms(2) by (simp_all add: rval_nonneg)
  then have "\<bar>rval (acctReserved a s) - rval r\<bar> \<le> \<bar>rval (acctReserved a s) + committed a s\<bar>"
    using assms(3) by linarith
  then show ?thesis unfolding releaseSlack_def by (rule slack_mono)
qed

lemma gap_TryReserve:
  assumes "wf_state s" and "0 \<le> price" and "0 \<le> sz"
  shows "\<bar>gap a (fst (TryReserveProvisional clock i m t sd price sz now ttl s)) - gap a s\<bar>
    \<le> slack (rval (acctReserved a s) + rval (RequiredCollateral sd price sz))"
proof (cases rule: TryReserve_cases [of clock i m t sd price sz now ttl s])
  case (reserved p)
  let ?s = "reserveOn True (pr_Side p) (pr_TokenID p) (pr_Reserved p) s"
  have "gap a (?s\<lparr>st_provisional := gput i p (st_provisional s)\<rparr>) =
      rval (acctReserved a ?s) - (committed a s + weight a (pr_Side p) (pr_TokenID p) (pr_Reserved p))"
    using committed_put_prov [of ?s i a p] reserved(9)
    by (cases a) (simp_all add: gap_def committed_frame [of ?s s])
  moreover have "0 \<le> pr_Reserved p" using reserved(2) by (simp add: prov_ok_def)
  ultimately show ?thesis
    using gap_reserve [OF assms(1), of "pr_Reserved p" a True "pr_Side p" "pr_TokenID p"] reserved
    by simp
qed simp

text \<open>Dropping a provisional reservation and releasing its amount; the same movement ends
  \<^verbatim>\<open>ReleaseProvisional\<close> and the duplicate branches of \<^verbatim>\<open>ConfirmProvisional\<close> and
  \<^verbatim>\<open>AttachOrder\<close>.\<close>

abbreviation dropProv :: "string \<Rightarrow> ProvisionalReservation \<Rightarrow> State \<Rightarrow> State" where
  "dropProv i p s \<equiv> releaseReservedLocked (pr_Side p) (pr_TokenID p) (pr_Reserved p)
     (s\<lparr>st_provisional := gdel i (st_provisional s)\<rparr>)"

lemma gap_dropProv:
  assumes "wf_state s" and p: "map_of (st_provisional s) i = Some p"
  shows "\<bar>gap a (dropProv i p s)\<bar> \<le> \<bar>gap a s\<bar> + releaseSlack a s"
proof -
  have r: "0 \<le> pr_Reserved p" using wf_prov [OF assms] by (simp add: prov_ok_def)
  let ?s = "s\<lparr>st_provisional := gdel i (st_provisional s)\<rparr>"
  let ?rel = "\<lambda>s. rval (acctReserved a (releaseReservedLocked (pr_Side p) (pr_TokenID p) (pr_Reserved p) s))"
  have "?rel ?s = ?rel s"
    by (cases a) (simp_all add: acctReserved_release del: acctReserved.simps, simp_all)
  then have g: "gap a (dropProv i p s) = ?rel s - (committed a s - weight a (pr_Side p) (pr_TokenID p) (pr_Reserved p))"
    using committed_del_prov [OF assms, of a] by (simp add: gap_def committed_frame [of "dropProv i p s" ?s])
  show ?thesis
  proof (cases "onAccount a (pr_Side p) (pr_TokenID p)")
    case True
    have le: "rval (pr_Reserved p) \<le> committed a s" by (rule prov_le_committed [OF assms True])
    show ?thesis
      unfolding g using gap_release [OF r, of a "pr_Side p" "pr_TokenID p" s] release_slack_le [OF assms(1) r le] le
      by linarith
  next
    case False
    with g show ?thesis by (simp add: acctReserved_release weight_def gap_def releaseSlack_def)
  qed
qed

lemma gap_ReleaseProvisional:
  assumes "wf_state s"
  shows "\<bar>gap a (fst (ReleaseProvisional i s))\<bar> \<le> \<bar>gap a s\<bar> + releaseSlack a s"
  using gap_dropProv [OF assms, of i _ a]
  by (auto simp: ReleaseProvisional_def releaseSlack_def split: option.split)

lemma gap_convert:
  assumes "wf_state s" and "map_of (st_provisional s) i = Some p" and "\<not> ghas (st_orders s) k"
  shows "gap a (s\<lparr>st_provisional := gdel i (st_provisional s),
                  st_orders := gput k (orderFromProvisional k p) (st_orders s)\<rparr>) = gap a s"
proof -
  have "gmap_ok (st_provisional s)" "map_of (st_orders s) k = None"
    using assms unfolding wf_state_def ghas_def by blast+
  then show ?thesis
    using gsum_del [of "st_provisional s" i p "\<lambda>p. weight a (pr_Side p) (pr_TokenID p) (pr_Reserved p)"]
      gsum_put_new [of "st_orders s" k "\<lambda>r. weight a (or_Side r) (or_TokenID r) (or_Reserved r)"] assms(2)
    by (cases a) (simp_all add: gap_def committed_def)
qed

lemma gap_ConfirmProvisional:
  assumes "wf_state s"
  shows "\<bar>gap a (fst (ConfirmProvisional i k s))\<bar> \<le> \<bar>gap a s\<bar> + releaseSlack a s"
proof (cases "map_of (st_provisional s) i")
  case None
  then show ?thesis by (simp add: ConfirmProvisional_def releaseSlack_def)
next
  case (Some p)
  then show ?thesis
    using gap_dropProv [OF assms Some, of a] gap_convert [OF assms Some, of k a]
    by (auto simp: ConfirmProvisional_def Let_def releaseSlack_def)
qed

lemma gap_ReleaseOrder:
  assumes "wf_state s"
  shows "\<bar>gap a (ReleaseOrder k s)\<bar> \<le> \<bar>gap a s\<bar> + releaseSlack a s"
proof (cases "k \<noteq> [] \<and> map_of (st_orders s) k \<noteq> None")
  case False
  then have "ReleaseOrder k s = s" by (auto simp: ReleaseOrder_def)
  then show ?thesis by (simp add: releaseSlack_def)
next
  case True
  then obtain r where k: "k \<noteq> []" and m: "map_of (st_orders s) k = Some r" by auto
  have r: "0 \<le> or_Reserved r" using wf_order [OF assms m] by (simp add: order_ok_def)
  let ?rel = "releaseReservedLocked (or_Side r) (or_TokenID r) (or_Reserved r) s"
  have e: "ReleaseOrder k s = ?rel\<lparr>st_orders := gdel k (st_orders ?rel)\<rparr>"
    by (simp add: ReleaseOrder_eq [OF m k])
  have "committed a (ReleaseOrder k s) = committed a s - weight a (or_Side r) (or_TokenID r) (or_Reserved r)"
    using committed_del_order [OF wf_state_release [OF assms], of _ _ _ k r a] m
    unfolding e by (simp add: committed_frame [of ?rel s])
  moreover have "acctReserved a (ReleaseOrder k s) = acctReserved a ?rel"
    unfolding e by (cases a) simp_all
  ultimately have g: "gap a (ReleaseOrder k s) =
      rval (acctReserved a ?rel) - (committed a s - weight a (or_Side r) (or_TokenID r) (or_Reserved r))"
    by (simp add: gap_def)
  show ?thesis
  proof (cases "onAccount a (or_Side r) (or_TokenID r)")
    case True
    have le: "rval (or_Reserved r) \<le> committed a s" by (rule order_le_committed [OF assms m True])
    show ?thesis
      unfolding g using gap_release [OF r, of a "or_Side r" "or_TokenID r" s] release_slack_le [OF assms r le] le
      by linarith
  next
    case False
    with g show ?thesis by (simp add: acctReserved_release weight_def gap_def releaseSlack_def)
  qed
qed

lemma gap_attach:
  assumes "wf_state s" and "0 \<le> or_Reserved r" and "\<not> ghas (st_orders s) k"
  shows "\<bar>gap a ((reserveOn cl (or_Side r) (or_TokenID r) (or_Reserved r) s)\<lparr>st_orders := gput k r (st_orders s)\<rparr>)
      - gap a s\<bar> \<le> slack (rval (acctReserved a s) + rval (or_Reserved r))"
proof -
  let ?s = "reserveOn cl (or_Side r) (or_TokenID r) (or_Reserved r) s"
  have "gap a (?s\<lparr>st_orders := gput k r (st_orders s)\<rparr>) =
      rval (acctReserved a ?s) - (committed a s + weight a (or_Side r) (or_TokenID r) (or_Reserved r))"
    using committed_put_order [of ?s k a r] assms(3)
    by (cases a) (simp_all add: gap_def committed_frame [of ?s s])
  then show ?thesis
    using gap_reserve [OF assms(1,2), of a cl "or_Side r" "or_TokenID r"] by simp
qed

text \<open>What one call may add to the gap: a rounding of the counter with what it holds and
  what the call moves.\<close>

definition bookSlack :: "account \<Rightarrow> float64 \<Rightarrow> State \<Rightarrow> rat" where
  "bookSlack a r s = slack (rval (acctReserved a s) + committed a s + rval r)"

lemma releaseSlack_le_book: "wf_state s \<Longrightarrow> 0 \<le> r \<Longrightarrow> releaseSlack a s \<le> bookSlack a r s"
  unfolding releaseSlack_def bookSlack_def
  using rval_nonneg [OF acctReserved_nonneg [of s a]] rval_nonneg [of r] committed_nonneg [of s a]
  by (intro slack_mono) linarith

lemma reserveSlack_le_book:
  "wf_state s \<Longrightarrow> 0 \<le> r \<Longrightarrow> slack (rval (acctReserved a s) + rval r) \<le> bookSlack a r s"
  unfolding bookSlack_def
  using rval_nonneg [OF acctReserved_nonneg [of s a]] rval_nonneg [of r] committed_nonneg [of s a]
  by (intro slack_mono) linarith

lemma bookSlack_nonneg [simp]: "0 \<le> bookSlack a r s"
  by (simp add: bookSlack_def)

lemma gap_TryReserve_book:
  assumes "wf_state s" and "0 \<le> price" and "0 \<le> sz"
  shows "\<bar>gap a (fst (TryReserveProvisional clock i m t sd price sz now ttl s))\<bar>
    \<le> \<bar>gap a s\<bar> + bookSlack a (RequiredCollateral sd price sz) s"
  using gap_TryReserve [OF assms, of a clock i m t sd now ttl]
    reserveSlack_le_book [OF assms(1) RequiredCollateral_nonneg [OF assms(2,3), of sd], of a] by linarith

lemma gap_AttachOrder:
  assumes "wf_state s" and "0 \<le> price" and "0 \<le> sz"
  shows "\<bar>gap a (fst (AttachOrder i k m t sd price sz s))\<bar>
    \<le> \<bar>gap a s\<bar> + bookSlack a (RequiredCollateral sd price sz) s"
proof (cases rule: AttachOrder_cases [of i k m t sd price sz s])
  case (duplicate p)
  have "releaseSlack a s \<le> bookSlack a (RequiredCollateral sd price sz) s"
    by (rule releaseSlack_le_book [OF assms(1) RequiredCollateral_nonneg [OF assms(2,3)]])
  with gap_dropProv [OF assms(1) duplicate(1), of a] show ?thesis
    by (simp add: duplicate(2))
next
  case (converted p)
  with gap_convert [OF assms(1) converted(1,3), of a] show ?thesis by simp
next
  case (fresh r)
  have r: "0 \<le> or_Reserved r" using fresh(2) by (simp add: order_ok_def)
  have "slack (rval (acctReserved a s) + rval (or_Reserved r)) \<le> bookSlack a (RequiredCollateral sd price sz) s"
    using reserveSlack_le_book [OF assms(1) r, of a] by (simp add: fresh(5))
  with gap_attach [OF assms(1) r fresh(9), of a True] show ?thesis
    unfolding fresh(1) fst_conv by linarith
qed simp

section \<open>The reservation left behind by a price improvement\<close>

text \<open>A BUY whose last fill is cheaper than the limit price: the fill removes the
  reservation from the map and takes only the consumed part off the counter.  Nothing refers
  to the rest any more, so no later release returns it.\<close>

lemma ApplyFill_last:
  assumes "map_of (st_orders s) k = Some res" and "k \<noteq> []" and "0 < sz" and "or_Side res = BUY"
    and "or_RemainingSize (fillLeft res sz price) \<le> FloatEpsilon"
  shows "fst (ApplyFill clock k (or_MarketID res) (or_TokenID res) BUY sz price s) =
    (fillEffect clock res sz price s)\<lparr>st_orders := gdel k (st_orders s)\<rparr>"
proof (cases rule: ApplyFill_cases [of clock k "or_MarketID res" "or_TokenID res" BUY sz price s])
  case (error e)
  moreover have "\<not> sz \<le> 0" using assms(3) by simp
  ultimately have False using assms(1,2,4) unfolding ApplyFill_def Let_def by (simp split: if_splits)
  then show ?thesis ..
next
  case (filled res')
  with assms show ?thesis by (simp add: afterFill_def)
qed

lemma ReleaseOrder_after_last:
  fixes clock :: time
  assumes "map_of (st_orders s) k = Some res" and "k \<noteq> []" and "0 < sz" and "or_Side res = BUY"
    and "or_RemainingSize (fillLeft res sz price) \<le> FloatEpsilon"
  defines "s' \<equiv> fst (ApplyFill clock k (or_MarketID res) (or_TokenID res) BUY sz price s)"
  shows "ReleaseOrder k s' = s'"
  by (rule ReleaseOrder_none) (simp add: s'_def ApplyFill_last [OF assms(1-5)] delete_conv')

lemma gap_last_fill:
  fixes clock :: time
  assumes "wf_state s" and "map_of (st_orders s) k = Some res" and "k \<noteq> []" and "0 < sz"
    and "or_Side res = BUY" and "or_RemainingSize (fillLeft res sz price) \<le> FloatEpsilon"
  defines "s' \<equiv> fst (ApplyFill clock k (or_MarketID res) (or_TokenID res) BUY sz price s)"
  shows "gap Collateral s + (rval (or_Reserved res) - rval (fillConsumed res sz price)) \<le>
    gap Collateral s' + slack (rval (ba_Reserved (st_balance s)) - rval (fillConsumed res sz price))"
proof -
  let ?c = "fillConsumed res sz price" and ?R = "ba_Reserved (st_balance s)"
  have s': "s' = (fillEffect clock res sz price s)\<lparr>st_orders := gdel k (st_orders s)\<rparr>"
    unfolding s'_def by (rule ApplyFill_last [OF assms(2-6)])
  have "committed Collateral s' = committed Collateral (s\<lparr>st_orders := gdel k (st_orders s)\<rparr>)"
    by (simp add: s' committed_def)
  also have "\<dots> = committed Collateral s - rval (or_Reserved res)"
    using committed_del_order [OF assms(1,2), of Collateral] assms(5) by (simp add: weight_def)
  finally have c: "committed Collateral s' = committed Collateral s - rval (or_Reserved res)" .
  have "acctReserved Collateral s' = acctReserved Collateral (fillEffect clock res sz price s)"
    by (simp add: s')
  then have "acctReserved Collateral s' = max 0 (?R - ?c)"
    using assms(5) by (simp add: acctReserved_fill del: acctReserved.simps) simp
  then have "rval (?R - ?c) \<le> rval (acctReserved Collateral s')"
    by (simp add: rval_max)
  with f_diff_err [of ?R ?c] show ?thesis
    unfolding gap_def c by simp
qed

section \<open>Properties\<close>

lemma attach_error:
  assumes "snd (AttachOrder i k m t sd price sz s) \<noteq> None"
  shows "fst (AttachOrder i k m t sd price sz s) = s \<or>
     (snd (AttachOrder i k m t sd price sz s) = Some ErrOrderAlreadyReserved \<and> ghas (st_provisional s) i \<and>
      fst (AttachOrder i k m t sd price sz s) = fst (ReleaseProvisional i s))"
proof (cases "i = []")
  case True
  have "fst (AttachOrder [] k m t sd price sz s) = s" if "snd (AttachOrder [] k m t sd price sz s) \<noteq> None"
    using that by (auto simp: AttachOrder_def Let_def split: if_splits option.splits side.splits)
  with True assms show ?thesis by simp
next
  case False
  show ?thesis
  proof (cases rule: AttachOrder_cases [of i k m t sd price sz s])
    case (duplicate p)
    with False show ?thesis by (simp add: ReleaseProvisional_eq ghas_def)
  qed (use assms in simp_all)
qed

text \<open>C1. Reserving, confirming, attaching and releasing keep the books: on every account,
  the distance between the \<open>Reserved\<close> counter and the exact total of the reservations in
  the maps grows by at most one rounding of the amounts at hand.\<close>

theorem reservation_books:
  assumes "wf_state s" and "0 \<le> price" and "0 \<le> sz"
  shows "\<bar>gap a (fst (TryReserveProvisional clock i m t sd price sz now ttl s))\<bar>
      \<le> \<bar>gap a s\<bar> + bookSlack a (RequiredCollateral sd price sz) s \<and>
    \<bar>gap a (fst (AttachOrder i k m t sd price sz s))\<bar>
      \<le> \<bar>gap a s\<bar> + bookSlack a (RequiredCollateral sd price sz) s \<and>
    \<bar>gap a (fst (ConfirmProvisional i k s))\<bar> \<le> \<bar>gap a s\<bar> + bookSlack a 0 s \<and>
    \<bar>gap a (fst (ReleaseProvisional i s))\<bar> \<le> \<bar>gap a s\<bar> + bookSlack a 0 s \<and>
    \<bar>gap a (ReleaseOrder k s)\<bar> \<le> \<bar>gap a s\<bar> + bookSlack a 0 s"
proof -
  have "releaseSlack a s = bookSlack a 0 s" by (simp add: releaseSlack_def bookSlack_def)
  then show ?thesis
    using gap_TryReserve_book [OF assms] gap_AttachOrder [OF assms] gap_ConfirmProvisional [OF assms(1)]
      gap_ReleaseProvisional [OF assms(1)] gap_ReleaseOrder [OF assms(1)] by metis
qed

corollary reservation_books_witness:
  "gap Collateral demoReserved = 0 \<and>
   \<bar>gap Collateral (fst (ReleaseProvisional ''i'' demoReserved))\<bar> \<le> 0 + bookSlack Collateral 0 demoReserved"
proof -
  have g: "gap Collateral demoReserved = 0" by code_simp
  with reservation_books [OF wf.holds_reachable [OF demo_reachable(2)] order_refl order_refl,
      of Collateral _ "''i''" _ _ _ _ _ "''k''"]
  show ?thesis by simp
qed

text \<open>C36. When the last fill of a BUY costs less than was reserved for it, the difference is
  lost to the books: the counter keeps it, no reservation claims it any more, and the release
  that follows a final status is a no-op.\<close>

theorem price_improvement_leak:
  fixes clock :: time
  assumes "wf_state s" and "map_of (st_orders s) k = Some res" and "k \<noteq> []" and "0 < sz"
    and "or_Side res = BUY" and "or_RemainingSize res - sz \<le> FloatEpsilon"
  shows "let s' = fst (ApplyFill clock k (or_MarketID res) (or_TokenID res) BUY sz price s) in
    ReleaseOrder k s' = s' \<and> \<not> ghas (st_orders s') k \<and>
    gap Collateral s + (rval (or_Reserved res) - rval (fillConsumed res sz price)) \<le>
      gap Collateral s' + slack (rval (ba_Reserved (st_balance s)) - rval (fillConsumed res sz price))"
proof -
  have l: "or_RemainingSize (fillLeft res sz price) \<le> FloatEpsilon"
    using assms(6) by (simp add: fillLeft_def)
  show ?thesis
    using ReleaseOrder_after_last [OF assms(2-5) l] gap_last_fill [OF assms(1-5) l] ApplyFill_last [OF assms(2-5) l]
    by (simp add: Let_def)
qed

text \<open>An order for 10 at 0.5, filled in full at 0.25: 5 reserved, 2.5 consumed, 2.5 stuck.\<close>

definition demoRes :: OrderReservation where
  "demoRes = \<lparr>or_OrderID = ''k'', or_MarketID = ''m'', or_TokenID = ''t'', or_Side = BUY,
     or_Price = f64 (1/2), or_RemainingSize = f64 10, or_Reserved = f64 5, or_ExternalOrigin = False\<rparr>"

definition demoOrder :: State where
  "demoOrder = \<lparr>st_tokens = [], st_balance = \<lparr>ba_Available = f64 95, ba_Reserved = f64 5, ba_MinBalance = 0\<rparr>,
     st_orders = [(''k'', demoRes)], st_provisional = [], st_dailyPnL = 0, st_dailyPnLDate = None,
     st_balanceSync = demoConfig, st_reconcileTrigger = False, st_expiryMarkets = []\<rparr>"

lemma demoOrder_wf: "wf_state demoOrder"
  by code_simp

lemma demoOrder_lookup: "map_of (st_orders demoOrder) ''k'' = Some demoRes"
  by code_simp

corollary price_improvement_leak_witness:
  "let s' = fst (ApplyFill 2 ''k'' ''m'' ''t'' BUY (f64 10) (f64 (1/4)) demoOrder) in
    ReleaseOrder ''k'' s' = s' \<and> st_orders s' = [] \<and> ba_Reserved (st_balance s') = f64 (5/2) \<and>
    gap Collateral demoOrder + (rval (or_Reserved demoRes) - rval (fillConsumed demoRes (f64 10) (f64 (1/4)))) \<le>
      gap Collateral s' + slack (rval (ba_Reserved (st_balance demoOrder)) - rval (fillConsumed demoRes (f64 10) (f64 (1/4))))"
proof -
  have sz: "0 < f64 10" "or_RemainingSize demoRes - f64 10 \<le> FloatEpsilon" by code_simp+
  have c: "st_orders (fst (ApplyFill 2 ''k'' ''m'' ''t'' BUY (f64 10) (f64 (1/4)) demoOrder)) = []"
    "ba_Reserved (st_balance (fst (ApplyFill 2 ''k'' ''m'' ''t'' BUY (f64 10) (f64 (1/4)) demoOrder))) = f64 (5/2)"
    by code_simp+
  have r: "or_Side demoRes = BUY" "or_MarketID demoRes = ''m''" "or_TokenID demoRes = ''t''"
    by (simp_all add: demoRes_def)
  have k: "''k'' \<noteq> ''''" by simp
  note leak = price_improvement_leak [OF demoOrder_wf demoOrder_lookup k
      sz(1) r(1) sz(2), of 2 "f64 (1/4)", unfolded r Let_def]
  show ?thesis
    unfolding Let_def using leak c by blast
qed

text \<open>C11. An operation that reports an error has not touched the ledger.  The one exception
  is \<^verbatim>\<open>AttachOrder\<close> for an order that is already reserved: it then drops the caller's
  provisional reservation, and nothing else.\<close>

theorem errors_atomic:
  "(snd (TryReserveProvisional clock i m t sd price sz now ttl s) \<noteq> None \<longrightarrow>
     fst (TryReserveProvisional clock i m t sd price sz now ttl s) = s) \<and>
   (snd (AttachExternalOrder k m t sd price sz s) \<noteq> None \<longrightarrow> fst (AttachExternalOrder k m t sd price sz s) = s) \<and>
   (snd (ApplyFill clock k m t sd sz price s) \<noteq> None \<longrightarrow> fst (ApplyFill clock k m t sd sz price s) = s) \<and>
   (snd (snd (ConfirmProvisional i k s)) \<noteq> None \<longrightarrow> fst (ConfirmProvisional i k s) = s) \<and>
   (snd (AttachOrder i k m t sd price sz s) \<noteq> None \<longrightarrow>
     fst (AttachOrder i k m t sd price sz s) = s \<or>
     (snd (AttachOrder i k m t sd price sz s) = Some ErrOrderAlreadyReserved \<and> ghas (st_provisional s) i \<and>
      fst (AttachOrder i k m t sd price sz s) = fst (ReleaseProvisional i s)))"
proof (intro conjI impI)
  assume "snd (TryReserveProvisional clock i m t sd price sz now ttl s) \<noteq> None"
  then show "fst (TryReserveProvisional clock i m t sd price sz now ttl s) = s"
    by (cases rule: TryReserve_cases [of clock i m t sd price sz now ttl s]) simp_all
next
  assume "snd (AttachExternalOrder k m t sd price sz s) \<noteq> None"
  then show "fst (AttachExternalOrder k m t sd price sz s) = s"
    by (cases rule: AttachExternal_cases [of k m t sd price sz s]) simp_all
next
  assume "snd (ApplyFill clock k m t sd sz price s) \<noteq> None"
  then show "fst (ApplyFill clock k m t sd sz price s) = s"
    by (cases rule: ApplyFill_cases [of clock k m t sd sz price s]) simp_all
next
  assume "snd (snd (ConfirmProvisional i k s)) \<noteq> None"
  then show "fst (ConfirmProvisional i k s) = s"
    by (auto simp: ConfirmProvisional_def Let_def split: if_splits option.splits)
next
  assume "snd (AttachOrder i k m t sd price sz s) \<noteq> None"
  then show "fst (AttachOrder i k m t sd price sz s) = s \<or>
     (snd (AttachOrder i k m t sd price sz s) = Some ErrOrderAlreadyReserved \<and> ghas (st_provisional s) i \<and>
      fst (AttachOrder i k m t sd price sz s) = fst (ReleaseProvisional i s))"
    by (rule attach_error)
qed

corollary errors_atomic_witness:
  "snd (TryReserveProvisional 1 ''j'' ''m'' ''t'' SELL (f64 (1/2)) (f64 10) 1 0 demoFunded) \<noteq> None \<and>
   fst (TryReserveProvisional 1 ''j'' ''m'' ''t'' SELL (f64 (1/2)) (f64 10) 1 0 demoFunded) = demoFunded"
proof -
  have "snd (TryReserveProvisional 1 ''j'' ''m'' ''t'' SELL (f64 (1/2)) (f64 10) 1 0 demoFunded) \<noteq> None"
    by code_simp
  then show ?thesis using errors_atomic by blast
qed

text \<open>The intents the ledger can accept.\<close>

definition reserveAccepts :: "string \<Rightarrow> string \<Rightarrow> string \<Rightarrow> side \<Rightarrow> float64 \<Rightarrow> float64 \<Rightarrow> State \<Rightarrow> bool" where
  "reserveAccepts i m t sd price sz s \<longleftrightarrow>
     i \<noteq> [] \<and> m \<noteq> [] \<and> t \<noteq> [] \<and> 0 < sz \<and> 0 < price \<and> price < 1 \<and> sd \<in> {BUY, SELL} \<and>
     \<not> ghas (st_provisional s) i \<and>
     RequiredCollateral sd price sz \<le> acctAvailable (if sd = BUY then Collateral else Token t) s + FloatEpsilon"

lemma TryReserve_accepts:
  "snd (TryReserveProvisional clock i m t sd price sz now ttl s) = None \<longleftrightarrow> reserveAccepts i m t sd price sz s"
  by (cases sd) (auto simp: TryReserveProvisional_def reserveAccepts_def Let_def not_le not_less split: if_splits)

lemma account_prov_frame [simp]:
  "acctReserved a (s\<lparr>st_provisional := ps\<rparr>) = acctReserved a s"
  "acctAvailable a (s\<lparr>st_provisional := ps\<rparr>) = acctAvailable a s"
  by (cases a; simp)+

text \<open>C35. \<^verbatim>\<open>TryReserveProvisional\<close> accepts exactly the well-formed intents that the account
  can pay for (up to the tolerance) and whose id is new; it then moves the required amount from
  \<open>Available\<close> to \<open>Reserved\<close> of that account and records it with its deadline.\<close>

theorem reserve_accepts_iff:
  "(snd (TryReserveProvisional clock i m t sd price sz now ttl s) = None \<longleftrightarrow>
      reserveAccepts i m t sd price sz s) \<and>
   (reserveAccepts i m t sd price sz s \<longrightarrow>
     (let a = (if sd = BUY then Collateral else Token t); r = RequiredCollateral sd price sz;
          s' = fst (TryReserveProvisional clock i m t sd price sz now ttl s)
      in acctReserved a s' = acctReserved a s + r \<and>
         acctAvailable a s' = (if sd = BUY then acctAvailable a s - r else max 0 (acctAvailable a s - r)) \<and>
         st_orders s' = st_orders s \<and>
         (\<exists>p. st_provisional s' = gput i p (st_provisional s) \<and> pr_Reserved p = r \<and> pr_RemainingSize p = sz \<and>
              pr_ExpiresAt p = (if now = 0 then clock else now) + (if ttl \<le> 0 then 5 * second else ttl))))"
proof (intro conjI impI TryReserve_accepts)
  assume acc: "reserveAccepts i m t sd price sz s"
  then have sd: "sd = BUY \<or> sd = SELL" by (simp add: reserveAccepts_def)
  show "let a = (if sd = BUY then Collateral else Token t); r = RequiredCollateral sd price sz;
          s' = fst (TryReserveProvisional clock i m t sd price sz now ttl s)
      in acctReserved a s' = acctReserved a s + r \<and>
         acctAvailable a s' = (if sd = BUY then acctAvailable a s - r else max 0 (acctAvailable a s - r)) \<and>
         st_orders s' = st_orders s \<and>
         (\<exists>p. st_provisional s' = gput i p (st_provisional s) \<and> pr_Reserved p = r \<and> pr_RemainingSize p = sz \<and>
              pr_ExpiresAt p = (if now = 0 then clock else now) + (if ttl \<le> 0 then 5 * second else ttl))"
  proof (cases rule: TryReserve_cases [of clock i m t sd price sz now ttl s])
    case (error e)
    with acc show ?thesis using TryReserve_accepts [of clock i m t sd price sz now ttl s] by simp
  next
    case (reserved p)
    show ?thesis
      using sd reserved(3-8,10)
      by (auto simp: Let_def reserved(1) acctReserved_reserve acctAvailable_reserve
          simp del: acctReserved.simps acctAvailable.simps)
  qed
qed

corollary reserve_accepts_iff_witness:
  "reserveAccepts ''i'' ''m'' ''t'' BUY (f64 (1/2)) (f64 10) demoFunded \<and>
   acctReserved Collateral (fst (TryReserveProvisional 1 ''i'' ''m'' ''t'' BUY (f64 (1/2)) (f64 10) 1 0 demoFunded)) =
     acctReserved Collateral demoFunded + RequiredCollateral BUY (f64 (1/2)) (f64 10)"
proof -
  have "reserveAccepts ''i'' ''m'' ''t'' BUY (f64 (1/2)) (f64 10) demoFunded" by code_simp
  with reserve_accepts_iff [of 1 "''i''" "''m''" "''t''" BUY "f64 (1/2)" "f64 10" 1 0 demoFunded]
  show ?thesis by (simp add: Let_def)
qed

text \<open>The rounding of a reservation that is made and taken back.\<close>

definition roundTripSlack :: "float64 \<Rightarrow> float64 \<Rightarrow> rat" where
  "roundTripSlack x r = slack (rval x - rval r) + slack (rval (x - r) + rval r)"

lemma diff_add_err: "\<bar>rval ((x - r) + r) - rval x\<bar> \<le> roundTripSlack x r"
  using f_diff_err [of x r] f_add_err [of "x - r" r] unfolding roundTripSlack_def by linarith



end
