(* ===== verification/Agreement.thy ===== *)
theory Agreement
  imports Ledger
begin

text \<open>
  What reconciliation, the expiry sweep and the retry loop establish: after a pass the local
  tables agree with what the exchange reported, and each entry changed the way the code says.
\<close>

section \<open>Orders after a pass\<close>

text \<open>The remote orders \<^verbatim>\<open>attachExternalLocked\<close> accepts.\<close>

definition attachable :: "string \<Rightarrow> OpenOrder \<Rightarrow> bool" where
  "attachable k ro \<longleftrightarrow> k \<noteq> [] \<and> oo_Market ro \<noteq> [] \<and> oo_AssetId ro \<noteq> [] \<and>
     0 < remainingOf ro \<and> 0 < oo_Price ro \<and> oo_Price ro < 1 \<and> oo_Side ro \<in> {BUY, SELL}"

text \<open>A local reservation that agrees with the remote order up to the tolerance.\<close>

definition agrees :: "OpenOrder \<Rightarrow> OrderReservation \<Rightarrow> bool" where
  "agrees ro r \<longleftrightarrow> \<bar>or_RemainingSize r - remainingOf ro\<bar> \<le> FloatEpsilon \<and>
     \<bar>or_Price r - oo_Price ro\<bar> \<le> FloatEpsilon"

lemma releaseOrderLocked_orders [simp]: "st_orders (releaseOrderLocked k r s) = gdel k (st_orders s)"
  by (simp add: releaseOrderLocked_eq)

lemma releaseMissing_orders:
  "map_of (st_orders (fst (releaseMissing rm rest s n))) k =
     (if k \<in> fst ` set rest \<and> \<not> ghas rm k then None else map_of (st_orders s) k)"
proof (induction rm rest s n rule: releaseMissing.induct)
  case (2 rm orderID local rest s n)
  then show ?case by (auto simp: delete_conv')
qed simp

lemma releaseMissing_count:
  "snd (releaseMissing rm rest s n) = n + int (length (filter (\<lambda>(k, r). \<not> ghas rm k) rest))"
  by (induction rm rest s n rule: releaseMissing.induct) auto

lemma attachExternalLocked_orders:
  "k' \<noteq> k \<Longrightarrow> map_of (st_orders (fst (attachExternalLocked k m t sd price sz s))) k' = map_of (st_orders s) k'"
  by (rule attachExternalLocked_cases [of k m t sd price sz s]) (simp_all add: update_conv')

lemma attachExternalLocked_fresh:
  assumes "attachable k ro" and "map_of (st_orders s) k = None"
  shows "\<exists>r. map_of (st_orders (fst (attachExternalLocked k (oo_Market ro) (oo_AssetId ro) (oo_Side ro)
      (oo_Price ro) (remainingOf ro) s))) k = Some r \<and> agrees ro r \<and> or_ExternalOrigin r"
  using assms
  by (auto simp: attachable_def attachExternalLocked_def ghas_def Let_def agrees_def update_conv' not_le)

text \<open>What the second loop leaves for one remote order.\<close>

lemma addOrUpdate_other:
  "k \<notin> fst ` set rm \<Longrightarrow> map_of (st_orders (fst (addOrUpdate rm s a u))) k = map_of (st_orders s) k"
proof (induction rm s a u rule: addOrUpdate.induct)
  case (2 orderID ro rest s a u)
  then have ne: "k \<noteq> orderID" "k \<notin> fst ` set rest" by auto
  show ?case
    using 2 ne attachExternalLocked_orders [OF ne(1), of "oo_Market ro" "oo_AssetId ro" "oo_Side ro" "oo_Price ro"
        "remainingOf ro" s]
    by (auto simp: Let_def split_beta update_conv' split: option.split)
qed simp

lemma addOrUpdate_agrees:
  "gmap_ok rm \<Longrightarrow> map_of rm k = Some ro \<Longrightarrow> attachable k ro \<Longrightarrow>
   \<exists>r. map_of (st_orders (fst (addOrUpdate rm s a u))) k = Some r \<and> agrees ro r"
proof (induction rm s a u rule: addOrUpdate.induct)
  case (2 k' ro' rest s a u)
  show ?case
  proof (cases "k = k'")
    case False
    with 2 show ?thesis by (auto simp: Let_def split_beta split: option.split)
  next
    case True
    then have ro: "ro' = ro" "k \<notin> fst ` set rest" using "2.prems" by auto
    have pos: "\<not> remainingOf ro \<le> 0" using "2.prems"(3) by (simp add: attachable_def not_le)
    show ?thesis
    proof (cases "map_of (st_orders s) k")
      case None
      with attachExternalLocked_fresh [OF "2.prems"(3) None] show ?thesis
        using True ro pos by (auto simp: Let_def split_beta addOrUpdate_other)
    next
      case (Some local)
      with True ro pos show ?thesis
        by (auto simp: Let_def addOrUpdate_other update_conv' agrees_def not_less)
    qed
  qed
qed simp

lemma remoteByID_ok: "gmap_ok (remoteByID remote)"
proof -
  have "gmap_ok m \<Longrightarrow> gmap_ok (fold (\<lambda>ord m. let id = TrimSpace (oo_Id ord) in if id = [] then m else gput id ord m) remote m)"
    for m :: "(string, OpenOrder) gomap"
    by (induction remote arbitrary: m) (auto simp: Let_def distinct_update)
  then show ?thesis by (simp add: remoteByID_def)
qed

lemma addOrUpdate_sound:
  "map_of (st_orders (fst (addOrUpdate rm s a u))) k = Some r \<Longrightarrow> ghas rm k \<or> map_of (st_orders s) k = Some r"
  by (cases "k \<in> fst ` set rm") (auto simp: ghas_iff_mem addOrUpdate_other)

lemma reconcileOrders_fst:
  "fst (reconcileOrders remote s) =
     fst (addOrUpdate (remoteByID remote) (fst (releaseMissing (remoteByID remote) (st_orders s) s 0)) 0 0)"
  by (simp add: reconcileOrders_def Let_def split_beta)

lemma reconcileOrders_known:
  assumes "ghas (st_orders (fst (reconcileOrders remote s))) k"
  shows "ghas (remoteByID remote) k"
proof (rule ccontr)
  assume n: "\<not> ghas (remoteByID remote) k"
  from assms obtain r where "map_of (st_orders (fst (reconcileOrders remote s))) k = Some r"
    by (auto simp: ghas_def)
  from addOrUpdate_sound [OF this [unfolded reconcileOrders_fst]] n
  have "map_of (st_orders (fst (releaseMissing (remoteByID remote) (st_orders s) s 0))) k = Some r" by simp
  with n show False by (force simp: releaseMissing_orders split: if_splits dest: map_of_SomeD)
qed

section \<open>Positions after a pass\<close>

text \<open>The entry of a token the exchange reports with size \<open>sz\<close>, from the local entry.\<close>

definition syncedPosition :: "float64 \<Rightarrow> TokenPosition option \<Rightarrow> TokenPosition" where
  "syncedPosition sz old =
    (case old of
       None \<Rightarrow> zeroTokenPosition\<lparr>tp_Available := sz\<rparr>
     | Some tp \<Rightarrow>
         if \<bar>tp_Available tp + tp_Reserved tp - sz\<bar> \<le> FloatEpsilon then tp
         else tp\<lparr>tp_Available := max 0 (tp_Available tp + (sz - (tp_Available tp + tp_Reserved tp)))\<rparr>)"

lemma addOrUpdatePos_lookup:
  "gmap_ok rm \<Longrightarrow> map_of (st_tokens (fst (addOrUpdatePos rm s a u))) tk =
     (case map_of rm tk of None \<Rightarrow> map_of (st_tokens s) tk
      | Some sz \<Rightarrow> Some (syncedPosition sz (map_of (st_tokens s) tk)))"
proof (induction rm s a u rule: addOrUpdatePos.induct)
  case (2 k sz rest s a u)
  have nk: "map_of rest k = None" using "2.prems" by (simp add: map_of_eq_None_iff)
  show ?case
  proof (cases "map_of (st_tokens s) k")
    case None
    with "2.IH"(1) [OF None] "2.prems" nk show ?thesis
      by (auto simp: update_conv' syncedPosition_def zeroTokenPosition_def split: option.split)
  next
    case (Some tp)
    show ?thesis
    proof (cases "FloatEpsilon < \<bar>tp_Available tp + tp_Reserved tp - sz\<bar>")
      case True
      with "2.IH"(2) [OF Some True refl refl refl] "2.prems" nk Some show ?thesis
        by (auto simp: Let_def update_conv' syncedPosition_def max_def not_le split: option.split)
    next
      case False
      with "2.IH"(3) [OF Some False] "2.prems" nk Some show ?thesis
        by (auto simp: syncedPosition_def not_less split: option.split)
    qed
  qed
qed simp

lemma map_of_filter_keys: "map_of (filter (\<lambda>(k, v). P k) m) k = (if P k then map_of m k else None)"
  by (induction m) auto

lemma reconcilePositionTable_lookup:
  assumes "gmap_ok rm"
  shows "map_of (st_tokens (fst (reconcilePositionTable rm s))) tk =
     map_option (\<lambda>sz. syncedPosition sz (map_of (st_tokens s) tk)) (map_of rm tk)"
proof -
  let ?s = "s\<lparr>st_tokens := filter (\<lambda>(tk, tp). ghas rm tk) (st_tokens s)\<rparr>"
  have old: "map_of (st_tokens ?s) tk = (if ghas rm tk then map_of (st_tokens s) tk else None)"
    by (simp add: map_of_filter_keys)
  have new: "fst (reconcilePositionTable rm s) = fst (addOrUpdatePos rm ?s 0 0)"
    by (simp add: reconcilePositionTable_def Let_def split_beta)
  show ?thesis
    unfolding new addOrUpdatePos_lookup [OF assms] old by (cases "map_of rm tk") (simp_all add: ghas_def)
qed

lemma remoteByToken_ok: "gmap_ok (remoteByToken G remote)"
proof -
  have "gmap_ok m \<Longrightarrow> gmap_ok (fold (\<lambda>item m. let tokenID = firstNonEmptyJSON G item tokenIDKeys in
             if tokenID = [] then m
             else let sz = gj_Float G (gj_Get G item ''size'') in
               if sz \<le> 0 then m else gput tokenID (gget 0 m tokenID + sz) m) items m)"
    for m :: "(string, float64) gomap" and items
    by (induction items arbitrary: m) (auto simp: Let_def distinct_update)
  then show ?thesis by (simp add: remoteByToken_def)
qed

section \<open>The expiry sweep\<close>

lemma releaseAll_frame [simp]:
  "st_orders (releaseAll ps s) = st_orders s" "st_provisional (releaseAll ps s) = st_provisional s"
  by (induction ps arbitrary: s) auto

lemma Cleanup_provisional:
  assumes "now \<noteq> 0"
  shows "st_provisional (fst (CleanupExpiredProvisional clock now s)) =
    filter (\<lambda>(k, p). now < pr_ExpiresAt p) (st_provisional s)"
  using assms by (simp add: CleanupExpiredProvisional_def Let_def)

lemma Cleanup_ids:
  assumes "wf_state s" and "now \<noteq> 0"
  shows "k \<in> set (snd (CleanupExpiredProvisional clock now s)) \<longleftrightarrow>
    (\<exists>p. map_of (st_provisional s) k = Some p \<and> pr_ExpiresAt p \<le> now)"
proof -
  have ok: "gmap_ok (st_provisional s)" using assms(1) by (simp add: wf_state_def)
  show ?thesis
    using assms(2) by (auto simp: CleanupExpiredProvisional_def Let_def expiredProvisional_def not_less
        map_of_eq_Some_iff [OF ok] image_iff)
qed

section \<open>The retry loop\<close>

lemma ReconcileWithExchange_error:
  "rr_Err (snd (ReconcileWithExchange G reply s)) \<noteq> None \<Longrightarrow> fst (ReconcileWithExchange G reply s) = s"
  by (auto simp: ReconcileWithExchange_def Let_def split_beta split: option.splits sum.splits)

text \<open>A failed pass changes nothing, so the state after the retries is the state after the
  first pass that succeeded.\<close>

lemma retryLoop_first_success:
  assumes "\<forall>r \<in> set bad. rr_Err (snd (ReconcileWithExchange G r s)) \<noteq> None"
    and "rr_Err (snd (ReconcileWithExchange G good s)) = None"
    and "length bad < length ws"
  shows "retryLoop G ws (map Some (bad @ [good]) @ env) s rep =
    (fst (ReconcileWithExchange G good s), Some (snd (ReconcileWithExchange G good s)))"
  using assms
proof (induction bad arbitrary: ws rep)
  case Nil
  then show ?case by (cases ws) (simp_all add: split_beta)
next
  case (Cons b bad)
  obtain w ws' where ws: "ws = w # ws'" using Cons.prems(3) by (cases ws) auto
  have "fst (ReconcileWithExchange G b s) = s"
    using Cons.prems(1) by (intro ReconcileWithExchange_error) simp
  with Cons ws show ?case by (auto simp: split_beta)
qed

section \<open>Properties\<close>

text \<open>C17. After a reconciliation pass every local order is one the exchange reported, and every
  remote order that is still open and well formed has a local reservation whose remaining size
  and price agree with it up to the tolerance.\<close>

theorem reconcile_orders_agree:
  "(ghas (st_orders (fst (reconcileOrders remote s))) k \<longrightarrow> ghas (remoteByID remote) k) \<and>
   (map_of (remoteByID remote) k = Some ro \<longrightarrow> attachable k ro \<longrightarrow>
     (\<exists>r. map_of (st_orders (fst (reconcileOrders remote s))) k = Some r \<and> agrees ro r))"
  using reconcileOrders_known [of remote s k] addOrUpdate_agrees [OF remoteByID_ok, of remote k ro]
  by (simp add: reconcileOrders_fst)

definition demoRemote :: OpenOrder where
  "demoRemote = \<lparr>oo_Id = ''r'', oo_Market = ''m'', oo_AssetId = ''t'', oo_Side = BUY,
     oo_Price = f64 (1/4), oo_OriginalSize = f64 8, oo_SizeMatched = f64 4\<rparr>"

corollary reconcile_orders_agree_witness:
  "attachable ''r'' demoRemote \<and>
   (\<exists>r. map_of (st_orders (fst (reconcileOrders [demoRemote] demoFunded))) ''r'' = Some r \<and> agrees demoRemote r)"
proof -
  have a: "attachable ''r'' demoRemote" "map_of (remoteByID [demoRemote]) ''r'' = Some demoRemote" by code_simp+
  show ?thesis using reconcile_orders_agree [of "[demoRemote]" demoFunded "''r''" demoRemote] a by blast
qed

lemma addOrUpdate_step:
  assumes "k \<noteq> k'"
  shows "\<exists>s' a' u'. addOrUpdate ((k', ro) # rest) s a u = addOrUpdate rest s' a' u' \<and>
    map_of (st_orders s') k = map_of (st_orders s) k"
proof -
  have p: "map_of (st_orders (s\<lparr>st_orders := gput k' l (st_orders s)\<rparr>)) k = map_of (st_orders s) k" for l
    using assms by (simp add: update_conv')
  show ?thesis
    using p attachExternalLocked_orders [OF assms, of "oo_Market ro" "oo_AssetId ro" "oo_Side ro"
        "oo_Price ro" "remainingOf ro" s]
    unfolding addOrUpdate.simps Let_def split_beta
    by (cases "map_of (st_orders s) k'"; cases "remainingOf ro \<le> 0") (simp only: option.case if_True if_False; metis)+
qed

lemma addOrUpdate_existing:
  "map_of rm k = Some ro \<Longrightarrow> gmap_ok rm \<Longrightarrow> map_of (st_orders s) k = Some old \<Longrightarrow> \<not> remainingOf ro \<le> 0 \<Longrightarrow>
   \<exists>r. map_of (st_orders (fst (addOrUpdate rm s a u))) k = Some r \<and>
     or_Reserved r = or_Reserved old \<and> or_Side r = or_Side old \<and>
     or_RemainingSize r = (if agrees ro old then or_RemainingSize old else remainingOf ro)"
proof (induction rm arbitrary: s a u)
  case (Cons e rest)
  obtain k' ro' where e: "e = (k', ro')" by fastforce
  show ?case
  proof (cases "k = k'")
    case True
    with Cons.prems e have "ro' = ro" "k \<notin> fst ` set rest" by auto
    with True Cons.prems(3,4) e show ?thesis
      by (auto simp: Let_def addOrUpdate_other update_conv' agrees_def not_less)
  next
    case False
    then have "map_of rest k = Some ro" "gmap_ok rest" using Cons.prems(1,2) e by auto
    note IH = Cons.IH [OF this _ Cons.prems(4)]
    obtain s' a' u' where "addOrUpdate (e # rest) s a u = addOrUpdate rest s' a' u'"
      "map_of (st_orders s') k = map_of (st_orders s) k"
      using addOrUpdate_step [OF False, of ro' rest s a u] e by auto
    with IH [of s' a' u'] Cons.prems(3) show ?thesis by simp
  qed
qed simp

text \<open>A remote order that differs from its local reservation changes the reservation's
  remaining size and price, but not the amount it has reserved: until the order ends, the
  ledger keeps the amount of the old size and price.\<close>

theorem reconcile_update_keeps_reserved:
  assumes "map_of (remoteByID remote) k = Some ro" and "map_of (st_orders s) k = Some old"
    and "\<not> remainingOf ro \<le> 0"
  shows "\<exists>r. map_of (st_orders (fst (reconcileOrders remote s))) k = Some r \<and>
    or_Reserved r = or_Reserved old \<and> or_Side r = or_Side old \<and>
    or_RemainingSize r = (if agrees ro old then or_RemainingSize old else remainingOf ro)"
proof -
  have "map_of (st_orders (fst (releaseMissing (remoteByID remote) (st_orders s) s 0))) k = Some old"
    using assms(1,2) by (simp add: releaseMissing_orders ghas_def)
  from addOrUpdate_existing [OF assms(1) remoteByID_ok this assms(3)] show ?thesis by (simp add: reconcileOrders_fst)
qed

definition demoHeld :: State where
  "demoHeld = \<lparr>st_tokens = [(''t'', zeroTokenPosition\<lparr>tp_Available := f64 3, tp_Reserved := f64 8\<rparr>)],
     st_balance = \<lparr>ba_Available = f64 95, ba_Reserved = 0, ba_MinBalance = 0\<rparr>,
     st_orders = [(''r'', \<lparr>or_OrderID = ''r'', or_MarketID = ''m'', or_TokenID = ''t'', or_Side = SELL,
       or_Price = f64 (1/4), or_RemainingSize = f64 8, or_Reserved = f64 8, or_ExternalOrigin = False\<rparr>)],
     st_provisional = [(''i'', \<lparr>pr_IntentID = ''i'', pr_MarketID = ''m'', pr_TokenID = ''t'', pr_Side = BUY,
       pr_Price = f64 (1/2), pr_RemainingSize = f64 4, pr_Reserved = f64 2, pr_CreatedAt = 1, pr_ExpiresAt = 5\<rparr>)],
     st_dailyPnL = 0, st_dailyPnLDate = None,
     st_balanceSync = demoConfig, st_reconcileTrigger = False, st_expiryMarkets = []\<rparr>"

corollary reconcile_update_keeps_reserved_witness:
  "\<exists>r. map_of (st_orders (fst (reconcileOrders [demoRemote] demoHeld))) ''r'' = Some r \<and>
    or_Reserved r = f64 8 \<and> or_RemainingSize r = f64 4"
proof -
  let ?old = "the (map_of (st_orders demoHeld) ''r'')"
  have h: "map_of (remoteByID [demoRemote]) ''r'' = Some demoRemote" "map_of (st_orders demoHeld) ''r'' = Some ?old"
    "\<not> remainingOf demoRemote \<le> 0" by code_simp+
  have v: "or_Reserved ?old = f64 8" "\<not> agrees demoRemote ?old" "remainingOf demoRemote = f64 4" by code_simp+
  show ?thesis using reconcile_update_keeps_reserved [OF h] v by auto
qed

text \<open>C16. Positions after a pass: exactly the tokens the exchange reported, each the local
  entry brought to the reported size by moving \<open>Available\<close> only (never below 0), or a new
  entry with unknown cost.\<close>

theorem reconcile_positions_agree:
  "map_of (st_tokens (fst (reconcilePositions G remote s))) tk =
     map_option (\<lambda>sz. syncedPosition sz (map_of (st_tokens s) tk)) (map_of (remoteByToken G remote) tk)"
  by (simp add: reconcilePositions_def reconcilePositionTable_lookup [OF remoteByToken_ok])

text \<open>A token the exchange no longer reports is dropped even while a SELL order still
  reserves it.  Releasing that order afterwards credits its reserved size to a fresh entry, so
  the ledger shows tokens that neither the exchange nor the ledger had.\<close>

theorem reconcile_phantom_position:
  assumes "map_of (st_orders s) k = Some r" and "k \<noteq> []" and "or_Side r = SELL"
    and "\<not> ghas (remoteByToken G remote) (or_TokenID r)"
  shows "let s' = fst (reconcilePositions G remote s) in
    \<not> ghas (st_tokens s') (or_TokenID r) \<and>
    tp_Available (tokenPos (ReleaseOrder k s') (or_TokenID r)) = or_Reserved r"
proof -
  let ?s' = "fst (reconcilePositions G remote s)"
  have gone: "map_of (st_tokens ?s') (or_TokenID r) = None"
    using assms(4) by (simp add: reconcilePositions_def reconcilePositionTable_lookup [OF remoteByToken_ok] ghas_def)
  have "st_orders (fst (addOrUpdatePos rm s a u)) = st_orders s" for rm s a u
    by (induction rm s a u rule: addOrUpdatePos.induct) (auto simp: Let_def split: option.split)
  then have "map_of (st_orders ?s') k = Some r"
    using assms(1) by (simp add: reconcilePositions_def reconcilePositionTable_def Let_def split_beta)
  from ReleaseOrder_eq [OF this assms(2)] gone show ?thesis
    using assms(3)
    by (simp add: Let_def ghas_def releaseReservedLocked_def gget_def zeroTokenPosition_def update_conv')
qed

corollary reconcile_phantom_position_witness:
  "let s' = fst (reconcilePositions demoJSON None demoHeld) in
    \<not> ghas (st_tokens s') ''t'' \<and> tp_Available (tokenPos (ReleaseOrder ''r'' s') ''t'') = f64 8"
proof -
  let ?r = "the (map_of (st_orders demoHeld) ''r'')"
  have h: "map_of (st_orders demoHeld) ''r'' = Some ?r" "or_Side ?r = SELL"
    "\<not> ghas (remoteByToken demoJSON None) (or_TokenID ?r)" by code_simp+
  have v: "or_TokenID ?r = ''t''" "or_Reserved ?r = f64 8" by code_simp+
  show ?thesis
    using reconcile_phantom_position [OF h(1) _ h(2,3)] unfolding v by blast
qed

text \<open>The expiry sweep returns exactly the ids of the provisional reservations whose
  deadline has passed, and leaves exactly the others in the map, unchanged.\<close>

theorem cleanup_expired_exact:
  assumes "wf_state s" and "now \<noteq> 0"
  shows "(k \<in> set (snd (CleanupExpiredProvisional clock now s)) \<longleftrightarrow>
      (\<exists>p. map_of (st_provisional s) k = Some p \<and> pr_ExpiresAt p \<le> now)) \<and>
    (map_of (st_provisional (fst (CleanupExpiredProvisional clock now s))) k = Some p \<longleftrightarrow>
      map_of (st_provisional s) k = Some p \<and> now < pr_ExpiresAt p) \<and>
    st_orders (fst (CleanupExpiredProvisional clock now s)) = st_orders s"
proof -
  have ok: "gmap_ok (st_provisional s)" using assms(1) by (simp add: wf_state_def)
  have "map_of (filter (\<lambda>(k, p). now < pr_ExpiresAt p) (st_provisional s)) k = Some p \<longleftrightarrow>
      map_of (st_provisional s) k = Some p \<and> now < pr_ExpiresAt p"
    unfolding map_of_eq_Some_iff [OF ok] map_of_eq_Some_iff [OF gmap_ok_filter [OF ok]] by auto
  moreover have "st_orders (fst (CleanupExpiredProvisional clock now s)) = st_orders s"
    by (simp add: CleanupExpiredProvisional_def Let_def)
  ultimately show ?thesis
    unfolding Cleanup_ids [OF assms] Cleanup_provisional [OF assms(2)] by blast
qed

corollary cleanup_expired_exact_witness:
  "''i'' \<in> set (snd (CleanupExpiredProvisional 0 5 demoHeld))"
proof -
  have wf: "wf_state demoHeld" by code_simp
  have "map_of (st_provisional demoHeld) ''i'' = Some (the (map_of (st_provisional demoHeld) ''i''))"
    "pr_ExpiresAt (the (map_of (st_provisional demoHeld) ''i'')) \<le> 5" by code_simp+
  then show ?thesis using cleanup_expired_exact [OF wf, of 5 "''i''" 0] by (metis zero_neq_numeral)
qed

text \<open>Reconciliation with retries: when passes fail and a later one, within the
  configured number of retries, succeeds, the failed passes have changed nothing and the result
  is that of the successful pass alone.\<close>

theorem retry_first_success:
  assumes "rr_Err (snd (ReconcileWithExchange G reply s)) \<noteq> None"
    and "\<forall>r \<in> set bad. rr_Err (snd (ReconcileWithExchange G r s)) \<noteq> None"
    and "rr_Err (snd (ReconcileWithExchange G good s)) = None"
    and "length bad < length backoff"
  shows "runReconcileWithRetry G backoff reply (map Some (bad @ [good]) @ env) s =
    (fst (ReconcileWithExchange G good s), Some (snd (ReconcileWithExchange G good s)))"
  using retryLoop_first_success [OF assms(2-4), of env] ReconcileWithExchange_error [OF assms(1)] assms(1)
  by (auto simp: runReconcileWithRetry_def split_beta)

corollary retry_first_success_witness:
  "runReconcileWithRetry demoJSON [second] None
     (map Some ([] @ [Some \<lparr>er_orders = Inr [], er_positions = Inr None, er_duration = 1\<rparr>]) @ []) demoHeld =
   (fst (ReconcileWithExchange demoJSON (Some \<lparr>er_orders = Inr [], er_positions = Inr None, er_duration = 1\<rparr>) demoHeld),
    Some (snd (ReconcileWithExchange demoJSON (Some \<lparr>er_orders = Inr [], er_positions = Inr None, er_duration = 1\<rparr>) demoHeld)))"
  by (rule retry_first_success)
    (simp_all add: ReconcileWithExchange_def emptyReport_def Let_def split_beta)

text \<open>The expiry watch announces a market at most once: right after a check, a second
  check at the same or any earlier moment announces nothing, and a market is announced at a
  check only if its end is within the warning time.\<close>

theorem expiry_fires_once:
  assumes "0 < warnBefore"
  shows "(ev \<in> set (snd (checkExpiry clock warnBefore s)) \<longrightarrow>
      pe_EndTime ev \<le> timeUnixMilli clock + warnBefore div 1000000) \<and>
    (clock' \<le> clock \<longrightarrow> snd (checkExpiry clock' warnBefore (fst (checkExpiry clock warnBefore s))) = [])"
proof -
  have "timeUnixMilli clock' + w \<le> timeUnixMilli clock + w" if "clock' \<le> clock" for w
    using zdiv_mono1 [OF that, of 1000000] by (simp add: timeUnixMilli_def)
  then show ?thesis
    by (auto simp: checkExpiry_def Let_def expiryDue_def filter_empty_conv not_less split: if_splits)
qed

definition demoExpiring :: State where
  "demoExpiring = RegisterMarketExpiry ''m'' 1000 [''t''] (NewStateWithBalanceSync demoConfig)"

corollary expiry_fires_once_witness:
  "snd (checkExpiry (unixEpoch * 1000000000) 1000000000 demoExpiring) \<noteq> [] \<and>
   snd (checkExpiry (unixEpoch * 1000000000) 1000000000
     (fst (checkExpiry (unixEpoch * 1000000000) 1000000000 demoExpiring))) = []"
proof
  show "snd (checkExpiry (unixEpoch * 1000000000) 1000000000 demoExpiring) \<noteq> []" by code_simp
  show "snd (checkExpiry (unixEpoch * 1000000000) 1000000000
     (fst (checkExpiry (unixEpoch * 1000000000) 1000000000 demoExpiring))) = []"
    using expiry_fires_once [of 1000000000 _ "unixEpoch * 1000000000" demoExpiring "unixEpoch * 1000000000"] by simp
qed

end
