(* ===== verification/Window.thy ===== *)
theory Window
  imports Core
begin

text \<open>
  Bounded windows: the contract of a buffer that keeps the most recent values, and the two
  implementations of it, the ring buffer of \<^verbatim>\<open>internal/buffer/ring_buffer.go\<close> here and
  the bar series of the z-score indicator in \<open>Indicators\<close>.
\<close>

section \<open>The contract\<close>

definition lastN :: "nat \<Rightarrow> 'a list \<Rightarrow> 'a list" where
  "lastN n xs = drop (length xs - n) xs"

lemma length_lastN [simp]: "length (lastN n xs) = min n (length xs)"
  by (auto simp: lastN_def)

lemma lastN_all [simp]: "length xs \<le> n \<Longrightarrow> lastN n xs = xs"
  by (simp add: lastN_def)

lemma lastN_lastN_append: "lastN n (lastN n xs @ ys) = lastN n (xs @ ys)"
proof (cases "length xs \<le> n")
  case False
  then obtain m where m: "length xs = m + n" by (metis add.commute nat_le_linear le_iff_add)
  show ?thesis by (simp add: lastN_def m add.commute)
qed simp

lemma lastN_append:
  assumes "length ys \<le> n"
  shows "lastN n (xs @ ys) = lastN (n - length ys) xs @ ys"
proof -
  have "length xs + length ys - n = length xs - (n - length ys)" "length xs + length ys - n - length xs = 0"
    using assms by linarith+
  then show ?thesis by (simp add: lastN_def)
qed

text \<open>A window has an invariant, a capacity that pushing keeps, and contents of which pushing
  keeps the last ones.\<close>

locale window =
  fixes inv :: "'w \<Rightarrow> bool" and push :: "'a \<Rightarrow> 'w \<Rightarrow> 'w" and contents :: "'w \<Rightarrow> 'a list" and cap :: "'w \<Rightarrow> nat"
  assumes inv_push: "inv w \<Longrightarrow> inv (push v w)"
    and cap_push: "inv w \<Longrightarrow> cap (push v w) = cap w"
    and contents_push: "inv w \<Longrightarrow> contents (push v w) = lastN (cap w) (contents w @ [v])"
    and contents_bound: "inv w \<Longrightarrow> length (contents w) \<le> cap w"
begin

lemma inv_pushes: "inv w \<Longrightarrow> inv (fold push vs w) \<and> cap (fold push vs w) = cap w"
  by (induction vs arbitrary: w) (simp_all add: inv_push cap_push)

lemma contents_pushes: "inv w \<Longrightarrow> contents (fold push vs w) = lastN (cap w) (contents w @ vs)"
proof (induction vs arbitrary: w)
  case Nil
  then show ?case using contents_bound by simp
next
  case (Cons v vs)
  then show ?case
    by (simp add: inv_push cap_push contents_push lastN_lastN_append)
qed

lemma from_empty: "inv w \<Longrightarrow> contents w = [] \<Longrightarrow> contents (fold push vs w) = lastN (cap w) vs"
  by (simp add: contents_pushes)

end

section \<open>The ring buffer\<close>

record RingBuffer =
  rb_buf :: "float64 list"
  rb_size :: int
  rb_idx :: int
  rb_count :: int

text \<open>\<^verbatim>\<open>NewRingBuffer\<close> panics on a size that is not positive: \<open>None\<close>.\<close>

definition NewRingBuffer :: "int \<Rightarrow> RingBuffer option" where
  "NewRingBuffer sz =
    (if sz \<le> 0 then None
     else Some \<lparr>rb_buf = replicate (nat sz) 0, rb_size = sz, rb_idx = 0, rb_count = 0\<rparr>)"

definition rbAdd :: "float64 \<Rightarrow> RingBuffer \<Rightarrow> RingBuffer" where
  "rbAdd v r =
    (let r = r\<lparr>rb_buf := (rb_buf r)[nat (rb_idx r) := v]\<rparr>;
         r = r\<lparr>rb_idx := (rb_idx r + 1) mod rb_size r\<rparr>
     in if rb_count r < rb_size r then r\<lparr>rb_count := rb_count r + 1\<rparr> else r)"

text \<open>The loop of \<^verbatim>\<open>Values\<close> and \<^verbatim>\<open>Last\<close>: the last \<open>n\<close> values, oldest first.\<close>

definition rbRead :: "int \<Rightarrow> RingBuffer \<Rightarrow> float64 list" where
  "rbRead n r = map (\<lambda>i. rb_buf r ! nat ((rb_idx r - n + i + rb_size r) mod rb_size r)) [0..n - 1]"

definition rbValues :: "RingBuffer \<Rightarrow> float64 list" where
  "rbValues r = rbRead (rb_count r) r"

definition rbLast :: "int \<Rightarrow> RingBuffer \<Rightarrow> float64 list" where
  "rbLast n r =
    (if n \<le> 0 \<or> rb_count r = 0 then []
     else let n = (if rb_count r < n then rb_count r else n) in rbRead n r)"

definition rbLatest :: "RingBuffer \<Rightarrow> float64 \<times> bool" where
  "rbLatest r =
    (if rb_count r = 0 then (0, False)
     else (rb_buf r ! nat ((rb_idx r - 1 + rb_size r) mod rb_size r), True))"

definition rbLen :: "RingBuffer \<Rightarrow> int" where
  "rbLen r = rb_count r"

definition rbCap :: "RingBuffer \<Rightarrow> int" where
  "rbCap r = rb_size r"

definition rbIsFull :: "RingBuffer \<Rightarrow> bool" where
  "rbIsFull r = (rb_count r = rb_size r)"

definition rbReset :: "RingBuffer \<Rightarrow> RingBuffer" where
  "rbReset r = r\<lparr>rb_idx := 0, rb_count := 0\<rparr>"

section \<open>The ring buffer is a window\<close>

definition rb_ok :: "RingBuffer \<Rightarrow> bool" where
  "rb_ok r \<longleftrightarrow> 0 < rb_size r \<and> int (length (rb_buf r)) = rb_size r \<and> 0 \<le> rb_idx r \<and> rb_idx r < rb_size r \<and>
     0 \<le> rb_count r \<and> rb_count r \<le> rb_size r"

lemma length_rbRead: "0 \<le> n \<Longrightarrow> length (rbRead n r) = nat n"
  by (simp add: rbRead_def)

lemma rbRead_nth:
  "0 \<le> n \<Longrightarrow> i < nat n \<Longrightarrow> rbRead n r ! i = rb_buf r ! nat ((rb_idx r - n + int i + rb_size r) mod rb_size r)"
  by (simp add: rbRead_def nth_upto)

text \<open>Reading fewer values reads the end of the longer reading.\<close>

lemma rbRead_lastN:
  assumes "0 \<le> n" and "n \<le> m"
  shows "rbRead n r = lastN (nat n) (rbRead m r)"
proof (rule nth_equalityI)
  fix i assume "i < length (rbRead n r)"
  then have i: "i < nat n" using assms by (simp add: length_rbRead)
  have len: "length (rbRead m r) = nat m" using assms by (intro length_rbRead) simp
  let ?j = "nat m - nat n + i"
  have "lastN (nat n) (rbRead m r) ! i = rbRead m r ! ?j"
    using i assms by (simp add: lastN_def len)
  also have "\<dots> = rb_buf r ! nat ((rb_idx r - m + int ?j + rb_size r) mod rb_size r)"
    using i assms by (intro rbRead_nth) auto
  also have "int ?j = m - n + int i" using i assms by simp
  finally show "rbRead n r ! i = lastN (nat n) (rbRead m r) ! i"
    using rbRead_nth [OF assms(1) i] by (simp add: algebra_simps)
qed (use assms in \<open>simp add: length_rbRead\<close>)

lemma rb_ok_Add: "rb_ok r \<Longrightarrow> rb_ok (rbAdd v r)"
  by (auto simp: rb_ok_def rbAdd_def Let_def)

lemma rb_frame [simp]:
  "rb_size (rbAdd v r) = rb_size r"
  "rb_idx (rbAdd v r) = (rb_idx r + 1) mod rb_size r"
  "rb_buf (rbAdd v r) = (rb_buf r)[nat (rb_idx r) := v]"
  by (simp_all add: rbAdd_def Let_def)

lemma rb_index_new:
  assumes "rb_ok r"
  shows "(rb_idx (rbAdd v r) - (k + 1) + k + rb_size r) mod rb_size r = rb_idx r"
proof -
  have "((rb_idx r + 1) mod rb_size r - 1 + rb_size r) mod rb_size r = (rb_idx r + 1 - 1) mod rb_size r"
    by (simp add: mod_diff_left_eq)
  then show ?thesis using assms by (simp add: rb_ok_def)
qed

lemma rb_index_old:
  "(rb_idx (rbAdd v r) - (k + 1) + i + rb_size r) mod rb_size r = (rb_idx r - k + i + rb_size r) mod rb_size r"
proof -
  have "((rb_idx r + 1) mod rb_size r + (i - (k + 1) + rb_size r)) mod rb_size r =
      (rb_idx r + 1 + (i - (k + 1) + rb_size r)) mod rb_size r"
    by (rule mod_add_left_eq)
  then show ?thesis by (simp add: algebra_simps)
qed

lemma rb_index_neq:
  assumes "rb_ok r" and "0 \<le> i" and "i < k" and "k < rb_size r"
  shows "(rb_idx r - k + i + rb_size r) mod rb_size r \<noteq> rb_idx r"
proof
  assume "(rb_idx r - k + i + rb_size r) mod rb_size r = rb_idx r"
  then have "(rb_idx r - k + i + rb_size r) mod rb_size r = rb_idx r mod rb_size r"
    using assms(1) by (simp add: rb_ok_def)
  then have "rb_size r dvd (rb_idx r - k + i + rb_size r) - rb_idx r"
    by (simp only: mod_eq_dvd_iff)
  then have "rb_size r dvd k - i"
    by (metis add_diff_cancel_left' diff_add_eq dvd_add_triv_right_iff dvd_diff_commute minus_diff_eq
        add.commute diff_diff_eq2)
  then show False using assms zdvd_imp_le [of "rb_size r" "k - i"] by auto
qed

lemma rbRead_Add:
  assumes "rb_ok r" and "0 \<le> k" and "k < rb_size r"
  shows "rbRead (k + 1) (rbAdd v r) = rbRead k r @ [v]"
proof (rule nth_equalityI)
  show "length (rbRead (k + 1) (rbAdd v r)) = length (rbRead k r @ [v])"
    using assms(2) by (simp add: length_rbRead)
  fix i assume "i < length (rbRead (k + 1) (rbAdd v r))"
  then have i: "i < nat (k + 1)" using assms(2) by (simp add: length_rbRead)
  have l: "rbRead (k + 1) (rbAdd v r) ! i =
      (rb_buf r)[nat (rb_idx r) := v] ! nat ((rb_idx (rbAdd v r) - (k + 1) + int i + rb_size r) mod rb_size r)"
    using rbRead_nth [of "k + 1" i "rbAdd v r"] i assms(2) by simp
  show "rbRead (k + 1) (rbAdd v r) ! i = (rbRead k r @ [v]) ! i"
  proof (cases "int i = k")
    case True
    then have "rbRead (k + 1) (rbAdd v r) ! i = (rb_buf r)[nat (rb_idx r) := v] ! nat (rb_idx r)"
      using l rb_index_new [OF assms(1), of v k] by simp
    moreover have "nat (rb_idx r) < length (rb_buf r)" using assms(1) by (auto simp: rb_ok_def)
    ultimately have "rbRead (k + 1) (rbAdd v r) ! i = v" by simp
    with True show ?thesis using assms(2) by (auto simp: nth_append length_rbRead)
  next
    case False
    then have ik: "int i < k" using i by auto
    let ?j = "(rb_idx r - k + int i + rb_size r) mod rb_size r"
    have "?j \<noteq> rb_idx r" using rb_index_neq [OF assms(1) _ ik assms(3)] by simp
    moreover have "0 \<le> ?j" "0 \<le> rb_idx r" using assms(1) by (simp_all add: rb_ok_def)
    ultimately have "nat (rb_idx r) \<noteq> nat ?j" by linarith
    then have "rbRead (k + 1) (rbAdd v r) ! i = rb_buf r ! nat ?j"
      unfolding l rb_index_old by (rule nth_list_update_neq)
    also have "\<dots> = rbRead k r ! i"
      using rbRead_nth [OF assms(2), of i r] ik by simp
    finally show ?thesis using ik assms(2) by (simp add: nth_append length_rbRead) linarith
  qed
qed

lemma rbValues_Add:
  assumes "rb_ok r"
  shows "rbValues (rbAdd v r) = lastN (nat (rb_size r)) (rbValues r @ [v])"
proof (cases "rb_count r < rb_size r")
  case True
  then have c: "rb_count (rbAdd v r) = rb_count r + 1" by (simp add: rbAdd_def Let_def)
  have n: "0 \<le> rb_count r" using assms by (simp add: rb_ok_def)
  then have "length (rbRead (rb_count r) r @ [v]) \<le> nat (rb_size r)"
    using True by (simp add: length_rbRead Suc_le_eq nat_less_iff)
  then show ?thesis
    using rbRead_Add [OF assms n True, of v] by (simp only: rbValues_def c lastN_all)
next
  case False
  then have full: "rb_count r = rb_size r" "rb_count (rbAdd v r) = rb_size r"
    using assms by (auto simp: rb_ok_def rbAdd_def Let_def)
  let ?k = "rb_size r - 1"
  have k: "0 \<le> ?k" "?k < rb_size r" using assms by (auto simp: rb_ok_def)
  have "rbValues (rbAdd v r) = rbRead ?k r @ [v]"
    using rbRead_Add [OF assms k] full by (simp add: rbValues_def)
  also have "rbRead ?k r = lastN (nat ?k) (rbValues r)"
    using rbRead_lastN [OF k(1), of "rb_size r" r] full by (simp add: rbValues_def)
  finally show ?thesis
    using k full by (simp add: lastN_def rbValues_def length_rbRead nat_diff_distrib Suc_diff_le)
qed

interpretation ring: window rb_ok rbAdd rbValues "\<lambda>r. nat (rb_size r)"
proof unfold_locales
  fix r assume "rb_ok r"
  then show "length (rbValues r) \<le> nat (rb_size r)"
    by (simp add: rbValues_def length_rbRead rb_ok_def nat_mono)
qed (simp_all add: rb_ok_Add rbValues_Add)

lemma New_ok: "NewRingBuffer sz = Some r \<Longrightarrow> rb_ok r \<and> rbValues r = [] \<and> rb_size r = sz"
  by (auto simp: NewRingBuffer_def rb_ok_def rbValues_def rbRead_def split: if_splits)

lemma rbLast_lastN:
  assumes "rb_ok r"
  shows "rbLast n r = lastN (nat n) (rbValues r)"
proof (cases "n \<le> 0 \<or> rb_count r = 0")
  case True
  then show ?thesis by (auto simp: rbLast_def rbValues_def rbRead_def lastN_def)
next
  case False
  then show ?thesis
    using rbRead_lastN [of "min n (rb_count r)" "rb_count r" r] assms
    by (auto simp: rbLast_def rbValues_def min_def rb_ok_def length_rbRead)
qed

section \<open>Properties\<close>



end
