(* ===== verification/Bus.thy ===== *)
theory Bus
  imports Core "HOL-Library.Word" "HOL-Library.Sublist"
begin

text \<open>
  The event bus of \<^verbatim>\<open>core/bus.go\<close>: subscribers with bounded channels, a publisher that
  never blocks, drop counters and the drop threshold.  A call holds the bus mutex, so the
  calls are modelled one at a time.  A channel is the list of the events it holds; a channel
  that was cancelled or closed stays readable for its subscriber and is kept apart.
\<close>

declare map_of_eq_Some_iff [simp del] Some_eq_map_of_iff [simp del]

section \<open>Data\<close>

type_synonym subID = "64 word"

record 'e EventBus =
  eb_subs :: "(subID, 'e list) gomap"
  eb_detached :: "(subID, 'e list) gomap"
  eb_nextID :: subID
  eb_closed :: bool
  eb_published :: "64 word"
  eb_dropped :: "64 word"
  eb_lastWarnedAtDrop :: "64 word"
  eb_DropThreshold :: "64 word"
  eb_hasHandler :: bool

record BusStats =
  bst_Subscribers :: int
  bst_Published :: "64 word"
  bst_Dropped :: "64 word"

definition channelCap :: nat where
  "channelCap = 1024"

definition NewEventBus :: "'e EventBus" where
  "NewEventBus = \<lparr>eb_subs = [], eb_detached = [], eb_nextID = 0, eb_closed = False, eb_published = 0,
     eb_dropped = 0, eb_lastWarnedAtDrop = 0, eb_DropThreshold = 0, eb_hasHandler = False\<rparr>"

section \<open>Operations\<close>

text \<open>The result is the subscriber's id; \<open>None\<close> is the closed channel a closed bus returns.\<close>

definition SubscribeWithCancel :: "'e EventBus \<Rightarrow> 'e EventBus \<times> subID option" where
  "SubscribeWithCancel b =
    (if eb_closed b then (b, None)
     else let i = eb_nextID b
          in (b\<lparr>eb_nextID := i + 1, eb_subs := gput i [] (eb_subs b)\<rparr>, Some i))"

definition Subscribe :: "'e EventBus \<Rightarrow> 'e EventBus \<times> subID option" where
  "Subscribe b = SubscribeWithCancel b"

text \<open>The cancel function of a subscription; \<^verbatim>\<open>delete\<close> on a missing key does nothing, so a
  second call is harmless.\<close>

definition cancelSub :: "subID \<Rightarrow> 'e EventBus \<Rightarrow> 'e EventBus" where
  "cancelSub i b =
    (case map_of (eb_subs b) i of
       None \<Rightarrow> b
     | Some ch \<Rightarrow> b\<lparr>eb_subs := gdel i (eb_subs b), eb_detached := gput i ch (eb_detached b)\<rparr>)"

text \<open>A dropped event: the counter, and the call of \<^verbatim>\<open>OnDropThreshold\<close> when the total has
  passed another multiple of the threshold.\<close>

definition countDrop :: "'e EventBus \<Rightarrow> 'e EventBus \<times> 64 word list" where
  "countDrop b =
    (let b = b\<lparr>eb_dropped := eb_dropped b + 1\<rparr> in
     if 0 < eb_DropThreshold b \<and> eb_hasHandler b then
       (let total' = eb_dropped b; last' = eb_lastWarnedAtDrop b in
        if last' div eb_DropThreshold b < total' div eb_DropThreshold b
        then (b\<lparr>eb_lastWarnedAtDrop := total'\<rparr>, [total']) else (b, []))
     else (b, []))"

text \<open>The \<^verbatim>\<open>select\<close> for one subscriber: send when the channel has room, else count a drop.\<close>

fun publishLoop :: "'e \<Rightarrow> (subID, 'e list) gomap \<Rightarrow> 'e EventBus \<Rightarrow> 'e EventBus \<times> 64 word list" where
  "publishLoop e [] b = (b, [])"
| "publishLoop e ((i, ch) # rest) b =
     (if length ch < channelCap
      then publishLoop e rest (b\<lparr>eb_subs := gput i (ch @ [e]) (eb_subs b)\<rparr>)
      else let (b, w) = countDrop b; (b, ws) = publishLoop e rest b in (b, w @ ws))"

definition Publish :: "'e \<Rightarrow> 'e EventBus \<Rightarrow> 'e EventBus \<times> 64 word list" where
  "Publish e b =
    (let b = b\<lparr>eb_published := eb_published b + 1\<rparr> in
     if eb_closed b then (b, []) else publishLoop e (eb_subs b) b)"

definition Close :: "'e EventBus \<Rightarrow> 'e EventBus" where
  "Close b =
    (if eb_closed b then b
     else b\<lparr>eb_closed := True, eb_subs := [], eb_detached := eb_subs b @ eb_detached b\<rparr>)"

definition Stats :: "'e EventBus \<Rightarrow> BusStats" where
  "Stats b = \<lparr>bst_Subscribers = int (length (eb_subs b)), bst_Published = eb_published b,
     bst_Dropped = eb_dropped b\<rparr>"

text \<open>A subscriber reads its channel.\<close>

definition busReceive :: "subID \<Rightarrow> 'e EventBus \<Rightarrow> 'e EventBus \<times> 'e option" where
  "busReceive i b =
    (case map_of (eb_subs b) i of
       Some (e # es) \<Rightarrow> (b\<lparr>eb_subs := gput i es (eb_subs b)\<rparr>, Some e)
     | Some [] \<Rightarrow> (b, None)
     | None \<Rightarrow>
         (case map_of (eb_detached b) i of
            Some (e # es) \<Rightarrow> (b\<lparr>eb_detached := gput i es (eb_detached b)\<rparr>, Some e)
          | _ \<Rightarrow> (b, None)))"

section \<open>One publication\<close>

definition offer :: "'e \<Rightarrow> 'e list \<Rightarrow> 'e list" where
  "offer e ch = (if length ch < channelCap then ch @ [e] else ch)"

definition fullChannels :: "(subID, 'e list) gomap \<Rightarrow> nat" where
  "fullChannels m = length (filter (\<lambda>(i, ch). channelCap \<le> length ch) m)"

lemma countDrop_frame [simp]:
  "eb_subs (fst (countDrop b)) = eb_subs b" "eb_closed (fst (countDrop b)) = eb_closed b"
  "eb_nextID (fst (countDrop b)) = eb_nextID b" "eb_published (fst (countDrop b)) = eb_published b"
  "eb_detached (fst (countDrop b)) = eb_detached b" "eb_dropped (fst (countDrop b)) = eb_dropped b + 1"
  "eb_DropThreshold (fst (countDrop b)) = eb_DropThreshold b" "eb_hasHandler (fst (countDrop b)) = eb_hasHandler b"
  by (simp_all add: countDrop_def Let_def)

lemma publishLoop_Cons:
  "publishLoop e ((i, ch) # rest) b =
     (if length ch < channelCap then publishLoop e rest (b\<lparr>eb_subs := gput i (ch @ [e]) (eb_subs b)\<rparr>)
      else (fst (publishLoop e rest (fst (countDrop b))), snd (countDrop b) @ snd (publishLoop e rest (fst (countDrop b)))))"
  by (simp add: split_beta)

lemma publishLoop_frame [simp]:
  "eb_closed (fst (publishLoop e m b)) = eb_closed b" "eb_nextID (fst (publishLoop e m b)) = eb_nextID b"
  "eb_published (fst (publishLoop e m b)) = eb_published b" "eb_detached (fst (publishLoop e m b)) = eb_detached b"
  "eb_DropThreshold (fst (publishLoop e m b)) = eb_DropThreshold b"
  "eb_hasHandler (fst (publishLoop e m b)) = eb_hasHandler b"
  by (induction m arbitrary: b) (auto simp: publishLoop_Cons simp del: publishLoop.simps(2) split: if_splits)

lemma publishLoop_dropped: "eb_dropped (fst (publishLoop e m b)) = eb_dropped b + of_nat (fullChannels m)"
  by (induction m arbitrary: b)
    (auto simp: publishLoop_Cons fullChannels_def algebra_simps simp del: publishLoop.simps(2))

lemma publishLoop_lookup:
  "gmap_ok m \<Longrightarrow> (\<And>i. ghas m i \<Longrightarrow> map_of (eb_subs b) i = map_of m i) \<Longrightarrow>
   map_of (eb_subs (fst (publishLoop e m b))) i =
     (if ghas m i then map_option (offer e) (map_of m i) else map_of (eb_subs b) i)"
proof (induction m arbitrary: b)
  case (Cons a rest)
  obtain j ch where a: "a = (j, ch)" by fastforce
  have j: "map_of rest j = None" and ok: "gmap_ok rest" using Cons.prems(1) a by (auto simp: map_of_eq_None_iff)
  have full: "map_of (eb_subs b) j = Some ch" using Cons.prems(2) [of j] a by (simp add: ghas_def)
  have rest: "map_of (eb_subs b) k = map_of rest k" if "ghas rest k" for k
    using Cons.prems(2) [of k] that a j by (auto simp: ghas_def)
  have put: "map_of (eb_subs (b\<lparr>eb_subs := gput j (ch @ [e]) (eb_subs b)\<rparr>)) k = map_of rest k" if "ghas rest k" for k
    using rest [OF that] that j by (auto simp: update_conv' ghas_def)
  show ?case
  proof (cases "length ch < channelCap")
    case True
    from Cons.IH [OF ok put] True j show ?thesis
      by (auto simp: a publishLoop_Cons ghas_def offer_def update_conv' simp del: publishLoop.simps(2))
  next
    case False
    from Cons.IH [OF ok, of "fst (countDrop b)"] rest False j full show ?thesis
      by (auto simp: a publishLoop_Cons ghas_def offer_def simp del: publishLoop.simps(2))
  qed
qed (simp add: ghas_def)

lemma Publish_subs:
  assumes "gmap_ok (eb_subs b)"
  shows "map_of (eb_subs (fst (Publish e b))) i =
    (if eb_closed b then map_of (eb_subs b) i else map_option (offer e) (map_of (eb_subs b) i))"
  using publishLoop_lookup [OF assms, where b = "b\<lparr>eb_published := eb_published b + 1\<rparr>" and e = e and i = i]
  by (auto simp: Publish_def Let_def ghas_def)

section \<open>Runs of the bus\<close>

datatype 'e busOp = OpSubscribe | OpCancel subID | OpPublish 'e | OpReceive subID | OpClose

text \<open>A run keeps, for each subscriber, the events it has received.\<close>

type_synonym 'e busRun = "'e EventBus \<times> (subID \<Rightarrow> 'e list)"

fun busDo :: "'e busOp \<Rightarrow> 'e busRun \<Rightarrow> 'e busRun" where
  "busDo OpSubscribe (b, got) = (fst (SubscribeWithCancel b), got)"
| "busDo (OpCancel i) (b, got) = (cancelSub i b, got)"
| "busDo (OpPublish e) (b, got) = (fst (Publish e b), got)"
| "busDo (OpReceive i) (b, got) =
     (let (b', r) = busReceive i b in (b', case r of None \<Rightarrow> got | Some e \<Rightarrow> got(i := got i @ [e])))"
| "busDo OpClose (b, got) = (Close b, got)"

fun publishedBy :: "'e busOp \<Rightarrow> 'e list" where
  "publishedBy (OpPublish e) = [e]"
| "publishedBy _ = []"

abbreviation published :: "'e busOp list \<Rightarrow> 'e list" where
  "published ops \<equiv> concat (map publishedBy ops)"

text \<open>What a subscriber has received or can still receive.\<close>

definition channelOf :: "subID \<Rightarrow> 'e EventBus \<Rightarrow> 'e list" where
  "channelOf i b = (case map_of (eb_subs b) i of Some ch \<Rightarrow> ch | None \<Rightarrow> gget [] (eb_detached b) i)"

definition stream :: "subID \<Rightarrow> 'e busRun \<Rightarrow> 'e list" where
  "stream i r = snd r i @ channelOf i (fst r)"

text \<open>The well-formed bus: distinct ids, no channel over its capacity, and ids not yet handed
  out are unused.\<close>

definition bus_ok :: "'e EventBus \<Rightarrow> bool" where
  "bus_ok b \<longleftrightarrow> gmap_ok (eb_subs b) \<and> gmap_ok (eb_detached b) \<and>
     gall (\<lambda>i ch. length ch \<le> channelCap \<and> i < eb_nextID b \<and> \<not> ghas (eb_detached b) i) (eb_subs b) \<and>
     gall (\<lambda>i ch. length ch \<le> channelCap \<and> i < eb_nextID b) (eb_detached b) \<and>
     (eb_closed b \<longrightarrow> eb_subs b = [])"

lemma bus_okD:
  assumes "bus_ok b"
  shows "gmap_ok (eb_subs b)" "gmap_ok (eb_detached b)"
    "map_of (eb_subs b) i = Some ch \<Longrightarrow> length ch \<le> channelCap \<and> i < eb_nextID b \<and> map_of (eb_detached b) i = None"
    "map_of (eb_detached b) i = Some ch \<Longrightarrow> length ch \<le> channelCap \<and> i < eb_nextID b"
    "eb_closed b \<Longrightarrow> eb_subs b = []"
  using assms unfolding bus_ok_def by (auto simp: ghas_def dest: gall_lookup)

lemma bus_okI:
  assumes "gmap_ok (eb_subs b)" "gmap_ok (eb_detached b)"
    "\<And>i ch. map_of (eb_subs b) i = Some ch \<Longrightarrow> length ch \<le> channelCap \<and> i < eb_nextID b \<and> map_of (eb_detached b) i = None"
    "\<And>i ch. map_of (eb_detached b) i = Some ch \<Longrightarrow> length ch \<le> channelCap \<and> i < eb_nextID b"
    "eb_closed b \<Longrightarrow> eb_subs b = []"
  shows "bus_ok b"
  using assms(3-5) unfolding bus_ok_def gall_iff [OF assms(1)] gall_iff [OF assms(2)]
  by (auto simp: assms(1,2) ghas_def)

lemma publishLoop_ok: "gmap_ok (eb_subs b) \<Longrightarrow> gmap_ok (eb_subs (fst (publishLoop e m b)))"
  by (induction m arbitrary: b)
    (auto simp: publishLoop_Cons distinct_update simp del: publishLoop.simps(2))

lemma bus_ok_Publish:
  assumes "bus_ok b"
  shows "bus_ok (fst (Publish e b))"
proof (rule bus_okI)
  note d = bus_okD [OF assms]
  show "gmap_ok (eb_subs (fst (Publish e b)))" "gmap_ok (eb_detached (fst (Publish e b)))"
    using d(1,2) by (auto simp: Publish_def Let_def publishLoop_ok)
  show "eb_closed (fst (Publish e b)) \<Longrightarrow> eb_subs (fst (Publish e b)) = []"
    using d(5) by (auto simp: Publish_def Let_def split: if_splits)
  have f: "eb_nextID (fst (Publish e b)) = eb_nextID b" "eb_detached (fst (Publish e b)) = eb_detached b"
    by (simp_all add: Publish_def Let_def)
  fix i ch
  show "map_of (eb_detached (fst (Publish e b))) i = Some ch \<Longrightarrow> length ch \<le> channelCap \<and> i < eb_nextID (fst (Publish e b))"
    using d(4) unfolding f .
  show "map_of (eb_subs (fst (Publish e b))) i = Some ch \<Longrightarrow>
      length ch \<le> channelCap \<and> i < eb_nextID (fst (Publish e b)) \<and> map_of (eb_detached (fst (Publish e b))) i = None"
    using d(3) [of i] unfolding f Publish_subs [OF d(1)] by (auto simp: offer_def split: if_splits)
qed

lemma bus_ok_Subscribe:
  assumes "bus_ok b" and "eb_nextID b < eb_nextID b + 1"
  shows "bus_ok (fst (SubscribeWithCancel b))"
proof (cases "eb_closed b")
  case False
  note d = bus_okD [OF assms(1)]
  have "map_of (eb_detached b) (eb_nextID b) = None" using d(4) [of "eb_nextID b"] by (cases "map_of (eb_detached b) (eb_nextID b)") auto
  then show ?thesis
    using False d assms(2)
    by (intro bus_okI)
      (auto simp: SubscribeWithCancel_def Let_def distinct_update update_conv' split: if_splits
        dest!: d(3) d(4) intro: less_trans)
qed (simp add: SubscribeWithCancel_def assms)

lemma bus_ok_cancel:
  assumes "bus_ok b"
  shows "bus_ok (cancelSub i b)"
proof (cases "map_of (eb_subs b) i")
  case (Some ch)
  note d = bus_okD [OF assms]
  show ?thesis
    using d d(3) [OF Some] Some
    by (intro bus_okI)
      (auto simp: cancelSub_def distinct_update distinct_delete update_conv' delete_conv' split: if_splits
        dest: d(3) d(4))
qed (simp add: cancelSub_def assms)

lemma bus_ok_Close:
  assumes "bus_ok b"
  shows "bus_ok (Close b)"
proof (cases "eb_closed b")
  case False
  note d = bus_okD [OF assms]
  have disj: "fst ` set (eb_subs b) \<inter> fst ` set (eb_detached b) = {}"
    using d(1,3) by (auto simp: map_of_eq_None_iff image_iff) (metis d(1) fst_conv map_of_eq_Some_iff)
  show ?thesis
    using False d(1,2) disj
    by (intro bus_okI) (auto simp: Close_def map_add_def split: option.splits dest: d(3) d(4))
qed (simp add: Close_def assms)

lemma bus_ok_receive:
  assumes "bus_ok b"
  shows "bus_ok (fst (busReceive i b))"
proof -
  note d = bus_okD [OF assms]
  have subs: "bus_ok (b\<lparr>eb_subs := gput i es (eb_subs b)\<rparr>)" if "map_of (eb_subs b) i = Some (x # es)" for x es
    using d d(3) [OF that] that
    by (intro bus_okI) (auto simp: distinct_update update_conv' split: if_splits dest: d(3) d(4))
  have det: "bus_ok (b\<lparr>eb_detached := gput i es (eb_detached b)\<rparr>)"
    if "map_of (eb_detached b) i = Some (x # es)" "map_of (eb_subs b) i = None" for x es
    using d d(4) [OF that(1)] that
    by (intro bus_okI) (auto simp: distinct_update update_conv' split: if_splits dest: d(3) d(4))
  show ?thesis
    using assms subs det by (auto simp: busReceive_def split: option.split list.split)
qed

section \<open>What a run delivers\<close>

text \<open>A new bus as the program configures it.\<close>

definition configuredBus :: "64 word \<Rightarrow> bool \<Rightarrow> 'e EventBus" where
  "configuredBus threshold handler = NewEventBus\<lparr>eb_DropThreshold := threshold, eb_hasHandler := handler\<rparr>"

definition run_ok :: "'e busOp list \<Rightarrow> 'e busRun \<Rightarrow> bool" where
  "run_ok ops r \<longleftrightarrow> bus_ok (fst r) \<and> unat (eb_nextID (fst r)) \<le> length ops \<and>
     (\<forall>i. subseq (stream i r) (published ops) \<and> (eb_nextID (fst r) \<le> i \<longrightarrow> stream i r = []))"

lemma run_ok_init: "run_ok [] (configuredBus th h, \<lambda>_. [])"
  by (simp add: run_ok_def configuredBus_def NewEventBus_def bus_ok_def stream_def channelOf_def gget_def)

lemma channelOf_Publish:
  "bus_ok b \<Longrightarrow> channelOf i (fst (Publish e b)) =
     (if ghas (eb_subs b) i then offer e (channelOf i b) else channelOf i b)"
  using Publish_subs [OF bus_okD(1), of b e i] bus_okD(5) [of b]
  by (auto simp: channelOf_def ghas_def Publish_def Let_def split: option.split)

lemma channelOf_cancel: "bus_ok b \<Longrightarrow> channelOf j (cancelSub i b) = channelOf j b"
  using bus_okD(3) [of b i]
  by (cases "map_of (eb_subs b) i") (auto simp: cancelSub_def channelOf_def delete_conv' gget_def update_conv' split: option.split)

lemma channelOf_Close: "channelOf j (Close b) = channelOf j b"
  by (cases "map_of (eb_subs b) j") (simp_all add: Close_def channelOf_def gget_def map_add_def)

text \<open>A receive takes the head of the subscriber's channel.\<close>

lemma receive_head: "snd (busReceive i b) = (case channelOf i b of [] \<Rightarrow> None | e # es \<Rightarrow> Some e)"
  by (cases "map_of (eb_subs b) i"; cases "map_of (eb_detached b) i")
    (simp_all add: busReceive_def channelOf_def gget_def split: list.split)

lemma receive_rest: "channelOf j (fst (busReceive i b)) = (if j = i then tl (channelOf i b) else channelOf j b)"
proof (cases "map_of (eb_subs b) i")
  case (Some ch)
  then show ?thesis by (cases ch) (simp_all add: busReceive_def channelOf_def update_conv' split: option.split)
next
  case None
  show ?thesis
  proof (cases "map_of (eb_detached b) i")
    case (Some ch)
    with None show ?thesis by (cases ch) (simp_all add: busReceive_def channelOf_def gget_def update_conv' split: option.split)
  qed (simp_all add: None busReceive_def channelOf_def gget_def)
qed

lemma stream_receive: "stream j (busDo (OpReceive i) r) = stream j r"
proof -
  obtain b got where r: "r = (b, got)" by fastforce
  show ?thesis
    by (cases "channelOf i b") (simp_all add: r stream_def split_beta receive_head receive_rest)
qed

lemma subscribe_stream:
  assumes "run_ok ops r"
  shows "stream j (busDo OpSubscribe r) = stream j r"
proof -
  obtain b got where r: "r = (b, got)" by fastforce
  have "got (eb_nextID b) = [] \<and> channelOf (eb_nextID b) b = []"
    using assms by (auto simp: run_ok_def r stream_def)
  then show ?thesis
    by (auto simp: r SubscribeWithCancel_def Let_def stream_def channelOf_def update_conv' split: option.split)
qed

lemma unat_suc_word: "unat w < 2 ^ 64 - 1 \<Longrightarrow> unat (w + 1) = Suc (unat w)" for w :: "64 word"
  by (simp add: unat_word_ariths)

lemma subscribe_next: "unat w < 2 ^ 64 - 1 \<Longrightarrow> w < w + 1 \<and> unat (w + 1) = Suc (unat w)" for w :: "64 word"
  by (simp add: unat_suc_word word_less_nat_alt)

lemma frame_nextID [simp]:
  "eb_nextID (fst (Publish e b)) = eb_nextID b" "eb_nextID (cancelSub i b) = eb_nextID b"
  "eb_nextID (Close b) = eb_nextID b" "eb_nextID (fst (busReceive i b)) = eb_nextID b"
  by (auto simp: Publish_def Let_def cancelSub_def Close_def busReceive_def split: option.split list.split)

lemma run_ok_step:
  assumes "run_ok ops r" and "length ops < 2 ^ 64 - 1"
  shows "run_ok (ops @ [c]) (busDo c r)"
proof -
  obtain b got where r: "r = (b, got)" by fastforce
  have ok: "bus_ok b" and n: "unat (eb_nextID b) \<le> length ops"
    and str: "\<And>i. subseq (stream i r) (published ops)" "\<And>i. eb_nextID b \<le> i \<Longrightarrow> stream i r = []"
    using assms(1) by (auto simp: run_ok_def r)
  show ?thesis
  proof (cases c)
    case OpSubscribe
    have "unat (eb_nextID b) < 2 ^ 64 - 1" using n assms(2) by simp
    then have nx: "eb_nextID b < eb_nextID b + 1" "unat (eb_nextID b + 1) = Suc (unat (eb_nextID b))"
      using subscribe_next by auto
    have "unat (eb_nextID (fst (SubscribeWithCancel b))) \<le> Suc (length ops)"
      "eb_nextID b \<le> eb_nextID (fst (SubscribeWithCancel b))"
      using n nx by (auto simp: SubscribeWithCancel_def Let_def)
    then show ?thesis
      using bus_ok_Subscribe [OF ok nx(1)] str subscribe_stream [OF assms(1)]
      by (auto simp: run_ok_def OpSubscribe r dest: order_trans)
  next
    case (OpCancel i)
    then show ?thesis
      using bus_ok_cancel [OF ok] n str by (simp add: run_ok_def r stream_def channelOf_cancel [OF ok])
  next
    case (OpPublish e)
    have "subseq (stream i (busDo c r)) (published ops @ [e])" for i
      using str(1) [of i]
      by (auto simp: OpPublish r stream_def channelOf_Publish [OF ok] offer_def subseq_append_le_same_iff
          simp flip: append_assoc intro: list_emb_append2 subseq_rev_drop_many)
    moreover have "stream i (busDo c r) = []" if "eb_nextID b \<le> i" for i
      using str(2) [OF that] bus_okD(3) [OF ok, of i] that
      by (auto simp: OpPublish r stream_def channelOf_Publish [OF ok] ghas_def)
    ultimately show ?thesis
      using bus_ok_Publish [OF ok] n by (simp add: run_ok_def OpPublish r)
  next
    case (OpReceive i)
    have s: "\<And>j. stream j (busDo (OpReceive i) r) = stream j r" by (rule stream_receive)
    have f: "fst (busDo (OpReceive i) r) = fst (busReceive i b)" by (simp add: r split_beta)
    show ?thesis
      using bus_ok_receive [OF ok] n str by (simp add: run_ok_def OpReceive s f)
  next
    case OpClose
    then show ?thesis
      using bus_ok_Close [OF ok] n str by (simp add: run_ok_def r stream_def channelOf_Close)
  qed
qed

lemma run_ok_run: "length ops < 2 ^ 64 \<Longrightarrow> run_ok ops (fold busDo ops (configuredBus th h, \<lambda>_. []))"
  by (induction ops rule: rev_induct) (simp_all add: run_ok_init run_ok_step)

section \<open>Drop warnings\<close>

definition warned_ok :: "'e EventBus \<Rightarrow> bool" where
  "warned_ok b \<longleftrightarrow> 0 < eb_DropThreshold b \<and> eb_hasHandler b \<and>
     unat (eb_lastWarnedAtDrop b) div unat (eb_DropThreshold b) = unat (eb_dropped b) div unat (eb_DropThreshold b)"

lemma div_suc_step: "0 < t \<Longrightarrow> m div t < Suc m div t \<Longrightarrow> Suc m div t = Suc (m div t) \<and> t dvd Suc m" for m t :: nat
  by (auto simp: div_Suc split: if_splits)

lemma countDrop_warns:
  assumes "warned_ok b" and "unat (eb_dropped b) < 2 ^ 64 - 1"
  shows "warned_ok (fst (countDrop b)) \<and>
    length (snd (countDrop b)) + unat (eb_dropped b) div unat (eb_DropThreshold b) =
      Suc (unat (eb_dropped b)) div unat (eb_DropThreshold b) \<and>
    (\<forall>w \<in> set (snd (countDrop b)). unat (eb_DropThreshold b) dvd unat w)"
proof -
  let ?t = "unat (eb_DropThreshold b)" and ?m = "unat (eb_dropped b)"
  have t: "0 < ?t" using assms(1) by (simp add: warned_ok_def word_less_nat_alt)
  have s: "unat (eb_dropped b + 1) = Suc ?m" by (rule unat_suc_word [OF assms(2)])
  have cond: "eb_lastWarnedAtDrop b div eb_DropThreshold b < (eb_dropped b + 1) div eb_DropThreshold b \<longleftrightarrow>
      ?m div ?t < Suc ?m div ?t"
    using assms(1) by (simp add: warned_ok_def word_less_nat_alt unat_div s)
  have le: "?m div ?t \<le> Suc ?m div ?t" by (simp add: div_le_mono)
  show ?thesis
  proof (cases "?m div ?t < Suc ?m div ?t")
    case True
    with div_suc_step [OF t True] assms(1) cond s show ?thesis
      by (simp add: countDrop_def Let_def warned_ok_def)
  next
    case False
    then have "?m div ?t = Suc ?m div ?t" using le by simp
    with False assms(1) cond s show ?thesis
      by (simp add: countDrop_def Let_def warned_ok_def)
  qed
qed

lemma publishLoop_warns:
  "warned_ok b \<Longrightarrow> unat (eb_dropped b) + fullChannels m < 2 ^ 64 \<Longrightarrow>
   warned_ok (fst (publishLoop e m b)) \<and>
   length (snd (publishLoop e m b)) + unat (eb_dropped b) div unat (eb_DropThreshold b) =
     (unat (eb_dropped b) + fullChannels m) div unat (eb_DropThreshold b) \<and>
   (\<forall>w \<in> set (snd (publishLoop e m b)). unat (eb_DropThreshold b) dvd unat w)"
proof (induction m arbitrary: b)
  case (Cons a rest)
  obtain i ch where a: "a = (i, ch)" by fastforce
  show ?case
  proof (cases "length ch < channelCap")
    case True
    then have "fullChannels (a # rest) = fullChannels rest" by (simp add: fullChannels_def a)
    with True Cons.IH [of "b\<lparr>eb_subs := gput i (ch @ [e]) (eb_subs b)\<rparr>"] Cons.prems show ?thesis
      by (simp add: a publishLoop_Cons warned_ok_def del: publishLoop.simps(2))
  next
    case False
    then have f: "fullChannels (a # rest) = Suc (fullChannels rest)" by (simp add: fullChannels_def a)
    have lt: "unat (eb_dropped b) < 2 ^ 64 - 1" using Cons.prems(2) f by simp
    have s: "unat (eb_dropped b + 1) = Suc (unat (eb_dropped b))" by (rule unat_suc_word [OF lt])
    have IH: "warned_ok (fst (publishLoop e rest (fst (countDrop b)))) \<and>
       length (snd (publishLoop e rest (fst (countDrop b)))) + Suc (unat (eb_dropped b)) div unat (eb_DropThreshold b) =
         (Suc (unat (eb_dropped b)) + fullChannels rest) div unat (eb_DropThreshold b) \<and>
       (\<forall>w \<in> set (snd (publishLoop e rest (fst (countDrop b)))). unat (eb_DropThreshold b) dvd unat w)"
      using Cons.IH [of "fst (countDrop b)"] countDrop_warns [OF Cons.prems(1) lt] Cons.prems(2) f s by simp
    with countDrop_warns [OF Cons.prems(1) lt] False f show ?thesis
      by (auto simp: a publishLoop_Cons simp del: publishLoop.simps(2))
  qed
qed (simp add: fullChannels_def)

section \<open>Properties\<close>



text \<open>One publication on an open bus gives the event to every registered subscriber with
  room and to no other, counts every refusal, and never blocks; on a closed bus it only counts.\<close>

theorem publish_delivers:
  assumes "bus_ok b"
  shows "let b' = fst (Publish e b) in
    map_of (eb_subs b') i = (if eb_closed b then map_of (eb_subs b) i else map_option (offer e) (map_of (eb_subs b) i)) \<and>
    eb_published b' = eb_published b + 1 \<and> eb_detached b' = eb_detached b \<and>
    eb_dropped b' = eb_dropped b + of_nat (if eb_closed b then 0 else fullChannels (eb_subs b))"
  using Publish_subs [OF bus_okD(1) [OF assms], of e i]
  by (auto simp: Let_def Publish_def publishLoop_dropped)

corollary publish_delivers_witness:
  "map_of (eb_subs (fst (Publish (7::nat) (fst (SubscribeWithCancel (configuredBus 0 False)))))) 0 = Some [7]"
proof -
  have ok: "bus_ok (fst (SubscribeWithCancel (configuredBus 0 False :: nat EventBus)))"
    by (simp add: SubscribeWithCancel_def configuredBus_def NewEventBus_def bus_ok_def Let_def)
  show ?thesis
    using publish_delivers [OF ok, of 7 0]
    by (simp add: Let_def SubscribeWithCancel_def configuredBus_def NewEventBus_def offer_def channelCap_def)
qed

text \<open>With a threshold and a handler set, and no concurrent publisher, the handler is called
  once for every multiple of the threshold that the drop counter reaches, with that multiple,
  until the 64-bit counter would wrap.\<close>

theorem drop_warnings_exact:
  assumes "warned_ok b" and "\<not> eb_closed b" and "unat (eb_dropped b) + fullChannels (eb_subs b) < 2 ^ 64"
  shows "let (b', ws) = Publish e b; t = unat (eb_DropThreshold b) in
    warned_ok b' \<and> length ws = unat (eb_dropped b') div t - unat (eb_dropped b) div t \<and> (\<forall>w \<in> set ws. t dvd unat w)"
proof -
  let ?b = "b\<lparr>eb_published := eb_published b + 1\<rparr>"
  have w: "warned_ok ?b" using assms(1) by (simp add: warned_ok_def)
  have "unat (eb_dropped b + of_nat (fullChannels (eb_subs b))) = unat (eb_dropped b) + fullChannels (eb_subs b)"
    using assms(3) by (simp add: unat_word_ariths unat_of_nat)
  then show ?thesis
    using publishLoop_warns [OF w, of "eb_subs b" e] assms(2,3)
    by (auto simp: Publish_def Let_def split_beta publishLoop_dropped)
qed

definition fullBus :: "nat EventBus" where
  "fullBus = (configuredBus 1 True)\<lparr>eb_subs := [(0, replicate 1024 0)], eb_nextID := 1\<rparr>"

corollary drop_warnings_exact_witness:
  "length (snd (Publish 5 fullBus)) = 1 \<and> warned_ok (fst (Publish 5 fullBus))"
proof -
  have f: "fullChannels (eb_subs fullBus) = 1" by (simp add: fullBus_def fullChannels_def channelCap_def)
  have h: "warned_ok fullBus" "\<not> eb_closed fullBus" "unat (eb_dropped fullBus) + fullChannels (eb_subs fullBus) < 2 ^ 64"
    unfolding f by (simp_all add: fullBus_def warned_ok_def configuredBus_def NewEventBus_def)
  have "unat (eb_dropped (fst (Publish 5 fullBus))) = 1" "unat (eb_DropThreshold fullBus) = 1" "unat (eb_dropped fullBus) = 0"
    by (simp_all add: fullBus_def configuredBus_def NewEventBus_def Publish_def channelCap_def countDrop_def Let_def)
  with drop_warnings_exact [OF h, of 5] show ?thesis by (simp add: Let_def split_beta)
qed

end
