(* ===== verification/QueueMap.thy ===== *)
theory QueueMap
  imports Core
begin

text \<open>
  The bounded insertion-ordered map of \<^verbatim>\<open>strategy/queue_map.go\<close>: a Go map beside the queue
  of its keys.  It refines a plain list of key-value pairs in insertion order, of which the
  oldest is dropped when a new key arrives at capacity.
\<close>

declare map_of_eq_Some_iff [simp del] Some_eq_map_of_iff [simp del]

section \<open>Data and operations\<close>

record 'v QueueMap =
  qm_m :: "(string, 'v) gomap"
  qm_queue :: "string list"
  qm_max :: int

definition NewQueueMap :: "int \<Rightarrow> 'v QueueMap option" where
  "NewQueueMap mx = (if mx \<le> 0 then None else Some \<lparr>qm_m = [], qm_queue = [], qm_max = mx\<rparr>)"

definition qmAdd :: "string \<Rightarrow> 'v \<Rightarrow> 'v QueueMap \<Rightarrow> 'v QueueMap" where
  "qmAdd key value c =
    (if ghas (qm_m c) key then c\<lparr>qm_m := gput key value (qm_m c)\<rparr>
     else
       let c = (if qm_max c \<le> int (length (qm_queue c))
                then c\<lparr>qm_queue := tl (qm_queue c), qm_m := gdel (hd (qm_queue c)) (qm_m c)\<rparr> else c)
       in c\<lparr>qm_queue := qm_queue c @ [key], qm_m := gput key value (qm_m c)\<rparr>)"

definition qmGet :: "string \<Rightarrow> 'v QueueMap \<Rightarrow> 'v option" where
  "qmGet key c = map_of (qm_m c) key"

definition qmDelete :: "string \<Rightarrow> 'v QueueMap \<Rightarrow> 'v QueueMap" where
  "qmDelete key c =
    (if \<not> ghas (qm_m c) key then c
     else c\<lparr>qm_m := gdel key (qm_m c), qm_queue := remove1 key (qm_queue c)\<rparr>)"

definition qmLen :: "'v QueueMap \<Rightarrow> int" where
  "qmLen c = int (length (qm_queue c))"

definition qmHas :: "string \<Rightarrow> 'v QueueMap \<Rightarrow> bool" where
  "qmHas key c = ghas (qm_m c) key"

definition qmKeys :: "'v QueueMap \<Rightarrow> string list" where
  "qmKeys c = qm_queue c"

definition qmClear :: "'v QueueMap \<Rightarrow> 'v QueueMap" where
  "qmClear c = c\<lparr>qm_m := [], qm_queue := []\<rparr>"

section \<open>The contract\<close>

text \<open>A bounded store: a list of entries with distinct keys, oldest first, at most \<open>cap\<close> of
  them.  Adding a known key replaces its value in place; adding a new key at capacity drops the
  oldest entry.\<close>

definition fifoAdd :: "nat \<Rightarrow> 'k \<Rightarrow> 'v \<Rightarrow> ('k \<times> 'v) list \<Rightarrow> ('k \<times> 'v) list" where
  "fifoAdd cap k v es =
    (if ghas es k then gput k v es else (if cap \<le> length es then tl es else es) @ [(k, v)])"

lemma map_of_fifoAdd:
  "map_of (fifoAdd cap k v es) k' =
     (if k' = k then Some v else if ghas es k \<or> length es < cap then map_of es k' else map_of (tl es) k')"
proof (cases "ghas es k")
  case True
  then show ?thesis by (simp add: fifoAdd_def update_conv')
next
  case False
  then have "\<not> ghas (tl es) k" by (cases es) (auto simp: ghas_def split: if_splits)
  with False show ?thesis by (auto simp: fifoAdd_def ghas_def map_add_def split: option.split)
qed

locale bounded_store =
  fixes inv :: "'c \<Rightarrow> bool" and entries :: "'c \<Rightarrow> ('k \<times> 'v) list" and cap :: "'c \<Rightarrow> nat"
    and add :: "'k \<Rightarrow> 'v \<Rightarrow> 'c \<Rightarrow> 'c" and del :: "'k \<Rightarrow> 'c \<Rightarrow> 'c" and get :: "'k \<Rightarrow> 'c \<Rightarrow> 'v option"
  assumes cap_pos: "inv c \<Longrightarrow> 0 < cap c"
    and bound: "inv c \<Longrightarrow> length (entries c) \<le> cap c"
    and keys_distinct: "inv c \<Longrightarrow> gmap_ok (entries c)"
    and inv_add: "inv c \<Longrightarrow> inv (add k v c)" and cap_add: "inv c \<Longrightarrow> cap (add k v c) = cap c"
    and entries_add: "inv c \<Longrightarrow> entries (add k v c) = fifoAdd (cap c) k v (entries c)"
    and inv_del: "inv c \<Longrightarrow> inv (del k c)" and cap_del: "inv c \<Longrightarrow> cap (del k c) = cap c"
    and entries_del: "inv c \<Longrightarrow> entries (del k c) = gdel k (entries c)"
    and get_entries: "inv c \<Longrightarrow> get k c = map_of (entries c) k"
begin

lemma get_add_same: "inv c \<Longrightarrow> get k (add k v c) = Some v"
  by (simp add: get_entries inv_add entries_add map_of_fifoAdd)

lemma get_add_room:
  "inv c \<Longrightarrow> length (entries c) < cap c \<Longrightarrow> k' \<noteq> k \<Longrightarrow> get k' (add k v c) = get k' c"
  by (simp add: get_entries inv_add entries_add map_of_fifoAdd)

lemma get_del: "inv c \<Longrightarrow> get k' (del k c) = (if k' = k then None else get k' c)"
  by (simp add: get_entries inv_del entries_del delete_conv')

text \<open>The oldest entry is the only one that an addition can push out.\<close>

lemma get_add_evict:
  assumes "inv c" and "k' \<noteq> k" and "entries c \<noteq> [] \<Longrightarrow> k' \<noteq> fst (hd (entries c))"
  shows "get k' (add k v c) = get k' c"
proof -
  have "map_of (tl (entries c)) k' = map_of (entries c) k'"
    using assms(3) by (cases "entries c") auto
  then show ?thesis
    using assms(1,2) by (simp add: get_entries inv_add entries_add map_of_fifoAdd)
qed

end

section \<open>The queue map keeps it\<close>

definition qm_ok :: "'v QueueMap \<Rightarrow> bool" where
  "qm_ok c \<longleftrightarrow> 0 < qm_max c \<and> int (length (qm_queue c)) \<le> qm_max c \<and> distinct (qm_queue c) \<and>
     (\<forall>k. ghas (qm_m c) k \<longleftrightarrow> k \<in> set (qm_queue c))"

definition qmEntries :: "'v QueueMap \<Rightarrow> (string \<times> 'v) list" where
  "qmEntries c = map (\<lambda>k. (k, the (map_of (qm_m c) k))) (qm_queue c)"

lemma fst_qmEntries [simp]: "map fst (qmEntries c) = qm_queue c"
  by (simp add: qmEntries_def comp_def)

lemma map_of_tagged: "map_of (map (\<lambda>k. (k, f k)) ks) k = (if k \<in> set ks then Some (f k) else None)"
  by (induction ks) auto

lemma qm_get:
  assumes "qm_ok c"
  shows "qmGet k c = map_of (qmEntries c) k"
  using assms by (auto simp: qmGet_def qmEntries_def map_of_tagged qm_ok_def ghas_def)

lemma ghas_qmEntries: "qm_ok c \<Longrightarrow> ghas (qmEntries c) k \<longleftrightarrow> ghas (qm_m c) k"
  by (simp add: ghas_def qm_get [symmetric] qmGet_def)

lemma qm_ok_hd: "qm_ok c \<Longrightarrow> qm_max c \<le> int (length (qm_queue c)) \<Longrightarrow>
  \<exists>k ks. qm_queue c = k # ks \<and> k \<notin> set ks \<and> distinct ks"
  by (cases "qm_queue c") (auto simp: qm_ok_def)

lemma qm_ok_Add: "qm_ok c \<Longrightarrow> qm_ok (qmAdd k v c)"
proof (cases "ghas (qm_m c) k")
  case True
  assume "qm_ok c"
  with True show ?thesis by (auto simp: qm_ok_def qmAdd_def)
next
  case False
  assume ok: "qm_ok c"
  show ?thesis
  proof (cases "qm_max c \<le> int (length (qm_queue c))")
    case True
    obtain q qs where q: "qm_queue c = q # qs" "q \<notin> set qs" "distinct qs" using qm_ok_hd [OF ok True] by blast
    have e: "qmAdd k v c = c\<lparr>qm_queue := qs @ [k], qm_m := gput k v (gdel q (qm_m c))\<rparr>"
      using False True q by (simp add: qmAdd_def)
    have keys: "ghas (qm_m c) x \<longleftrightarrow> x = q \<or> x \<in> set qs" for x using ok q by (simp add: qm_ok_def)
    then have "k \<notin> set qs" "k \<noteq> q" using False by auto
    then show ?thesis using ok q keys unfolding e by (auto simp: qm_ok_def)
  next
    case room: False
    with False ok show ?thesis by (auto simp: qm_ok_def qmAdd_def Let_def)
  qed
qed

lemma gput_tagged:
  "k \<in> set ks \<Longrightarrow> distinct ks \<Longrightarrow>
   gput k v (map (\<lambda>x. (x, f x)) ks) = map (\<lambda>x. (x, if x = k then v else f x)) ks"
  by (induction ks) (auto intro!: map_cong)

lemma qmEntries_Add:
  assumes "qm_ok c"
  shows "qmEntries (qmAdd k v c) = fifoAdd (nat (qm_max c)) k v (qmEntries c)"
proof (cases "ghas (qm_m c) k")
  case True
  then have "k \<in> set (qm_queue c)" "distinct (qm_queue c)" using assms by (auto simp: qm_ok_def)
  from gput_tagged [OF this, of v "\<lambda>x. the (map_of (qm_m c) x)"]
  have "gput k v (qmEntries c) = map (\<lambda>x. (x, if x = k then v else the (map_of (qm_m c) x))) (qm_queue c)"
    by (simp add: qmEntries_def)
  moreover have "ghas (qmEntries c) k" using True ghas_qmEntries [OF assms] by simp
  ultimately show ?thesis
    using True by (auto simp: qmAdd_def fifoAdd_def qmEntries_def [of "c\<lparr>qm_m := gput k v (qm_m c)\<rparr>"]
        update_conv' intro!: map_cong)
next
  case False
  then have k: "k \<notin> set (qm_queue c)" using assms by (auto simp: qm_ok_def)
  have len: "length (qmEntries c) = length (qm_queue c)" by (simp add: qmEntries_def)
  have nh: "\<not> ghas (qmEntries c) k" using False ghas_qmEntries [OF assms] by simp
  show ?thesis
  proof (cases "qm_max c \<le> int (length (qm_queue c))")
    case True
    obtain q qs where q: "qm_queue c = q # qs" "q \<notin> set qs" using qm_ok_hd [OF assms True] by blast
    have e: "qmAdd k v c = c\<lparr>qm_queue := qs @ [k], qm_m := gput k v (gdel q (qm_m c))\<rparr>"
      using False True q by (simp add: qmAdd_def)
    have "fifoAdd (nat (qm_max c)) k v (qmEntries c) = tl (qmEntries c) @ [(k, v)]"
      using nh True len by (simp add: fifoAdd_def nat_le_iff)
    then show ?thesis
      using k q unfolding e by (auto simp: qmEntries_def update_conv' delete_conv' intro!: map_cong)
  next
    case room: False
    then have "fifoAdd (nat (qm_max c)) k v (qmEntries c) = qmEntries c @ [(k, v)]"
      using nh len by (simp add: fifoAdd_def nat_le_iff)
    with False room k show ?thesis
      by (auto simp: qmAdd_def qmEntries_def update_conv' intro!: map_cong)
  qed
qed

lemma qm_ok_Delete: "qm_ok c \<Longrightarrow> qm_ok (qmDelete k c)"
  by (auto simp: qm_ok_def qmDelete_def length_remove1 distinct_remove1 set_remove1_eq)

lemma gdel_tagged: "gdel k (map (\<lambda>x. (x, f x)) ks) = map (\<lambda>x. (x, f x)) (filter (\<lambda>x. x \<noteq> k) ks)"
  by (induction ks) auto

lemma qmEntries_Delete:
  assumes "qm_ok c"
  shows "qmEntries (qmDelete k c) = gdel k (qmEntries c)"
proof (cases "ghas (qm_m c) k")
  case True
  have "distinct (qm_queue c)" using assms by (simp add: qm_ok_def)
  with True show ?thesis
    by (auto simp: qmDelete_def qmEntries_def gdel_tagged distinct_remove1_removeAll removeAll_filter_not_eq
        delete_conv' intro!: map_cong filter_cong)
next
  case False
  then have "k \<notin> fst ` set (qmEntries c)" using assms by (simp add: qm_ok_def flip: set_map)
  with False show ?thesis by (simp add: qmDelete_def delete_id)
qed

interpretation qm: bounded_store qm_ok qmEntries "\<lambda>c. nat (qm_max c)" qmAdd qmDelete qmGet
proof unfold_locales
  fix c :: "'a QueueMap" assume ok: "qm_ok c"
  show "0 < nat (qm_max c)" "length (qmEntries c) \<le> nat (qm_max c)" "gmap_ok (qmEntries c)"
    using ok by (auto simp: qm_ok_def) (simp add: qmEntries_def)
  show "qmGet k c = map_of (qmEntries c) k" for k using ok by (rule qm_get)
  show "qmEntries (qmAdd k v c) = fifoAdd (nat (qm_max c)) k v (qmEntries c)" for k v
    using ok by (rule qmEntries_Add)
  show "nat (qm_max (qmAdd k v c)) = nat (qm_max c)" for k v by (simp add: qmAdd_def Let_def)
  show "nat (qm_max (qmDelete k c)) = nat (qm_max c)" for k by (simp add: qmDelete_def)
  show "qmEntries (qmDelete k c) = gdel k (qmEntries c)" for k using ok by (rule qmEntries_Delete)
qed (simp_all add: qm_ok_Add qm_ok_Delete)

section \<open>Properties\<close>



end
