(* ===== verification/Indicators.thy ===== *)
theory Indicators
  imports Window
begin

text \<open>
  Package \<^verbatim>\<open>indicators\<close>: the order-book imbalance and the z-score of the external price.
  \<^verbatim>\<open>math.Log\<close> and \<^verbatim>\<open>math.Sqrt\<close> are a parameter (\<open>mathlib\<close>); the values the
  model computes with are finite.
\<close>

section \<open>Order-book imbalance\<close>

record Book =
  bk_Price :: float64
  bk_Size :: float64

record OrderBook =
  ob_Bids :: "Book list"
  ob_Asks :: "Book list"

text \<open>The loop over the best levels, which stand at the end of the list.\<close>

definition topSizes :: "nat \<Rightarrow> Book list \<Rightarrow> float64" where
  "topSizes depth levels =
     fold (\<lambda>i acc. acc + bk_Size (levels ! (length levels - 1 - i))) [0..<depth] 0"

definition CalcImBalance :: "OrderBook option \<Rightarrow> int \<Rightarrow> float64" where
  "CalcImBalance orderBook topN =
    (case orderBook of
       None \<Rightarrow> 0
     | Some ob \<Rightarrow>
         if topN \<le> 0 then 0
         else let bids = ob_Bids ob; asks = ob_Asks ob in
           if bids = [] \<and> asks = [] then 0
           else if bids = [] then - 1
           else if asks = [] then 1
           else
             let bidSizeSum = topSizes (min (nat topN) (length bids)) bids;
                 askSizeSum = topSizes (min (nat topN) (length asks)) asks;
                 tot = bidSizeSum + askSizeSum
             in if tot \<le> 0 then 0 else (bidSizeSum - askSizeSum) / tot)"

lemma fold_add_nonneg:
  "0 \<le> acc \<Longrightarrow> (\<And>i. i \<in> set is \<Longrightarrow> 0 \<le> f i) \<Longrightarrow> 0 \<le> fold (\<lambda>i acc. acc + f i) is (acc :: float64)"
  by (induction "is" arbitrary: acc) auto

lemma topSizes_nonneg:
  assumes "\<forall>b \<in> set levels. 0 \<le> bk_Size b" and "n \<le> length levels"
  shows "0 \<le> topSizes n levels"
  unfolding topSizes_def using assms by (intro fold_add_nonneg) auto

lemma f_div_le_1: "- y \<le> x \<Longrightarrow> x \<le> y \<Longrightarrow> 0 < y \<Longrightarrow> - 1 \<le> x / y \<and> x / y \<le> (1 :: float64)"
proof (transfer, intro conjI)
  fix x y :: rat assume a: "- y \<le> x" "x \<le> y" "0 < y"
  have "- 1 \<le> x / y" "x / y \<le> 1" using a by (simp_all add: field_simps)
  then show "- 1 \<le> rnd64 (x / y)" "rnd64 (x / y) \<le> 1"
    using rnd64_mono [of "- 1" "x / y"] rnd64_mono [of "x / y" 1] by simp_all
qed

lemma f_diff_bounds:
  assumes "0 \<le> a" and "0 \<le> b"
  shows "a - b \<le> a + (b :: float64)" and "- (a + b) \<le> a - b"
proof -
  have "a - b \<le> a" "a \<le> a + b" using assms by (simp_all add: f_diff_decreasing f_add_increasing)
  then show "a - b \<le> a + b" by (rule order_trans)
  show "- (a + b) \<le> a - b"
    using assms by transfer (use rnd64_mono in \<open>force simp flip: rnd64_neg\<close>)
qed

section \<open>The z-score indicator\<close>

record mathlib =
  ml_Log :: "float64 \<Rightarrow> float64"
  ml_Sqrt :: "float64 \<Rightarrow> float64"

record Tick =
  tk_Price :: float64
  tk_Timestamp :: int

record Bar =
  bar_Second :: int
  bar_Price :: float64

record ZScore =
  zs_series :: "Bar list"
  zs_windowSize :: int
  zs_lastSec :: int
  zs_lastPrice :: float64

text \<open>\<^verbatim>\<open>make\<close> panics on a negative capacity.\<close>

definition NewZScore :: "int \<Rightarrow> ZScore option" where
  "NewZScore windowSize =
    (if windowSize < 0 then None
     else Some \<lparr>zs_series = [], zs_windowSize = windowSize, zs_lastSec = 0, zs_lastPrice = 0\<rparr>)"

definition pushBar :: "Bar \<Rightarrow> ZScore \<Rightarrow> ZScore" where
  "pushBar bar s =
    (let s = s\<lparr>zs_series := zs_series s @ [bar]\<rparr> in
     if zs_windowSize s < int (length (zs_series s)) then s\<lparr>zs_series := tl (zs_series s)\<rparr> else s)"

text \<open>Go's integer division truncates toward 0.\<close>

definition tickSecond :: "int \<Rightarrow> int" where
  "tickSecond ms = (if ms < 0 then - ((- ms) div 1000) else ms div 1000)"

definition OnTick :: "Tick \<Rightarrow> ZScore \<Rightarrow> ZScore" where
  "OnTick t s =
    (let sec = tickSecond (tk_Timestamp t) in
     if zs_lastSec s = 0 then s\<lparr>zs_lastSec := sec, zs_lastPrice := tk_Price t\<rparr>
     else if sec = zs_lastSec s then s\<lparr>zs_lastPrice := tk_Price t\<rparr>
     else
       let s = fold (\<lambda>i s. pushBar \<lparr>bar_Second = i, bar_Price = zs_lastPrice s\<rparr> s) [zs_lastSec s + 1..sec - 1] s;
           s = pushBar \<lparr>bar_Second = zs_lastSec s, bar_Price = zs_lastPrice s\<rparr> s
       in s\<lparr>zs_lastSec := sec, zs_lastPrice := tk_Price t\<rparr>)"

fun returnsOf :: "mathlib \<Rightarrow> float64 list \<Rightarrow> float64 list" where
  "returnsOf M (p1 # p2 # ps) =
     (if p1 = 0 then returnsOf M (p2 # ps) else ml_Log M (p2 / p1) # returnsOf M (p2 # ps))"
| "returnsOf M _ = []"

definition zReturns :: "mathlib \<Rightarrow> ZScore \<Rightarrow> float64 list" where
  "zReturns M s = (if length (zs_series s) < 2 then [] else returnsOf M (map bar_Price (zs_series s)))"

definition std :: "mathlib \<Rightarrow> float64 list \<Rightarrow> float64" where
  "std M data =
    (if data = [] then 0
     else
       let n = f64 (of_nat (length data));
           mean = fold (\<lambda>v acc. acc + v) data 0 / n;
           variance = fold (\<lambda>v acc. acc + (v - mean) * (v - mean)) data 0 / n
       in ml_Sqrt M variance)"

definition WindowSize :: "ZScore \<Rightarrow> int" where
  "WindowSize s = zs_windowSize s"

definition zSigma :: "mathlib \<Rightarrow> ZScore \<Rightarrow> float64" where
  "zSigma M s = std M (zReturns M s)"

definition minSigma :: float64 where
  "minSigma = f64 (1 / 100000)"

definition zscoreOf :: "mathlib \<Rightarrow> float64 \<Rightarrow> float64 \<Rightarrow> float64 \<Rightarrow> ZScore \<Rightarrow> float64" where
  "zscoreOf M currentPrice startPrice remainingSeconds s =
    (if startPrice = 0 \<or> remainingSeconds \<le> 0 then 0
     else
       let logReturn = ml_Log M (currentPrice / startPrice);
           sigma = max (zSigma M s) minSigma;
           scaledSigma = sigma * ml_Sqrt M remainingSeconds
       in if scaledSigma = 0 then 0 else logReturn / scaledSigma)"

definition IsReady :: "ZScore \<Rightarrow> bool" where
  "IsReady s = (zs_windowSize s div 2 \<le> int (length (zs_series s)))"

section \<open>The bar series is a window\<close>

definition zs_ok :: "ZScore \<Rightarrow> bool" where
  "zs_ok s \<longleftrightarrow> 0 \<le> zs_windowSize s \<and> int (length (zs_series s)) \<le> zs_windowSize s"

lemma pushBar_frame [simp]:
  "zs_windowSize (pushBar b s) = zs_windowSize s" "zs_lastSec (pushBar b s) = zs_lastSec s"
  "zs_lastPrice (pushBar b s) = zs_lastPrice s"
  by (simp_all add: pushBar_def Let_def)

lemma pushBar_series:
  "zs_ok s \<Longrightarrow> zs_series (pushBar b s) = lastN (nat (zs_windowSize s)) (zs_series s @ [b])"
proof (cases "zs_windowSize s < int (length (zs_series s)) + 1")
  case True
  assume "zs_ok s"
  with True have "zs_windowSize s = int (length (zs_series s))" by (simp add: zs_ok_def)
  then have "nat (zs_windowSize s) = length (zs_series s)" by simp
  with True show ?thesis by (cases "zs_series s") (simp_all add: pushBar_def Let_def lastN_def)
next
  case False
  then show ?thesis by (simp add: pushBar_def Let_def)
qed

interpretation bars: window zs_ok pushBar zs_series "\<lambda>s. nat (zs_windowSize s)"
proof unfold_locales
  fix s b assume ok: "zs_ok s"
  show "zs_ok (pushBar b s)" using ok pushBar_series [OF ok, of b] by (auto simp: zs_ok_def)
  show "length (zs_series s) \<le> nat (zs_windowSize s)" using ok by (simp add: zs_ok_def) linarith
qed (simp_all add: pushBar_series)

text \<open>The loop that fills the gap pushes bars at one price.\<close>

lemma gapfill_frame:
  "zs_lastPrice (fold (\<lambda>i s. pushBar \<lparr>bar_Second = i, bar_Price = zs_lastPrice s\<rparr> s) is s) = zs_lastPrice s"
  by (induction "is" arbitrary: s) simp_all

lemma fill_fold:
  "fold (\<lambda>i s. pushBar \<lparr>bar_Second = i, bar_Price = zs_lastPrice s\<rparr> s) is s =
   fold pushBar (map (\<lambda>i. \<lparr>bar_Second = i, bar_Price = zs_lastPrice s\<rparr>) is) s"
  by (induction "is" arbitrary: s) simp_all

lemma fold_pushBar_frame:
  "zs_windowSize (fold pushBar bs s) = zs_windowSize s" "zs_lastSec (fold pushBar bs s) = zs_lastSec s"
  "zs_lastPrice (fold pushBar bs s) = zs_lastPrice s"
  by (induction bs arbitrary: s) simp_all

text \<open>The bars one tick of a later second pushes.\<close>

definition gapBars :: "int \<Rightarrow> ZScore \<Rightarrow> Bar list" where
  "gapBars sec s = map (\<lambda>i. \<lparr>bar_Second = i, bar_Price = zs_lastPrice s\<rparr>) ([zs_lastSec s + 1..sec - 1] @ [zs_lastSec s])"

lemma OnTick_later:
  assumes "zs_lastSec s \<noteq> 0" and "tickSecond (tk_Timestamp t) \<noteq> zs_lastSec s"
  shows "OnTick t s = (fold pushBar (gapBars (tickSecond (tk_Timestamp t)) s) s)
    \<lparr>zs_lastSec := tickSecond (tk_Timestamp t), zs_lastPrice := tk_Price t\<rparr>"
  using assms by (simp add: OnTick_def Let_def fill_fold fold_pushBar_frame gapBars_def)

lemma zs_ok_OnTick: "zs_ok s \<Longrightarrow> zs_ok (OnTick t s)"
proof -
  assume ok: "zs_ok s"
  have upd: "zs_ok (s\<lparr>zs_lastSec := a\<rparr>) = zs_ok s" "zs_ok (s\<lparr>zs_lastPrice := b\<rparr>) = zs_ok s"
    for a b s by (simp_all add: zs_ok_def)
  show ?thesis
  proof (cases "zs_lastSec s = 0 \<or> tickSecond (tk_Timestamp t) = zs_lastSec s")
    case True
    then show ?thesis using ok by (auto simp: OnTick_def Let_def upd)
  next
    case False
    then show ?thesis using OnTick_later [of s t] bars.inv_pushes [OF ok] by (simp add: upd)
  qed
qed

section \<open>Properties\<close>

text \<open>With non-negative level sizes the imbalance lies between -1 and 1, for every depth and
  every book, empty sides included.\<close>

theorem imbalance_bounded:
  assumes "\<forall>ob. orderBook = Some ob \<longrightarrow> (\<forall>b \<in> set (ob_Bids ob @ ob_Asks ob). 0 \<le> bk_Size b)"
  shows "- 1 \<le> CalcImBalance orderBook topN \<and> CalcImBalance orderBook topN \<le> 1"
proof (cases orderBook)
  case None
  then show ?thesis by (simp add: CalcImBalance_def) (transfer, simp)
next
  case (Some ob)
  define b where "b = topSizes (min (nat topN) (length (ob_Bids ob))) (ob_Bids ob)"
  define a where "a = topSizes (min (nat topN) (length (ob_Asks ob))) (ob_Asks ob)"
  have "0 \<le> b" "0 \<le> a" unfolding a_def b_def using assms Some by (auto intro!: topSizes_nonneg)
  then have "\<not> b + a \<le> 0 \<Longrightarrow> - 1 \<le> (b - a) / (b + a) \<and> (b - a) / (b + a) \<le> 1"
    using f_diff_bounds [of b a] by (intro f_div_le_1) auto
  moreover have "- 1 \<le> (0 :: float64)" "- 1 \<le> (1 :: float64)" by (transfer, simp)+
  ultimately show ?thesis
    by (auto simp: CalcImBalance_def Some Let_def simp flip: a_def b_def)
qed

corollary imbalance_bounded_witness:
  "CalcImBalance (Some \<lparr>ob_Bids = [\<lparr>bk_Price = f64 (1/4), bk_Size = f64 6\<rparr>],
     ob_Asks = [\<lparr>bk_Price = f64 (1/2), bk_Size = f64 2\<rparr>]\<rparr>) 3 = f64 (1/2) \<and>
   CalcImBalance (Some \<lparr>ob_Bids = [\<lparr>bk_Price = f64 (1/4), bk_Size = f64 6\<rparr>],
     ob_Asks = [\<lparr>bk_Price = f64 (1/2), bk_Size = f64 2\<rparr>]\<rparr>) 3 \<le> 1"
proof
  show "CalcImBalance (Some \<lparr>ob_Bids = [\<lparr>bk_Price = f64 (1/4), bk_Size = f64 6\<rparr>],
     ob_Asks = [\<lparr>bk_Price = f64 (1/2), bk_Size = f64 2\<rparr>]\<rparr>) 3 = f64 (1/2)" by code_simp
  have "0 \<le> f64 6" "0 \<le> f64 2" by code_simp+
  then show "CalcImBalance (Some \<lparr>ob_Bids = [\<lparr>bk_Price = f64 (1/4), bk_Size = f64 6\<rparr>],
     ob_Asks = [\<lparr>bk_Price = f64 (1/2), bk_Size = f64 2\<rparr>]\<rparr>) 3 \<le> 1"
    using imbalance_bounded [of "Some \<lparr>ob_Bids = [\<lparr>bk_Price = f64 (1/4), bk_Size = f64 6\<rparr>],
       ob_Asks = [\<lparr>bk_Price = f64 (1/2), bk_Size = f64 2\<rparr>]\<rparr>" 3] by simp
qed

text \<open>C0. The price series of the z-score: a tick of a later second appends the price of the
  last second once per elapsed second and keeps the newest \<open>windowSize\<close> bars; a tick of the
  same second only replaces the pending price.\<close>

theorem zscore_series:
  assumes "zs_ok s" and "zs_lastSec s \<noteq> 0" and "zs_lastSec s \<le> tickSecond (tk_Timestamp t)"
  shows "let d = nat (tickSecond (tk_Timestamp t) - zs_lastSec s) in
    map bar_Price (zs_series (OnTick t s)) =
      lastN (nat (zs_windowSize s)) (map bar_Price (zs_series s) @ replicate d (zs_lastPrice s)) \<and>
    zs_lastPrice (OnTick t s) = tk_Price t \<and> zs_lastSec (OnTick t s) = tickSecond (tk_Timestamp t) \<and>
    zs_ok (OnTick t s)"
proof (cases "tickSecond (tk_Timestamp t) = zs_lastSec s")
  case True
  then show ?thesis
    using assms zs_ok_OnTick [OF assms(1)] by (auto simp: OnTick_def Let_def zs_ok_def nat_le_iff)
next
  case False
  let ?sec = "tickSecond (tk_Timestamp t)"
  have price: "map bar_Price (gapBars ?sec s) = replicate (nat (?sec - zs_lastSec s)) (zs_lastPrice s)"
  proof -
    have "nat (?sec - zs_lastSec s) = Suc (nat (?sec - 1 - zs_lastSec s))" using False assms(3) by linarith
    then show ?thesis
      by (simp add: gapBars_def comp_def map_replicate_const replicate_append_same algebra_simps)
  qed
  have lastN_map: "map f (lastN n xs) = lastN n (map f xs)" for f :: "Bar \<Rightarrow> float64" and n xs
    by (simp add: lastN_def drop_map)
  have ok: "zs_ok (OnTick t s)" by (rule zs_ok_OnTick [OF assms(1)])
  have f: "zs_lastPrice (OnTick t s) = tk_Price t" "zs_lastSec (OnTick t s) = ?sec"
    "zs_series (OnTick t s) = lastN (nat (zs_windowSize s)) (zs_series s @ gapBars ?sec s)"
    using bars.contents_pushes [OF assms(1), of "gapBars ?sec s"] by (simp_all add: OnTick_later [OF assms(2) False])
  show ?thesis unfolding Let_def using ok by (simp add: f lastN_map price)
qed

definition demoZ :: ZScore where
  "demoZ = \<lparr>zs_series = [\<lparr>bar_Second = 9, bar_Price = f64 4\<rparr>], zs_windowSize = 3, zs_lastSec = 10, zs_lastPrice = f64 5\<rparr>"

corollary zscore_series_witness:
  "map bar_Price (zs_series (OnTick \<lparr>tk_Price = f64 6, tk_Timestamp = 12500\<rparr> demoZ)) = [f64 4, f64 5, f64 5]"
proof -
  have h: "zs_ok demoZ" "zs_lastSec demoZ \<noteq> 0" "zs_lastSec demoZ \<le> tickSecond (tk_Timestamp \<lparr>tk_Price = f64 6, tk_Timestamp = 12500\<rparr>)"
    by (simp_all add: demoZ_def zs_ok_def tickSecond_def)
  show ?thesis
    using zscore_series [OF h] by (simp add: Let_def demoZ_def tickSecond_def lastN_def numeral_2_eq_2)
qed

text \<open>C0. After a gap the bars are stored out of order: the bar of the last second is appended
  behind the bars that fill the later seconds.  The prices are equal, so the returns are the
  same, but the \<open>Second\<close> fields do not ascend.\<close>

theorem zscore_gap_out_of_order:
  assumes "zs_ok s" and "zs_lastSec s \<noteq> 0" and "zs_lastSec s + 1 < tickSecond (tk_Timestamp t)"
    and "2 \<le> zs_windowSize s"
  shows "\<not> sorted (map bar_Second (zs_series (OnTick t s)))"
proof -
  let ?sec = "tickSecond (tk_Timestamp t)"
  let ?l = "zs_lastSec s"
  define pre where "pre = zs_series s @ map (\<lambda>i. \<lparr>bar_Second = i, bar_Price = zs_lastPrice s\<rparr>) [?l + 1..?sec - 2]"
  have up: "[i..j] = [i..j - 1] @ [j]" if "i \<le> j" for i j :: int
    using that by (rule upto_rec2)
  have "[?l + 1..?sec - 1] = [?l + 1..?sec - 1 - 1] @ [?sec - 1]"
    using assms(3) by (intro up) simp
  then have "[?l + 1..?sec - 1] = [?l + 1..?sec - 2] @ [?sec - 1]" by simp
  then have g: "zs_series s @ gapBars ?sec s = pre @ [\<lparr>bar_Second = ?sec - 1, bar_Price = zs_lastPrice s\<rparr>,
      \<lparr>bar_Second = ?l, bar_Price = zs_lastPrice s\<rparr>]"
    by (simp add: gapBars_def pre_def)
  have "zs_series (OnTick t s) = lastN (nat (zs_windowSize s)) (zs_series s @ gapBars ?sec s)"
    using OnTick_later [OF assms(2), of t] assms(3) bars.contents_pushes [OF assms(1), of "gapBars ?sec s"] by simp
  also have "\<dots> = lastN (nat (zs_windowSize s) - 2) pre @ [\<lparr>bar_Second = ?sec - 1, bar_Price = zs_lastPrice s\<rparr>,
      \<lparr>bar_Second = ?l, bar_Price = zs_lastPrice s\<rparr>]"
    unfolding g using assms(4) by (subst lastN_append) (simp_all add: numeral_2_eq_2)
  finally show ?thesis using assms(3) by (simp add: sorted_append)
qed

corollary zscore_gap_out_of_order_witness:
  "\<not> sorted (map bar_Second (zs_series (OnTick \<lparr>tk_Price = f64 6, tk_Timestamp = 12500\<rparr> demoZ)))"
  by (rule zscore_gap_out_of_order) (simp_all add: demoZ_def zs_ok_def tickSecond_def)

text \<open>C0. On a flat price the measured volatility is 0, so the z-score falls back to the smallest
  sigma instead of dividing by 0 (from \<^verbatim>\<open>Log(1) = 0\<close> and \<^verbatim>\<open>Sqrt(0) = 0\<close>).\<close>

theorem zscore_flat_fallback:
  assumes "ml_Log M 1 = 0" and "ml_Sqrt M 0 = 0" and "p \<noteq> 0"
    and "map bar_Price (zs_series s) = replicate n p" and "startPrice \<noteq> 0" and "0 < remaining"
    and "minSigma * ml_Sqrt M remaining \<noteq> 0"
  shows "zSigma M s = 0 \<and>
    zscoreOf M cur startPrice remaining s = ml_Log M (cur / startPrice) / (minSigma * ml_Sqrt M remaining)"
proof -
  have d: "p / p = 1" using assms(3) by transfer simp
  have "returnsOf M (replicate k p) = replicate (k - 1) 0" for k
  proof (induction k)
    case (Suc k)
    then show ?case using assms(1,3) d by (cases k) simp_all
  qed simp
  then obtain k where r: "zReturns M s = replicate k 0"
    using assms(4) by (cases "length (zs_series s) < 2") (auto simp: zReturns_def)
  have z: "fold (\<lambda>v acc. acc + v) (replicate k 0) 0 = (0 :: float64)"
    "fold (\<lambda>v acc. acc + (v - 0) * (v - 0)) (replicate k 0) 0 = (0 :: float64)" for k
    by (induction k) simp_all
  have q: "0 / x = (0 :: float64)" for x by transfer simp
  have sig: "zSigma M s = 0"
    using assms(2) z q by (simp add: zSigma_def std_def r Let_def)
  have "0 \<le> minSigma" unfolding minSigma_def by code_simp
  moreover have "\<not> remaining \<le> 0" using assms(6) by simp
  ultimately show ?thesis using sig assms(5,7) by (simp add: zscoreOf_def Let_def max_def)
qed

corollary zscore_flat_fallback_witness:
  "zSigma \<lparr>ml_Log = (\<lambda>x. x - 1), ml_Sqrt = (\<lambda>x. x)\<rparr>
     \<lparr>zs_series = replicate 3 \<lparr>bar_Second = 1, bar_Price = f64 2\<rparr>, zs_windowSize = 3, zs_lastSec = 4, zs_lastPrice = 1\<rparr> = 0"
proof -
  have n: "f64 2 \<noteq> 0" "minSigma * 1 \<noteq> 0" "(0::float64) < 1" "(1::float64) \<noteq> 0" unfolding minSigma_def by code_simp+
  show ?thesis
    using zscore_flat_fallback [of "\<lparr>ml_Log = (\<lambda>x. x - 1), ml_Sqrt = (\<lambda>x. x)\<rparr>" "f64 2"
      "\<lparr>zs_series = replicate 3 \<lparr>bar_Second = 1, bar_Price = f64 2\<rparr>, zs_windowSize = 3, zs_lastSec = 4, zs_lastPrice = 1\<rparr>"
      3 1 1] n by (simp add: numeral_3_eq_3)
qed

end
