(* ===== verification/Risk.thy ===== *)
theory Risk
  imports State
begin

text \<open>
  Package \<^verbatim>\<open>risk\<close>: the pre-trade check of a batch of order intents
  (\<^verbatim>\<open>risk/engine.go\<close>, \<^verbatim>\<open>risk/rejection.go\<close>), with the intent type of
  \<^verbatim>\<open>runtime/types.go\<close>.  A rejection is known by its type; the text of its detail is not
  modelled.  The engine's map of last intents may be nil (\<open>None\<close>), and writing to a nil map
  panics: the outer \<open>None\<close> of \<open>Check\<close>.
\<close>

section \<open>Data\<close>

datatype OrderIntentAction = NoAction | Place | Cancel | Split | Merge | OtherAction string

text \<open>\<^verbatim>\<open>orders.OrderType\<close>: the constants the program names, no value, or any other string.\<close>

datatype orderType = NoType | GTC | FOK | GTD | FAK | OtherType string

record OrderIntent =
  oi_Action :: OrderIntentAction
  oi_MarketID :: string
  oi_TokenID :: string
  oi_Price :: float64
  oi_Side :: side
  oi_Size :: float64
  oi_IntentID :: string
  oi_OrderID :: string
  oi_Tokens :: "string list"
  oi_OrderType :: orderType

datatype RejectionType =
    RejectInsufficientBalance
  | RejectBelowMinReserve
  | RejectInsufficientPosition
  | RejectExposureCap
  | RejectSlippage
  | RejectCooldown
  | RejectDailyLoss
  | RejectMaxOpenOrders
  | RejectInvalidIntent

record RiskEngine =
  rk_MaxDailyLoss :: float64
  rk_MaxExposurePerMarket :: float64
  rk_MaxSlippageBps :: int
  rk_MaxOpenOrders :: int
  rk_MarketCooldown :: duration
  rk_lastIntentPerMarket :: "(string, time) gomap option"

section \<open>The scan of the intents\<close>

record batchTotals =
  bt_buyRequired :: float64
  bt_sellRequired :: "(string, float64) gomap"
  bt_exposure :: "(string, float64) gomap"
  bt_placeCount :: int

definition noTotals :: batchTotals where
  "noTotals = \<lparr>bt_buyRequired = 0, bt_sellRequired = [], bt_exposure = [], bt_placeCount = 0\<rparr>"

definition addTo :: "string \<Rightarrow> float64 \<Rightarrow> (string, float64) gomap \<Rightarrow> (string, float64) gomap" where
  "addTo k x m = gput k (gget 0 m k + x) m"

text \<open>The conversion \<^verbatim>\<open>int(x)\<close> truncates toward 0.\<close>

definition truncf :: "float64 \<Rightarrow> int" where
  "truncf x = (if x < 0 then - \<lfloor>- rval x\<rfloor> else \<lfloor>rval x\<rfloor>)"

definition deviationBps :: "float64 \<Rightarrow> float64 \<Rightarrow> int" where
  "deviationBps price mid = \<bar>truncf (((price - mid) / mid) * f64 10000)\<bar>"

definition slippageExceeded :: "RiskEngine \<Rightarrow> (string, float64) gomap \<Rightarrow> OrderIntent \<Rightarrow> bool" where
  "slippageExceeded r mids ord =
    (0 < rk_MaxSlippageBps r \<and>
     (case map_of mids (oi_TokenID ord) of
        None \<Rightarrow> False
      | Some mid \<Rightarrow> 0 < mid \<and> rk_MaxSlippageBps r < deviationBps (oi_Price ord) mid))"

definition effAction :: "OrderIntent \<Rightarrow> OrderIntentAction" where
  "effAction ord = (if oi_Action ord = NoAction then Place else oi_Action ord)"

definition scanIntent ::
  "RiskEngine \<Rightarrow> (string, float64) gomap \<Rightarrow> OrderIntent \<Rightarrow> batchTotals \<Rightarrow> RejectionType + batchTotals" where
  "scanIntent r mids ord acc =
    (let action = effAction ord in
     if action = Cancel then (if oi_OrderID ord = [] then Inl RejectInvalidIntent else Inr acc)
     else if oi_MarketID ord = [] then Inl RejectInvalidIntent
     else if oi_Size ord \<le> 0 then Inl RejectInvalidIntent
     else case action of
       Place \<Rightarrow>
         (let acc = acc\<lparr>bt_placeCount := bt_placeCount acc + 1\<rparr>;
              need = RequiredCollateral (oi_Side ord) (oi_Price ord) (oi_Size ord);
              expose = (\<lambda>acc. acc\<lparr>bt_exposure := addTo (oi_MarketID ord) need (bt_exposure acc)\<rparr>)
          in if oi_TokenID ord = [] then Inl RejectInvalidIntent
             else if oi_Price ord \<le> 0 \<or> 1 \<le> oi_Price ord then Inl RejectInvalidIntent
             else if slippageExceeded r mids ord then Inl RejectSlippage
             else case oi_Side ord of
               BUY \<Rightarrow> Inr (expose (acc\<lparr>bt_buyRequired := bt_buyRequired acc + need\<rparr>))
             | SELL \<Rightarrow> Inr (expose (acc\<lparr>bt_sellRequired := addTo (oi_TokenID ord) need (bt_sellRequired acc)\<rparr>))
             | OtherSide _ \<Rightarrow> Inl RejectInvalidIntent)
     | Split \<Rightarrow>
         (if length (oi_Tokens ord) \<noteq> 2 then Inl RejectInvalidIntent
          else Inr (acc\<lparr>bt_buyRequired := bt_buyRequired acc + oi_Size ord\<rparr>))
     | Merge \<Rightarrow>
         (if length (oi_Tokens ord) \<noteq> 2 then Inl RejectInvalidIntent
          else Inr (acc\<lparr>bt_sellRequired := fold (\<lambda>t m. addTo t (oi_Size ord) m) (oi_Tokens ord) (bt_sellRequired acc)\<rparr>))
     | _ \<Rightarrow> Inl RejectInvalidIntent)"

fun scanIntents ::
  "RiskEngine \<Rightarrow> (string, float64) gomap \<Rightarrow> OrderIntent list \<Rightarrow> batchTotals \<Rightarrow> RejectionType + batchTotals" where
  "scanIntents r mids [] acc = Inr acc"
| "scanIntents r mids (ord # rest) acc =
     (case scanIntent r mids ord acc of
        Inl e \<Rightarrow> Inl e
      | Inr acc \<Rightarrow> scanIntents r mids rest acc)"

section \<open>The caps\<close>

definition dailyLossTripped :: "RiskEngine \<Rightarrow> Snapshot \<Rightarrow> bool" where
  "dailyLossTripped r s = (0 < rk_MaxDailyLoss r \<and> rk_MaxDailyLoss r \<le> - sn_DailyPnL s)"

definition isPlace :: "OrderIntent \<Rightarrow> bool" where
  "isPlace ord = (\<not> (oi_Action ord \<noteq> NoAction \<and> oi_Action ord \<noteq> Place))"

definition inCooldown :: "RiskEngine \<Rightarrow> time \<Rightarrow> (string, time) gomap \<Rightarrow> OrderIntent \<Rightarrow> bool" where
  "inCooldown r now lastMap ord =
    (isPlace ord \<and>
     (case map_of lastMap (oi_MarketID ord) of
        None \<Rightarrow> False
      | Some t \<Rightarrow> timeSub now t < rk_MarketCooldown r))"

definition existingExposure :: "Snapshot \<Rightarrow> (string, float64) gomap" where
  "existingExposure s = fold (\<lambda>(k, ord) m. addTo (or_MarketID ord) (or_Reserved ord) m) (sn_Orders s) []"

definition exposureExceeded :: "RiskEngine \<Rightarrow> Snapshot \<Rightarrow> batchTotals \<Rightarrow> bool" where
  "exposureExceeded r s tot =
    (0 < rk_MaxExposurePerMarket r \<and>
     list_ex (\<lambda>(mkt, add). rk_MaxExposurePerMarket r + FloatEpsilon < gget 0 (existingExposure s) mkt + add)
       (bt_exposure tot))"

definition balanceRejection :: "Snapshot \<Rightarrow> batchTotals \<Rightarrow> RejectionType option" where
  "balanceRejection s tot =
    (let b = sn_Balance s; need = bt_buyRequired tot in
     if 0 < need then
       if ba_Available b \<le> ba_MinBalance b + FloatEpsilon then Some RejectBelowMinReserve
       else if ba_Available b + FloatEpsilon < need then Some RejectInsufficientBalance
       else if ba_Available b - need \<le> ba_MinBalance b + FloatEpsilon then Some RejectBelowMinReserve
       else None
     else None)"

definition positionShort :: "Snapshot \<Rightarrow> batchTotals \<Rightarrow> bool" where
  "positionShort s tot =
    list_ex (\<lambda>(tok, need). tp_Available (gget zeroTokenPosition (sn_Tokens s) tok) < need) (bt_sellRequired tot)"

text \<open>Recording the time of the intents: writing to a nil map panics.\<close>

fun recordIntents :: "time \<Rightarrow> OrderIntent list \<Rightarrow> (string, time) gomap option \<Rightarrow> (string, time) gomap option option" where
  "recordIntents now [] m = Some m"
| "recordIntents now (ord # rest) m =
     (if isPlace ord
      then (case m of None \<Rightarrow> None | Some lastMap \<Rightarrow> recordIntents now rest (Some (gput (oi_MarketID ord) now lastMap)))
      else recordIntents now rest m)"

section \<open>The check\<close>

text \<open>The checks after the scan, with the map of last intents made when the cooldown is on.\<close>

definition checkCaps ::
  "time \<Rightarrow> OrderIntent list \<Rightarrow> Snapshot \<Rightarrow> batchTotals \<Rightarrow> bool \<Rightarrow> RiskEngine \<Rightarrow>
   (RiskEngine \<times> RejectionType option) option" where
  "checkCaps now intents s tot cooling r =
    (if cooling \<and> list_ex (inCooldown r now (case rk_lastIntentPerMarket r of None \<Rightarrow> [] | Some m \<Rightarrow> m)) intents
     then Some (r, Some RejectCooldown)
     else if 0 < rk_MaxOpenOrders r \<and> rk_MaxOpenOrders r < sn_OpenOrderCount s + bt_placeCount tot
     then Some (r, Some RejectMaxOpenOrders)
     else if exposureExceeded r s tot then Some (r, Some RejectExposureCap)
     else case balanceRejection s tot of
       Some e \<Rightarrow> Some (r, Some e)
     | None \<Rightarrow>
       if positionShort s tot then Some (r, Some RejectInsufficientPosition)
       else if 0 < rk_MarketCooldown r then
         (case recordIntents now intents (rk_lastIntentPerMarket r) of
            None \<Rightarrow> None
          | Some m \<Rightarrow> Some (r\<lparr>rk_lastIntentPerMarket := m\<rparr>, None))
       else Some (r, None))"

definition Check ::
  "time \<Rightarrow> OrderIntent list \<Rightarrow> Snapshot \<Rightarrow> (string, float64) gomap \<Rightarrow> RiskEngine \<Rightarrow>
   (RiskEngine \<times> RejectionType option) option" where
  "Check now intents s mids r =
    (if intents = [] then Some (r, None)
     else if dailyLossTripped r s \<and> list_ex (\<lambda>i. oi_Action i \<noteq> Cancel) intents then Some (r, Some RejectDailyLoss)
     else case scanIntents r mids intents noTotals of
       Inl e \<Rightarrow> Some (r, Some e)
     | Inr tot \<Rightarrow>
       let cooling = 0 < rk_MarketCooldown r \<and> 0 < bt_placeCount tot;
           r = (if cooling \<and> rk_lastIntentPerMarket r = None then r\<lparr>rk_lastIntentPerMarket := Some []\<rparr> else r)
       in checkCaps now intents s tot cooling r)"

section \<open>What the scan computes\<close>

lemma isPlace_eff: "isPlace ord \<longleftrightarrow> effAction ord = Place"
  by (auto simp: isPlace_def effAction_def)

definition placed :: "OrderIntent list \<Rightarrow> OrderIntent list" where
  "placed = filter isPlace"

lemma scanIntent_count:
  "scanIntent r mids ord acc = Inr acc' \<Longrightarrow>
   bt_placeCount acc' = bt_placeCount acc + (if isPlace ord then 1 else 0)"
  unfolding isPlace_eff
  by (auto simp: scanIntent_def Let_def split: if_splits OrderIntentAction.splits side.splits)

lemma scanIntents_count:
  "scanIntents r mids intents acc = Inr acc' \<Longrightarrow>
   bt_placeCount acc' = bt_placeCount acc + int (length (placed intents))"
proof (induction intents arbitrary: acc)
  case (Cons ord rest)
  then show ?case
    by (auto simp: placed_def dest: scanIntent_count split: sum.splits if_splits)
qed (simp add: placed_def)

text \<open>An intent the scan lets through.\<close>

definition intentValid :: "RiskEngine \<Rightarrow> (string, float64) gomap \<Rightarrow> OrderIntent \<Rightarrow> bool" where
  "intentValid r mids ord \<longleftrightarrow>
    (case effAction ord of
       Cancel \<Rightarrow> oi_OrderID ord \<noteq> []
     | Place \<Rightarrow> oi_MarketID ord \<noteq> [] \<and> oi_TokenID ord \<noteq> [] \<and> 0 < oi_Size ord \<and> 0 < oi_Price ord \<and>
         oi_Price ord < 1 \<and> oi_Side ord \<in> {BUY, SELL} \<and> \<not> slippageExceeded r mids ord
     | Split \<Rightarrow> oi_MarketID ord \<noteq> [] \<and> 0 < oi_Size ord \<and> length (oi_Tokens ord) = 2
     | Merge \<Rightarrow> oi_MarketID ord \<noteq> [] \<and> 0 < oi_Size ord \<and> length (oi_Tokens ord) = 2
     | _ \<Rightarrow> False)"

lemma scanIntent_valid: "(\<exists>acc'. scanIntent r mids ord acc = Inr acc') \<longleftrightarrow> intentValid r mids ord"
  by (cases "effAction ord"; cases "oi_Side ord")
    (auto simp: scanIntent_def intentValid_def Let_def not_le)

lemma scanIntents_valid:
  "(\<exists>acc'. scanIntents r mids intents acc = Inr acc') \<longleftrightarrow> (\<forall>i \<in> set intents. intentValid r mids i)"
proof (induction intents arbitrary: acc)
  case (Cons ord rest)
  show ?case
  proof (cases "scanIntent r mids ord acc")
    case (Inl e)
    then have "\<not> intentValid r mids ord" by (metis Inl_Inr_False scanIntent_valid)
    with Inl show ?thesis by simp
  next
    case (Inr acc')
    then have "intentValid r mids ord" using scanIntent_valid by blast
    with Inr Cons [of acc'] show ?thesis by simp
  qed
qed simp

text \<open>The collateral and the tokens a batch needs, as folds in the order of the batch.\<close>

definition buyNeed :: "OrderIntent \<Rightarrow> float64" where
  "buyNeed ord =
    (case effAction ord of
       Place \<Rightarrow> (if oi_Side ord = BUY then RequiredCollateral BUY (oi_Price ord) (oi_Size ord) else 0)
     | Split \<Rightarrow> oi_Size ord
     | _ \<Rightarrow> 0)"

definition batchBuy :: "OrderIntent list \<Rightarrow> float64" where
  "batchBuy intents = fold (\<lambda>i acc. acc + buyNeed i) intents 0"

lemma scanIntent_buy:
  "scanIntent r mids ord acc = Inr acc' \<Longrightarrow> bt_buyRequired acc' = bt_buyRequired acc + buyNeed ord"
  by (cases "effAction ord"; cases "oi_Side ord") (auto simp: scanIntent_def buyNeed_def Let_def split: if_splits)

lemma scanIntents_buy:
  "scanIntents r mids intents acc = Inr acc' \<Longrightarrow>
   bt_buyRequired acc' = fold (\<lambda>i acc. acc + buyNeed i) intents (bt_buyRequired acc)"
proof (induction intents arbitrary: acc)
  case (Cons ord rest)
  then show ?case by (auto split: sum.splits simp: scanIntent_buy)
qed simp

definition marketNeed :: "string \<Rightarrow> OrderIntent \<Rightarrow> float64" where
  "marketNeed mkt ord =
    (if isPlace ord \<and> oi_MarketID ord = mkt then RequiredCollateral (oi_Side ord) (oi_Price ord) (oi_Size ord) else 0)"

lemma gget_addTo: "gget 0 (addTo k x m) k' = (if k' = k then gget 0 m k + x else gget 0 m k')"
  by (simp add: addTo_def)

lemma scanIntent_exposure:
  "scanIntent r mids ord acc = Inr acc' \<Longrightarrow>
   gget 0 (bt_exposure acc') mkt = gget 0 (bt_exposure acc) mkt + marketNeed mkt ord"
  unfolding marketNeed_def isPlace_eff
  by (cases "effAction ord"; cases "oi_Side ord")
    (auto simp: scanIntent_def Let_def gget_addTo split: if_splits)

lemma scanIntents_exposure:
  "scanIntents r mids intents acc = Inr acc' \<Longrightarrow>
   gget 0 (bt_exposure acc') mkt = fold (\<lambda>i acc. acc + marketNeed mkt i) intents (gget 0 (bt_exposure acc) mkt)"
proof (induction intents arbitrary: acc)
  case (Cons ord rest)
  then show ?case by (auto split: sum.splits simp: scanIntent_exposure)
qed simp

lemma scanIntent_exposure_key:
  "scanIntent r mids ord acc = Inr acc' \<Longrightarrow>
   ghas (bt_exposure acc') mkt \<longleftrightarrow> ghas (bt_exposure acc) mkt \<or> (isPlace ord \<and> oi_MarketID ord = mkt)"
  unfolding isPlace_eff
  by (cases "effAction ord"; cases "oi_Side ord")
    (auto simp: scanIntent_def Let_def addTo_def split: if_splits)

lemma scanIntents_exposure_key:
  "scanIntents r mids intents acc = Inr acc' \<Longrightarrow>
   ghas (bt_exposure acc') mkt \<longleftrightarrow> ghas (bt_exposure acc) mkt \<or> (\<exists>i \<in> set intents. isPlace i \<and> oi_MarketID i = mkt)"
proof (induction intents arbitrary: acc)
  case (Cons ord rest)
  then show ?case by (auto split: sum.splits simp: scanIntent_exposure_key)
qed simp

definition sellNeed :: "string \<Rightarrow> OrderIntent \<Rightarrow> float64 list" where
  "sellNeed tok ord =
    (case effAction ord of
       Place \<Rightarrow> (if oi_Side ord = SELL \<and> oi_TokenID ord = tok then [oi_Size ord] else [])
     | Merge \<Rightarrow> map (\<lambda>_. oi_Size ord) (filter (\<lambda>t. t = tok) (oi_Tokens ord))
     | _ \<Rightarrow> [])"

definition batchSell :: "string \<Rightarrow> OrderIntent list \<Rightarrow> float64" where
  "batchSell tok intents = fold (\<lambda>x acc. acc + x) (concat (map (sellNeed tok) intents)) 0"

lemma fold_addTo:
  "gget 0 (fold (\<lambda>t m. addTo t x m) ts m) tok =
   fold (\<lambda>x acc. acc + x) (map (\<lambda>_. x) (filter (\<lambda>t. t = tok) ts)) (gget 0 m tok)"
  by (induction ts arbitrary: m) (auto simp: gget_addTo)

lemma scanIntent_sell:
  "scanIntent r mids ord acc = Inr acc' \<Longrightarrow>
   gget 0 (bt_sellRequired acc') tok = fold (\<lambda>x acc. acc + x) (sellNeed tok ord) (gget 0 (bt_sellRequired acc) tok)"
  by (cases "effAction ord"; cases "oi_Side ord")
    (auto simp: scanIntent_def sellNeed_def Let_def gget_addTo fold_addTo split: if_splits)

lemma scanIntents_sell:
  "scanIntents r mids intents acc = Inr acc' \<Longrightarrow>
   gget 0 (bt_sellRequired acc') tok =
     fold (\<lambda>x acc. acc + x) (concat (map (sellNeed tok) intents)) (gget 0 (bt_sellRequired acc) tok)"
proof (induction intents arbitrary: acc)
  case (Cons ord rest)
  then show ?case by (auto split: sum.splits simp: scanIntent_sell)
qed simp

lemma ghas_addTo: "ghas (addTo k x m) k' \<longleftrightarrow> k' = k \<or> ghas m k'"
  by (simp add: addTo_def)

lemma fold_addTo_key: "ghas (fold (\<lambda>t m. addTo t x m) ts m) k \<longleftrightarrow> ghas m k \<or> k \<in> set ts"
  by (induction ts arbitrary: m) (auto simp: addTo_def)

lemma scanIntent_sell_key:
  "scanIntent r mids ord acc = Inr acc' \<Longrightarrow>
   ghas (bt_sellRequired acc') tok \<longleftrightarrow> ghas (bt_sellRequired acc) tok \<or> sellNeed tok ord \<noteq> []"
  by (cases "effAction ord"; cases "oi_Side ord")
    (auto simp: scanIntent_def sellNeed_def Let_def ghas_addTo fold_addTo_key filter_empty_conv
      split: if_splits)

lemma scanIntents_sell_key:
  "scanIntents r mids intents acc = Inr acc' \<Longrightarrow>
   ghas (bt_sellRequired acc') tok \<longleftrightarrow> ghas (bt_sellRequired acc) tok \<or> concat (map (sellNeed tok) intents) \<noteq> []"
proof (induction intents arbitrary: acc)
  case (Cons ord rest)
  then show ?case by (auto split: sum.splits simp: scanIntent_sell_key)
qed simp

section \<open>The check, branch by branch\<close>

text \<open>The engine after the cooldown map was made, if it had to be.\<close>

definition cooled :: "RiskEngine \<Rightarrow> OrderIntent list \<Rightarrow> RiskEngine" where
  "cooled r intents =
    (if 0 < rk_MarketCooldown r \<and> placed intents \<noteq> [] \<and> rk_lastIntentPerMarket r = None
     then r\<lparr>rk_lastIntentPerMarket := Some []\<rparr> else r)"

lemma cooled_frame [simp]:
  "rk_MaxDailyLoss (cooled r i) = rk_MaxDailyLoss r" "rk_MaxExposurePerMarket (cooled r i) = rk_MaxExposurePerMarket r"
  "rk_MaxSlippageBps (cooled r i) = rk_MaxSlippageBps r" "rk_MaxOpenOrders (cooled r i) = rk_MaxOpenOrders r"
  "rk_MarketCooldown (cooled r i) = rk_MarketCooldown r"
  by (simp_all add: cooled_def)

definition lastMap :: "RiskEngine \<Rightarrow> (string, time) gomap" where
  "lastMap r = (case rk_lastIntentPerMarket r of None \<Rightarrow> [] | Some m \<Rightarrow> m)"

lemma lastMap_cooled [simp]: "lastMap (cooled r i) = lastMap r"
  by (simp add: lastMap_def cooled_def)

lemma inCooldown_cooled [simp]: "inCooldown (cooled r i) = inCooldown r"
  by (auto simp: inCooldown_def fun_eq_iff split: option.split)

lemma exposureExceeded_cooled [simp]: "exposureExceeded (cooled r i) s tot = exposureExceeded r s tot"
  by (simp add: exposureExceeded_def)

lemma recordIntents_some:
  "recordIntents now intents (Some m) = Some (Some (fold (\<lambda>i m. if isPlace i then gput (oi_MarketID i) now m else m) intents m))"
  by (induction intents arbitrary: m) auto

lemma recordIntents_noplace: "placed intents = [] \<Longrightarrow> recordIntents now intents m = Some m"
  by (induction intents) (auto simp: placed_def split: if_splits)

text \<open>The map of last intents after a batch was let through.\<close>

definition recorded :: "time \<Rightarrow> OrderIntent list \<Rightarrow> RiskEngine \<Rightarrow> RiskEngine" where
  "recorded now intents r =
    (if 0 < rk_MarketCooldown r \<and> placed intents \<noteq> []
     then r\<lparr>rk_lastIntentPerMarket :=
            Some (fold (\<lambda>i m. if isPlace i then gput (oi_MarketID i) now m else m) intents (lastMap r))\<rparr>
     else r)"

lemma record_cooled:
  assumes "0 < rk_MarketCooldown r"
  shows "(case recordIntents now intents (rk_lastIntentPerMarket (cooled r intents)) of
       None \<Rightarrow> None | Some m \<Rightarrow> Some ((cooled r intents)\<lparr>rk_lastIntentPerMarket := m\<rparr>, e)) = Some (recorded now intents r, e)"
proof (cases "placed intents = []")
  case True
  then show ?thesis by (simp add: recordIntents_noplace recorded_def cooled_def)
next
  case False
  then show ?thesis
    using assms
    by (cases "rk_lastIntentPerMarket r")
      (simp_all add: recordIntents_some recorded_def cooled_def lastMap_def)
qed

lemma record_tail:
  "(if 0 < rk_MarketCooldown r then
      (case recordIntents now intents (rk_lastIntentPerMarket (cooled r intents)) of
         None \<Rightarrow> None
       | Some m \<Rightarrow> Some ((cooled r intents)\<lparr>rk_lastIntentPerMarket := m\<rparr>, None))
    else Some (cooled r intents, None)) = Some (recorded now intents r, None)"
proof (cases "0 < rk_MarketCooldown r")
  case True
  then show ?thesis by (simp only: record_cooled if_True)
next
  case False
  then show ?thesis by (simp add: recorded_def cooled_def)
qed

definition capsPass :: "time \<Rightarrow> OrderIntent list \<Rightarrow> Snapshot \<Rightarrow> RiskEngine \<Rightarrow> batchTotals \<Rightarrow> bool" where
  "capsPass now intents s r tot \<longleftrightarrow>
     \<not> (0 < rk_MarketCooldown r \<and> list_ex (inCooldown r now (lastMap r)) intents) \<and>
     \<not> (0 < rk_MaxOpenOrders r \<and> rk_MaxOpenOrders r < sn_OpenOrderCount s + bt_placeCount tot) \<and>
     \<not> exposureExceeded r s tot \<and> balanceRejection s tot = None \<and> \<not> positionShort s tot"

lemma inCooldown_place: "list_ex (inCooldown r now m) intents \<Longrightarrow> placed intents \<noteq> []"
  by (auto simp: list_ex_iff inCooldown_def placed_def filter_empty_conv)

lemma placed_count:
  "scanIntents r mids intents noTotals = Inr tot \<Longrightarrow> 0 < bt_placeCount tot \<longleftrightarrow> placed intents \<noteq> []"
  using scanIntents_count [of r mids intents noTotals tot] by (simp add: noTotals_def)

text \<open>The whole check: it lets a batch through and records it, or it rejects and at most makes
  the map.\<close>

lemma Check_cases:
  obtains
    (empty) "intents = []" "Check now intents s mids r = Some (r, None)"
  | (daily) "Check now intents s mids r = Some (r, Some RejectDailyLoss)" "dailyLossTripped r s"
  | (invalid) e where "Check now intents s mids r = Some (r, Some e)" "scanIntents r mids intents noTotals = Inl e"
  | (capped) e tot where "Check now intents s mids r = Some (cooled r intents, Some e)"
      "scanIntents r mids intents noTotals = Inr tot" "\<not> capsPass now intents s r tot"
  | (pass) tot where "Check now intents s mids r = Some (recorded now intents r, None)"
      "scanIntents r mids intents noTotals = Inr tot" "capsPass now intents s r tot"
      "\<not> (dailyLossTripped r s \<and> list_ex (\<lambda>i. oi_Action i \<noteq> Cancel) intents)"
proof (cases "intents = [] \<or> dailyLossTripped r s \<and> list_ex (\<lambda>i. oi_Action i \<noteq> Cancel) intents")
  case True
  then show ?thesis
  proof (cases "intents = []")
    case True
    then show ?thesis by (intro empty) (simp_all add: Check_def)
  next
    case False
    with True show ?thesis by (intro daily) (simp_all add: Check_def)
  qed
next
  case False
  then have assms: "intents \<noteq> []"
    and nd: "\<not> (dailyLossTripped r s \<and> list_ex (\<lambda>i. oi_Action i \<noteq> Cancel) intents)" by auto
  show ?thesis
  proof (cases "scanIntents r mids intents noTotals")
    case (Inl e)
    with assms nd show ?thesis by (intro invalid [of e]) (auto simp: Check_def)
  next
    case (Inr tot)
    let ?c = "0 < rk_MarketCooldown r \<and> 0 < bt_placeCount tot"
    have cr: "(if ?c \<and> rk_lastIntentPerMarket r = None then r\<lparr>rk_lastIntentPerMarket := Some []\<rparr> else r) = cooled r intents"
      by (simp add: cooled_def placed_count [OF Inr])
    have cool: "(?c \<and> list_ex (inCooldown r now (lastMap r)) intents) =
        (0 < rk_MarketCooldown r \<and> list_ex (inCooldown r now (lastMap r)) intents)"
      using inCooldown_place placed_count [OF Inr] by auto
    have chk: "Check now intents s mids r =
      (if 0 < rk_MarketCooldown r \<and> list_ex (inCooldown r now (lastMap r)) intents
       then Some (cooled r intents, Some RejectCooldown)
       else if 0 < rk_MaxOpenOrders r \<and> rk_MaxOpenOrders r < sn_OpenOrderCount s + bt_placeCount tot
       then Some (cooled r intents, Some RejectMaxOpenOrders)
       else if exposureExceeded r s tot then Some (cooled r intents, Some RejectExposureCap)
       else case balanceRejection s tot of
         Some e \<Rightarrow> Some (cooled r intents, Some e)
       | None \<Rightarrow>
         if positionShort s tot then Some (cooled r intents, Some RejectInsufficientPosition)
         else Some (recorded now intents r, None))"
    proof -
      have "Check now intents s mids r = checkCaps now intents s tot ?c (cooled r intents)"
        using assms nd Inr cr by (auto simp: Check_def Let_def)
      also have "\<dots> = checkCaps now intents s tot (0 < rk_MarketCooldown r) (cooled r intents)"
        using cool unfolding checkCaps_def lastMap_def [symmetric] inCooldown_cooled lastMap_cooled by (simp only:)
      finally show ?thesis
        unfolding checkCaps_def lastMap_def [symmetric] inCooldown_cooled lastMap_cooled cooled_frame
          exposureExceeded_cooled
          record_tail .
    qed
    show ?thesis
    proof (cases "capsPass now intents s r tot")
      case True
      then show ?thesis using pass [of tot] Inr nd chk by (simp add: capsPass_def)
    next
      case False
      then have "\<exists>e. Check now intents s mids r = Some (cooled r intents, Some e)"
        using chk by (auto simp: capsPass_def split: option.splits)
      then show ?thesis using capped Inr False by blast
    qed
  qed
qed

section \<open>Properties\<close>

lemma Check_accepted:
  assumes "intents \<noteq> []" and "Check now intents s mids r = Some (r', None)"
  obtains tot where "scanIntents r mids intents noTotals = Inr tot" "capsPass now intents s r tot"
    "r' = recorded now intents r"
proof (cases rule: Check_cases [of intents now s mids r])
  case (pass tot)
  with assms(2) that [of tot] show ?thesis by simp
qed (use assms in simp_all)

text \<open>The check never panics: the write to the map of last intents is reached only when the
  map exists, also for batches without a PLACE and with an engine that has no map yet.\<close>

theorem check_never_panics: "Check now intents s mids r \<noteq> None"
  by (cases rule: Check_cases [of intents now s mids r]) simp_all

lemma check_sound:
  assumes "intents \<noteq> []" and "Check now intents s mids r = Some (r', None)"
  shows "(\<forall>i \<in> set intents. intentValid r mids i) \<and>
    (0 < rk_MaxOpenOrders r \<longrightarrow> sn_OpenOrderCount s + int (length (placed intents)) \<le> rk_MaxOpenOrders r) \<and>
    (0 < rk_MaxExposurePerMarket r \<longrightarrow> (\<forall>i \<in> set (placed intents).
       gget 0 (existingExposure s) (oi_MarketID i) + fold (\<lambda>j acc. acc + marketNeed (oi_MarketID i) j) intents 0
         \<le> rk_MaxExposurePerMarket r + FloatEpsilon)) \<and>
    (0 < batchBuy intents \<longrightarrow>
       batchBuy intents \<le> ba_Available (sn_Balance s) + FloatEpsilon \<and>
       ba_MinBalance (sn_Balance s) + FloatEpsilon < ba_Available (sn_Balance s) - batchBuy intents) \<and>
    (\<forall>tok. concat (map (sellNeed tok) intents) \<noteq> [] \<longrightarrow>
       batchSell tok intents \<le> tp_Available (gget zeroTokenPosition (sn_Tokens s) tok))"
proof -
  obtain tot where scan: "scanIntents r mids intents noTotals = Inr tot" and caps: "capsPass now intents s r tot"
    using Check_accepted [OF assms] by blast
  have valid: "\<forall>i \<in> set intents. intentValid r mids i" using scan scanIntents_valid by blast
  have count: "bt_placeCount tot = int (length (placed intents))"
    using scanIntents_count [OF scan] by (simp add: noTotals_def)
  have buy: "bt_buyRequired tot = batchBuy intents"
    using scanIntents_buy [OF scan] by (simp add: noTotals_def batchBuy_def)
  have expo: "(mkt, fold (\<lambda>j acc. acc + marketNeed mkt j) intents 0) \<in> set (bt_exposure tot)"
    if "\<exists>i \<in> set intents. isPlace i \<and> oi_MarketID i = mkt" for mkt
    using scanIntents_exposure_key [OF scan, of mkt] scanIntents_exposure [OF scan, of mkt] that
    by (auto simp: noTotals_def ghas_def gget_def dest: map_of_SomeD)
  have sell: "(tok, batchSell tok intents) \<in> set (bt_sellRequired tot)"
    if "concat (map (sellNeed tok) intents) \<noteq> []" for tok
    using scanIntents_sell_key [OF scan, of tok] scanIntents_sell [OF scan, of tok] that
    by (auto simp: noTotals_def ghas_def gget_def batchSell_def dest: map_of_SomeD)
  have bal: "balanceRejection s tot = None" using caps by (simp add: capsPass_def)
  show ?thesis
  proof (intro conjI impI ballI allI)
    show "sn_OpenOrderCount s + int (length (placed intents)) \<le> rk_MaxOpenOrders r" if "0 < rk_MaxOpenOrders r"
      using caps that count by (simp add: capsPass_def)
    fix i assume "0 < rk_MaxExposurePerMarket r" "i \<in> set (placed intents)"
    then have "(oi_MarketID i, fold (\<lambda>j acc. acc + marketNeed (oi_MarketID i) j) intents 0) \<in> set (bt_exposure tot)"
      by (intro expo) (auto simp: placed_def)
    moreover have "\<not> exposureExceeded r s tot" using caps by (simp add: capsPass_def)
    ultimately show "gget 0 (existingExposure s) (oi_MarketID i) + fold (\<lambda>j acc. acc + marketNeed (oi_MarketID i) j) intents 0
         \<le> rk_MaxExposurePerMarket r + FloatEpsilon"
      using \<open>0 < rk_MaxExposurePerMarket r\<close> by (auto simp: exposureExceeded_def list_ex_iff not_less)
  next
    assume "0 < batchBuy intents"
    with bal buy show "batchBuy intents \<le> ba_Available (sn_Balance s) + FloatEpsilon"
      "ba_MinBalance (sn_Balance s) + FloatEpsilon < ba_Available (sn_Balance s) - batchBuy intents"
      by (auto simp: balanceRejection_def Let_def not_le not_less split: if_splits)
  next
    fix tok assume "concat (map (sellNeed tok) intents) \<noteq> []"
    with caps sell show "batchSell tok intents \<le> tp_Available (gget zeroTokenPosition (sn_Tokens s) tok)"
      by (fastforce simp: capsPass_def positionShort_def list_ex_iff not_less)
  qed (use valid in blast)
qed


definition demoRisk :: RiskEngine where
  "demoRisk = \<lparr>rk_MaxDailyLoss = f64 10, rk_MaxExposurePerMarket = 0, rk_MaxSlippageBps = 500,
     rk_MaxOpenOrders = 3, rk_MarketCooldown = 10, rk_lastIntentPerMarket = None\<rparr>"

definition demoSnap :: Snapshot where
  "demoSnap = \<lparr>sn_Tokens = [], sn_Balance = \<lparr>ba_Available = f64 100, ba_Reserved = 0, ba_MinBalance = f64 1\<rparr>,
     sn_Orders = [], sn_DailyPnL = 0, sn_DailyPnLDate = None, sn_OpenOrderCount = 0\<rparr>"

definition demoIntent :: OrderIntent where
  "demoIntent = \<lparr>oi_Action = Place, oi_MarketID = ''m'', oi_TokenID = ''t'', oi_Price = f64 (1/2), oi_Side = BUY,
     oi_Size = f64 10, oi_IntentID = ''i'', oi_OrderID = [], oi_Tokens = [], oi_OrderType = NoType\<rparr>"

lemma demo_accepted: "Check 100 [demoIntent] demoSnap [] demoRisk = Some (recorded 100 [demoIntent] demoRisk, None)"
proof (cases rule: Check_cases [of "[demoIntent]" 100 demoSnap "[]" demoRisk])
  case daily
  moreover have "\<not> dailyLossTripped demoRisk demoSnap" by code_simp
  ultimately show ?thesis by simp
next
  case (invalid e)
  moreover have "\<forall>i \<in> set [demoIntent]. intentValid demoRisk [] i" by code_simp
  ultimately show ?thesis using scanIntents_valid [of demoRisk "[]" "[demoIntent]" noTotals] by auto
next
  case (capped e tot)
  have t: "bt_placeCount tot = 1" "bt_buyRequired tot = batchBuy [demoIntent]" "bt_sellRequired tot = []"
    using capped(2) scanIntents_count [OF capped(2)] scanIntents_buy [OF capped(2)]
      scanIntents_sell_key [OF capped(2)]
    by (auto simp: noTotals_def placed_def isPlace_def demoIntent_def batchBuy_def scanIntent_def effAction_def
        Let_def split: if_splits)
  have b: "f64 1 + 1 < f64 100" "batchBuy [demoIntent] \<le> f64 100" "f64 1 + 1 < f64 100 - batchBuy [demoIntent]"
    by code_simp+
  have "capsPass 100 [demoIntent] demoSnap demoRisk tot"
    using add_eps_less [OF b(1)] add_eps_less [OF b(3)] le_add_eps [OF b(2)] t
    by (auto simp: capsPass_def demoRisk_def demoSnap_def lastMap_def inCooldown_def exposureExceeded_def
        balanceRejection_def positionShort_def Let_def)
  with capped(3) show ?thesis by simp
qed simp_all


text \<open>A batch of cancels meets only the cap on open orders.\<close>

lemma Check_cancels:
  assumes "\<forall>i \<in> set intents. oi_Action i = Cancel \<and> oi_OrderID i \<noteq> []"
  shows "Check now intents s mids r =
    Some (r, if intents \<noteq> [] \<and> 0 < rk_MaxOpenOrders r \<and> rk_MaxOpenOrders r < sn_OpenOrderCount s
             then Some RejectMaxOpenOrders else None)"
proof -
  have scan: "scanIntents r mids intents acc = Inr acc" for acc
    using assms by (induction intents) (auto simp: scanIntent_def effAction_def Let_def)
  have np: "placed intents = []" using assms by (auto simp: placed_def filter_empty_conv isPlace_def)
  have nc: "\<not> list_ex (\<lambda>i. oi_Action i \<noteq> Cancel) intents" using assms by (auto simp: list_ex_iff)
  have b: "balanceRejection s noTotals = None" "\<not> positionShort s noTotals" "\<not> exposureExceeded r s noTotals"
    "bt_placeCount noTotals = 0"
    by (simp_all add: noTotals_def exposureExceeded_def balanceRejection_def positionShort_def)
  show ?thesis
    using nc by (simp add: Check_def scan checkCaps_def b recordIntents_noplace [OF np] Let_def)
qed

text \<open>The daily-loss breaker: once the loss of the day has reached the cap, every batch that
  holds anything but cancels is rejected for that reason, while a batch of cancels with order ids
  is let through, as long as the open orders do not exceed their cap.\<close>

theorem daily_loss_breaker:
  assumes "dailyLossTripped r s" and "intents \<noteq> []"
  shows "((\<exists>i \<in> set intents. oi_Action i \<noteq> Cancel) \<longrightarrow> Check now intents s mids r = Some (r, Some RejectDailyLoss)) \<and>
    ((\<forall>i \<in> set intents. oi_Action i = Cancel \<and> oi_OrderID i \<noteq> []) \<longrightarrow>
       rk_MaxOpenOrders r \<le> 0 \<or> sn_OpenOrderCount s \<le> rk_MaxOpenOrders r \<longrightarrow>
       Check now intents s mids r = Some (r, None))"
proof (intro conjI impI)
  assume "\<exists>i \<in> set intents. oi_Action i \<noteq> Cancel"
  then show "Check now intents s mids r = Some (r, Some RejectDailyLoss)"
    using assms by (auto simp: Check_def list_ex_iff)
next
  assume "\<forall>i \<in> set intents. oi_Action i = Cancel \<and> oi_OrderID i \<noteq> []"
    and "rk_MaxOpenOrders r \<le> 0 \<or> sn_OpenOrderCount s \<le> rk_MaxOpenOrders r"
  then show "Check now intents s mids r = Some (r, None)"
    using Check_cancels [of intents now s mids r] by auto
qed

corollary daily_loss_breaker_witness:
  "Check 100 [demoIntent] (demoSnap\<lparr>sn_DailyPnL := f64 (- 10)\<rparr>) [] demoRisk = Some (demoRisk, Some RejectDailyLoss)"
proof -
  have t: "dailyLossTripped demoRisk (demoSnap\<lparr>sn_DailyPnL := f64 (- 10)\<rparr>)" by code_simp
  have "oi_Action demoIntent \<noteq> Cancel" by (simp add: demoIntent_def)
  then show ?thesis using daily_loss_breaker [OF t, of "[demoIntent]" 100 "[]"] by simp
qed

text \<open>The cap on open orders also stops cancels: when the exchange or a reconciliation has
  brought the ledger over the cap, a batch of valid cancels, which could only lower the count, is
  rejected.\<close>

theorem open_order_cap_blocks_cancels:
  assumes "\<forall>i \<in> set intents. oi_Action i = Cancel \<and> oi_OrderID i \<noteq> []" and "intents \<noteq> []"
    and "0 < rk_MaxOpenOrders r" and "rk_MaxOpenOrders r < sn_OpenOrderCount s"
  shows "Check now intents s mids r = Some (r, Some RejectMaxOpenOrders)"
  using Check_cancels [OF assms(1)] assms(2-4) by simp

corollary open_order_cap_blocks_cancels_witness:
  "Check 1 [demoIntent\<lparr>oi_Action := Cancel, oi_OrderID := ''k''\<rparr>] (demoSnap\<lparr>sn_OpenOrderCount := 4\<rparr>) [] demoRisk =
   Some (demoRisk, Some RejectMaxOpenOrders)"
  by (rule open_order_cap_blocks_cancels) (simp_all add: demoRisk_def)

lemma fold_record:
  "map_of (fold (\<lambda>i m. if isPlace i then gput (oi_MarketID i) now m else m) intents m) mkt =
   (if \<exists>i \<in> set intents. isPlace i \<and> oi_MarketID i = mkt then Some now else map_of m mkt)"
  by (induction intents arbitrary: m) (auto simp: update_conv')

lemma Check_rejected:
  assumes "Check now intents s mids r = Some (r', Some e)"
  shows "lastMap r' = lastMap r"
proof (cases rule: Check_cases [of intents now s mids r])
  case (capped e' tot)
  then have "r' = cooled r intents" using assms by simp
  then show ?thesis by simp
qed (use assms in simp_all)

text \<open>The cooldown: a rejected batch records nothing; after an accepted one, a batch that
  places in one of its markets before the cooldown has passed is not accepted.\<close>

theorem cooldown_enforced:
  assumes "intents \<noteq> []" and "Check now intents s mids r = Some (r', verdict)" and "0 < rk_MarketCooldown r"
    and "rk_MarketCooldown r \<le> maxDuration"
  shows "(verdict \<noteq> None \<longrightarrow> lastMap r' = lastMap r) \<and>
    (verdict = None \<longrightarrow> i \<in> set intents \<longrightarrow> isPlace i \<longrightarrow> j \<in> set intents' \<longrightarrow> isPlace j \<longrightarrow>
       oi_MarketID j = oi_MarketID i \<longrightarrow> now' - now < rk_MarketCooldown r \<longrightarrow>
       Check now' intents' s' mids' r' \<noteq> Some (r'', None))"
proof (intro conjI impI)
  assume "verdict \<noteq> None"
  with assms(2) show "lastMap r' = lastMap r" using Check_rejected by blast
next
  assume v: "verdict = None" and i: "i \<in> set intents" "isPlace i"
    and j: "j \<in> set intents'" "isPlace j" "oi_MarketID j = oi_MarketID i" and d: "now' - now < rk_MarketCooldown r"
  have r': "r' = recorded now intents r" using Check_accepted assms(1,2) v by blast
  have p: "placed intents \<noteq> []" using i by (auto simp: placed_def filter_empty_conv)
  then have m: "map_of (lastMap r') (oi_MarketID j) = Some now"
    using assms(3) i j(3) by (auto simp: r' recorded_def lastMap_def [of "r\<lparr>rk_lastIntentPerMarket := x\<rparr>" for x] fold_record)
  have cd: "rk_MarketCooldown r' = rk_MarketCooldown r" by (simp add: r' recorded_def)
  have "timeSub now' now < rk_MarketCooldown r"
    using d assms(3,4) by (subst timeSub_less_iff) (simp_all add: minDuration_def)
  then have "list_ex (inCooldown r' now' (lastMap r')) intents'"
    using j(1,2) m cd by (auto simp: list_ex_iff inCooldown_def)
  then have "\<not> capsPass now' intents' s' r' tot" for tot using cd assms(3) by (simp add: capsPass_def)
  moreover have "intents' \<noteq> []" using j(1) by auto
  ultimately show "Check now' intents' s' mids' r' \<noteq> Some (r'', None)"
    using Check_accepted by metis
qed

corollary cooldown_enforced_witness:
  "Check 105 [demoIntent] demoSnap [] (recorded 100 [demoIntent] demoRisk) \<noteq> Some (demoRisk, None)"
proof -
  have p: "isPlace demoIntent" by (simp add: demoIntent_def isPlace_def)
  show ?thesis
    by (rule cooldown_enforced [OF _ demo_accepted, THEN conjunct2, rule_format, of demoIntent demoIntent])
      (simp_all add: demoRisk_def maxDuration_def p)
qed

text \<open>C39. Risk and ledger agree on one order: when the check lets a single PLACE through on the
  ledger's own snapshot, the provisional reservation that follows succeeds, provided the intent
  has a new id and the amount does not round to 0.\<close>

theorem check_then_reserve:
  assumes "Check now [ord] (Snapshot_of st) mids r = Some (r', None)" and "isPlace ord"
    and "oi_IntentID ord \<noteq> []" and "\<not> ghas (st_provisional st) (oi_IntentID ord)"
    and "0 < RequiredCollateral (oi_Side ord) (oi_Price ord) (oi_Size ord)"
  shows "snd (TryReserveProvisional clock (oi_IntentID ord) (oi_MarketID ord) (oi_TokenID ord) (oi_Side ord)
    (oi_Price ord) (oi_Size ord) t ttl st) = None"
proof -
  note s = check_sound [OF _ assms(1)]
  have a: "effAction ord = Place" using assms(2) by (simp add: isPlace_eff)
  have v: "oi_MarketID ord \<noteq> []" "oi_TokenID ord \<noteq> []" "0 < oi_Size ord" "0 < oi_Price ord" "oi_Price ord < 1"
    "oi_Side ord \<in> {BUY, SELL}"
    using s a by (auto simp: intentValid_def)
  show ?thesis
  proof (cases "oi_Side ord")
    case BUY
    then have b: "batchBuy [ord] = oi_Size ord * oi_Price ord" using a by (simp add: batchBuy_def buyNeed_def)
    have "0 < batchBuy [ord]" using assms(5) BUY b by simp
    then have "oi_Size ord * oi_Price ord \<le> ba_Available (st_balance st) + FloatEpsilon"
      using s b by (simp add: Snapshot_of_def)
    then show ?thesis using v BUY assms(3,4) by (simp add: TryReserveProvisional_def Let_def not_less not_le)
  next
    case SELL
    have "batchSell (oi_TokenID ord) [ord] = oi_Size ord" using a SELL by (simp add: batchSell_def sellNeed_def)
    moreover have "concat (map (sellNeed (oi_TokenID ord)) [ord]) \<noteq> []" using a SELL by (simp add: sellNeed_def)
    then have "batchSell (oi_TokenID ord) [ord] \<le> tp_Available (gget zeroTokenPosition (sn_Tokens (Snapshot_of st)) (oi_TokenID ord))"
      using s by blast
    ultimately have "oi_Size ord \<le> tp_Available (tokenPos st (oi_TokenID ord))"
      by (simp add: Snapshot_of_def)
    then have "oi_Size ord \<le> tp_Available (tokenPos st (oi_TokenID ord)) + FloatEpsilon"
      using f_add_increasing [OF FloatEpsilon_nonneg] order_trans by blast
    then show ?thesis using v SELL assms(3,4) by (simp add: TryReserveProvisional_def Let_def not_less not_le)
  qed (use v in auto)
qed

definition demoLedger :: State where
  "demoLedger = \<lparr>st_tokens = [], st_balance = \<lparr>ba_Available = f64 100, ba_Reserved = 0, ba_MinBalance = f64 1\<rparr>,
     st_orders = [], st_provisional = [], st_dailyPnL = 0, st_dailyPnLDate = None,
     st_balanceSync = \<lparr>bs_Enabled = False, bs_HasReader = False, bs_Interval = 0, bs_Epsilon = 0, bs_MinBalance = 0\<rparr>,
     st_reconcileTrigger = False, st_expiryMarkets = []\<rparr>"

corollary check_then_reserve_witness:
  "snd (TryReserveProvisional 1 ''i'' ''m'' ''t'' BUY (f64 (1/2)) (f64 10) 1 0 demoLedger) = None"
proof -
  have f: "oi_IntentID demoIntent = ''i''" "oi_MarketID demoIntent = ''m''" "oi_TokenID demoIntent = ''t''"
    "oi_Side demoIntent = BUY" "oi_Price demoIntent = f64 (1/2)" "oi_Size demoIntent = f64 10"
    "isPlace demoIntent" by (simp_all add: demoIntent_def isPlace_def)
  have "Snapshot_of demoLedger = demoSnap" by (simp add: Snapshot_of_def demoLedger_def demoSnap_def)
  then have c: "Check 100 [demoIntent] (Snapshot_of demoLedger) [] demoRisk = Some (recorded 100 [demoIntent] demoRisk, None)"
    using demo_accepted by simp
  have n: "oi_IntentID demoIntent \<noteq> []" "\<not> ghas (st_provisional demoLedger) (oi_IntentID demoIntent)"
    by (simp_all add: f demoLedger_def)
  have p: "0 < RequiredCollateral (oi_Side demoIntent) (oi_Price demoIntent) (oi_Size demoIntent)"
    unfolding f by code_simp
  show ?thesis using check_then_reserve [OF c f(7) n p, of 1 1 0] by (simp add: f)
qed

end
