(* ===== verification/Runtime.thy ===== *)
theory Runtime
  imports Risk Ledger Bus "HOL-Library.Word"
begin

text \<open>
  Package \<^verbatim>\<open>runtime\<close>: the engine that tracks the exchange's order events, applies them to
  the ledger, and submits the strategies' intents (\<^verbatim>\<open>engine.go\<close>,
  \<^verbatim>\<open>event_handler.go\<close>, \<^verbatim>\<open>order_tracking.go\<close>, \<^verbatim>\<open>metrics.go\<close>).  The event loop
  handles one bus event after the other; a handler is a function on the engine's state.  The
  risk events a handler publishes are appended to \<open>en_risk\<close>; one reading of the clock serves
  all \<^verbatim>\<open>time.Now()\<close> of a call.
\<close>

section \<open>Data\<close>

record pendingExecution =
  px_events :: "ExecutionEvent list"
  px_firstSeen :: time

text \<open>The reason of a published risk event: a text, or the rejection of the risk check.\<close>

datatype riskReason = RiskText string | RiskRejected RejectionType

record Engine =
  en_State :: State
  en_Risk :: RiskEngine
  en_PendingEventTTL :: duration
  en_FinalizedOrderTTL :: duration
  en_ProvisionalOrderTTL :: duration
  en_StrategyTickInterval :: duration
  en_MetricsInterval :: duration
  en_ticks :: "64 word"
  en_inputEvents :: "64 word"
  en_executionEvents :: "64 word"
  en_executionAccepted :: "64 word"
  en_executionFilled :: "64 word"
  en_executionRejected :: "64 word"
  en_executionBuffered :: "64 word"
  en_executionExpired :: "64 word"
  en_riskRejected :: "64 word"
  en_ordersSent :: "64 word"
  en_reconcileRuns :: "64 word"
  en_reconcileDiffs :: "64 word"
  en_intentSeq :: "64 word"
  en_accepted :: "string set"
  en_finalized :: "string set"
  en_finalizedAt :: "(string, time) gomap"
  en_pending :: "(string, pendingExecution) gomap"
  en_risk :: "riskReason list"

definition publishRisk :: "riskReason \<Rightarrow> Engine \<Rightarrow> Engine" where
  "publishRisk reason e = e\<lparr>en_risk := en_risk e @ [reason]\<rparr>"

section \<open>Order tracking\<close>

definition initOrderTracking :: "Engine \<Rightarrow> Engine" where
  "initOrderTracking e =
    (let e = (if en_PendingEventTTL e \<le> 0 then e\<lparr>en_PendingEventTTL := 30 * second\<rparr> else e);
         e = (if en_FinalizedOrderTTL e \<le> 0 then e\<lparr>en_FinalizedOrderTTL := 10 * minute\<rparr> else e)
     in if en_ProvisionalOrderTTL e \<le> 0 then e\<lparr>en_ProvisionalOrderTTL := 5 * second\<rparr> else e)"

definition isFinalized :: "string \<Rightarrow> Engine \<Rightarrow> bool" where
  "isFinalized orderID e = (orderID \<in> en_finalized e)"

definition markAccepted :: "string \<Rightarrow> Engine \<Rightarrow> Engine" where
  "markAccepted orderID e = e\<lparr>en_accepted := insert orderID (en_accepted e)\<rparr>"

definition hasAccepted :: "string \<Rightarrow> Engine \<Rightarrow> bool" where
  "hasAccepted orderID e = (orderID \<in> en_accepted e)"

definition bufferExecution :: "time \<Rightarrow> ExecutionEvent \<Rightarrow> Engine \<Rightarrow> Engine" where
  "bufferExecution clock data e =
    (let pending = (case map_of (en_pending e) (ev_OrderID data) of
                      Some p \<Rightarrow> p | None \<Rightarrow> \<lparr>px_events = [], px_firstSeen = clock\<rparr>);
         pending = pending\<lparr>px_events := px_events pending @ [data]\<rparr>
     in e\<lparr>en_pending := gput (ev_OrderID data) pending (en_pending e),
          en_executionBuffered := en_executionBuffered e + 1\<rparr>)"

definition finalizeOrder :: "time \<Rightarrow> string \<Rightarrow> Engine \<Rightarrow> Engine" where
  "finalizeOrder clock orderID e =
     e\<lparr>en_accepted := en_accepted e - {orderID},
       en_pending := gdel orderID (en_pending e),
       en_finalized := insert orderID (en_finalized e),
       en_finalizedAt := gput orderID clock (en_finalizedAt e)\<rparr>"

definition pendingOrderCount :: "Engine \<Rightarrow> int" where
  "pendingOrderCount e = int (length (en_pending e))"

definition restoreOpenOrdersTrackingByIDs :: "string list \<Rightarrow> Engine \<Rightarrow> Engine" where
  "restoreOpenOrdersTrackingByIDs orderIDs e =
     fold (\<lambda>orderID e. if orderID = [] then e else markAccepted orderID e) orderIDs e"

section \<open>Execution events\<close>

text \<open>The branch for an event without an order id.\<close>

definition handleAnonymous :: "ExecutionEvent \<Rightarrow> Engine \<Rightarrow> Engine" where
  "handleAnonymous data e =
    (if ev_Status data = Rejected then
       let e = e\<lparr>en_executionRejected := en_executionRejected e + 1\<rparr>;
           e = (if ev_ParentOrderID data \<noteq> []
                then e\<lparr>en_State := fst (ReleaseProvisional (ev_ParentOrderID data) (en_State e))\<rparr> else e)
       in if ev_Reason data \<noteq> [] then publishRisk (RiskText (''execution rejected reason='' @ ev_Reason data)) e else e
     else e)"

definition handleFill :: "time \<Rightarrow> ExecutionEvent \<Rightarrow> Engine \<Rightarrow> Engine" where
  "handleFill clock data e =
    (if \<not> hasAccepted (ev_OrderID data) e then bufferExecution clock data e
     else
       let e = e\<lparr>en_executionFilled := en_executionFilled e + 1\<rparr>;
           (s, err) = (if 0 < ev_FilledSize data
                       then ApplyFill clock (ev_OrderID data) (ev_MarketID data) (ev_TokenID data) (ev_Side data)
                              (ev_FilledSize data) (ev_Price data) (en_State e)
                       else (en_State e, None))
       in case err of
            Some er \<Rightarrow> publishRisk (RiskText (''fill apply failed order='' @ ev_OrderID data @ '' reason='' @ errorText er))
                        (e\<lparr>en_State := s\<rparr>)
          | None \<Rightarrow>
              (if ev_Status data = Filled
               then finalizeOrder clock (ev_OrderID data) (e\<lparr>en_State := ReleaseOrder (ev_OrderID data) s\<rparr>)
               else e\<lparr>en_State := s\<rparr>))"

definition handleCancelled :: "time \<Rightarrow> ExecutionEvent \<Rightarrow> Engine \<Rightarrow> Engine" where
  "handleCancelled clock data e =
    (if \<not> hasAccepted (ev_OrderID data) e then bufferExecution clock data e
     else finalizeOrder clock (ev_OrderID data) (e\<lparr>en_State := ReleaseOrder (ev_OrderID data) (en_State e)\<rparr>))"

definition handleRejected :: "time \<Rightarrow> ExecutionEvent \<Rightarrow> Engine \<Rightarrow> Engine" where
  "handleRejected clock data e =
    (let e = e\<lparr>en_executionRejected := en_executionRejected e + 1\<rparr>;
         e = (if ev_ParentOrderID data \<noteq> []
              then e\<lparr>en_State := fst (ReleaseProvisional (ev_ParentOrderID data) (en_State e))\<rparr> else e);
         e = (if hasAccepted (ev_OrderID data) e then e\<lparr>en_State := ReleaseOrder (ev_OrderID data) (en_State e)\<rparr> else e);
         e = publishRisk (RiskText (''execution rejected order='' @ ev_OrderID data @ '' reason='' @ ev_Reason data)) e
     in finalizeOrder clock (ev_OrderID data) e)"

text \<open>The Accepted branch up to the replay of buffered events.\<close>

definition acceptOrder :: "ExecutionEvent \<Rightarrow> Engine \<Rightarrow> Engine" where
  "acceptOrder data e =
    (let e = e\<lparr>en_executionAccepted := en_executionAccepted e + 1\<rparr>;
         e = markAccepted (ev_OrderID data) e;
         (s, err) = AttachOrder (ev_ParentOrderID data) (ev_OrderID data) (ev_MarketID data) (ev_TokenID data)
                      (ev_Side data) (ev_Price data) (ev_RequestedSize data) (en_State e);
         e = e\<lparr>en_State := s\<rparr>
     in case err of
          None \<Rightarrow> e
        | Some er \<Rightarrow>
            (if er = ErrOrderAlreadyReserved then e
             else publishRisk (RiskText (''attach failed order='' @ ev_OrderID data @ '' reason='' @ errorText er)) e))"

definition takePending :: "string \<Rightarrow> Engine \<Rightarrow> Engine \<times> ExecutionEvent list" where
  "takePending orderID e =
    (case map_of (en_pending e) orderID of
       None \<Rightarrow> (e, [])
     | Some p \<Rightarrow> (e\<lparr>en_pending := gdel orderID (en_pending e)\<rparr>, px_events p))"

text \<open>\<^verbatim>\<open>handleExecutionEvent\<close> and \<^verbatim>\<open>replayPending\<close> call each other; the fuel bounds the
  depth of the calls, and \<open>None\<close> means that it ran out.\<close>

fun handleExecutionEvent :: "nat \<Rightarrow> time \<Rightarrow> ExecutionEvent \<Rightarrow> bool \<Rightarrow> Engine \<Rightarrow> Engine option"
  and replayEvents :: "nat \<Rightarrow> time \<Rightarrow> ExecutionEvent list \<Rightarrow> Engine \<Rightarrow> Engine option" where
  "handleExecutionEvent 0 clock data cnt e = None"
| "handleExecutionEvent (Suc fuel) clock data cnt e =
    (let e = (if cnt then e\<lparr>en_executionEvents := en_executionEvents e + 1\<rparr> else e) in
     if ev_OrderID data = [] then Some (handleAnonymous data e)
     else if isFinalized (ev_OrderID data) e then Some e
     else case ev_Status data of
       Accepted \<Rightarrow>
         (let (e, events) = takePending (ev_OrderID data) (acceptOrder data e)
          in replayEvents fuel clock events e)
     | PartiallyFilled \<Rightarrow> Some (handleFill clock data e)
     | Filled \<Rightarrow> Some (handleFill clock data e)
     | Cancelled \<Rightarrow> Some (handleCancelled clock data e)
     | Rejected \<Rightarrow> Some (handleRejected clock data e))"
| "replayEvents fuel clock [] e = Some e"
| "replayEvents fuel clock (evt # evts) e =
    (case handleExecutionEvent fuel clock evt False e of
       None \<Rightarrow> None
     | Some e \<Rightarrow> replayEvents fuel clock evts e)"

section \<open>Cleanup\<close>

fun decimalNat :: "nat \<Rightarrow> string" where
  "decimalNat n = (if n < 10 then [char_of (48 + n)] else decimalNat (n div 10) @ [char_of (48 + n mod 10)])"

declare decimalNat.simps [simp del]

definition decimal :: "int \<Rightarrow> string" where
  "decimal i = (if i < 0 then ''-'' @ decimalNat (nat (- i)) else decimalNat (nat i))"

definition stalePending :: "time \<Rightarrow> duration \<Rightarrow> pendingExecution \<Rightarrow> bool" where
  "stalePending now ttl p = (\<not> timeSub now (px_firstSeen p) < ttl)"

definition cleanupExpiredPending :: "time \<Rightarrow> Engine \<Rightarrow> Engine" where
  "cleanupExpiredPending now e =
    (if en_PendingEventTTL e \<le> 0 then e
     else
       let ttl = en_PendingEventTTL e;
           expired = filter (\<lambda>(k, p). stalePending now ttl p) (en_pending e);
           e = e\<lparr>en_pending := filter (\<lambda>(k, p). \<not> stalePending now ttl p) (en_pending e)\<rparr>
       in fold (\<lambda>(k, p) e. publishRisk
              (RiskText (''drop stale pending execution order='' @ k @ '' buffered='' @ decimal (int (length (px_events p)))))
              (e\<lparr>en_executionExpired := en_executionExpired e + of_nat (length (px_events p))\<rparr>)) expired e)"

definition cleanupExpiredFinalized :: "time \<Rightarrow> Engine \<Rightarrow> Engine" where
  "cleanupExpiredFinalized now e =
    (if en_FinalizedOrderTTL e \<le> 0 then e
     else
       let old = map fst (filter (\<lambda>(k, t). \<not> timeSub now t < en_FinalizedOrderTTL e) (en_finalizedAt e))
       in e\<lparr>en_finalizedAt := filter (\<lambda>(k, t). timeSub now t < en_FinalizedOrderTTL e) (en_finalizedAt e),
            en_finalized := en_finalized e - set old\<rparr>)"

definition cleanupExpiredProvisional :: "time \<Rightarrow> time \<Rightarrow> Engine \<Rightarrow> Engine" where
  "cleanupExpiredProvisional clock now e =
    (let (s, expired) = CleanupExpiredProvisional clock now (en_State e)
     in fold (\<lambda>intentID e. publishRisk (RiskText (''release expired provisional reserve intent='' @ intentID)) e)
          expired (e\<lparr>en_State := s\<rparr>))"

definition cleanupTracking :: "time \<Rightarrow> time \<Rightarrow> Engine \<Rightarrow> Engine" where
  "cleanupTracking clock now e =
     cleanupExpiredProvisional clock now (cleanupExpiredFinalized now (cleanupExpiredPending now e))"

section \<open>Submitting intents\<close>

definition nextIntentID :: "time \<Rightarrow> Engine \<Rightarrow> Engine \<times> string" where
  "nextIntentID clock e =
    (let e = e\<lparr>en_intentSeq := en_intentSeq e + 1\<rparr>
     in (e, ''intent-'' @ decimal (clock - unixEpoch * second) @ ''-'' @ decimal (uint (en_intentSeq e))))"

text \<open>The loop of \<^verbatim>\<open>submitIntents\<close>; the accumulator is the list \<^verbatim>\<open>submit\<close>.\<close>

fun reserveLoop :: "time \<Rightarrow> OrderIntent list \<Rightarrow> Engine \<Rightarrow> OrderIntent list \<Rightarrow> Engine \<times> OrderIntent list" where
  "reserveLoop clock [] e submit = (e, submit)"
| "reserveLoop clock (i # rest) e submit =
     (let i = (if oi_Action i = NoAction then i\<lparr>oi_Action := Place\<rparr> else i) in
      if oi_Action i \<noteq> Place then reserveLoop clock rest e (submit @ [i])
      else
        let (e, i) = (if oi_IntentID i = []
                      then (let (e, new) = nextIntentID clock e in (e, i\<lparr>oi_IntentID := new\<rparr>)) else (e, i));
            (s, err) = TryReserveProvisional clock (oi_IntentID i) (oi_MarketID i) (oi_TokenID i) (oi_Side i)
                         (oi_Price i) (oi_Size i) clock (en_ProvisionalOrderTTL e) (en_State e);
            e = e\<lparr>en_State := s\<rparr>
        in case err of
             Some er \<Rightarrow>
               reserveLoop clock rest
                 (publishRisk (RiskText (''provisional reserve failed intent='' @ oi_IntentID i @ '' reason='' @ errorText er))
                    (e\<lparr>en_riskRejected := en_riskRejected e + 1\<rparr>)) submit
           | None \<Rightarrow> reserveLoop clock rest e (submit @ [i]))"

text \<open>The result: the engine, whether to go on with the next strategy, and the batch handed to
  the executor (empty when it is not called).  A panic of the risk check is \<open>None\<close>.\<close>

definition submitIntents ::
  "time \<Rightarrow> OrderIntent list \<Rightarrow> Snapshot \<Rightarrow> (string, float64) gomap \<Rightarrow> Engine \<Rightarrow>
   (Engine \<times> bool \<times> OrderIntent list) option" where
  "submitIntents clock intents snap mids e =
    (if intents = [] then Some (e, True, [])
     else case Check clock intents snap mids (en_Risk e) of
       None \<Rightarrow> None
     | Some (rk, Some rej) \<Rightarrow>
         Some (publishRisk (RiskRejected rej) (e\<lparr>en_Risk := rk, en_riskRejected := en_riskRejected e + 1\<rparr>), False, [])
     | Some (rk, None) \<Rightarrow>
         (let (e, submit) = reserveLoop clock intents (e\<lparr>en_Risk := rk\<rparr>) []
          in if submit = [] then Some (e, True, [])
             else Some (e\<lparr>en_ordersSent := en_ordersSent e + of_nat (length submit)\<rparr>, True, submit)))"

section \<open>The strategies\<close>

record Token =
  tok_Id :: string
  tok_AskPrice :: float64
  tok_AskSize :: float64
  tok_BidPrice :: float64
  tok_BidSize :: float64
  tok_Latency :: int

definition buildMidPrices :: "(string, Token) gomap \<Rightarrow> (string, float64) gomap" where
  "buildMidPrices tokens =
     fold (\<lambda>(k, tk) mids. if 0 < tok_AskPrice tk \<and> 0 < tok_BidPrice tk
             then gput (tok_Id tk) ((tok_AskPrice tk + tok_BidPrice tk) / f64 2) mids else mids) tokens []"

text \<open>A strategy is what it answers to a snapshot of the ledger (\<open>None\<close>: no strategy, or one
  without the handler); all of them see the snapshot taken before the first.\<close>

fun runStrategies ::
  "time \<Rightarrow> (Snapshot \<Rightarrow> OrderIntent list) option list \<Rightarrow> Snapshot \<Rightarrow> (string, float64) gomap \<Rightarrow> Engine \<Rightarrow>
   OrderIntent list list \<Rightarrow> (Engine \<times> OrderIntent list list) option" where
  "runStrategies clock [] snap mids e sent = Some (e, sent)"
| "runStrategies clock (None # rest) snap mids e sent = runStrategies clock rest snap mids e sent"
| "runStrategies clock (Some strat # rest) snap mids e sent =
     (let intents = strat snap in
      if intents = [] then runStrategies clock rest snap mids e sent
      else case submitIntents clock intents snap mids e of
        None \<Rightarrow> None
      | Some (e, goOn, submit) \<Rightarrow>
          (let sent = (if submit = [] then sent else sent @ [submit]) in
           if goOn then runStrategies clock rest snap mids e sent else Some (e, sent)))"

text \<open>The observation of the probability model: \<open>None\<close> when there is no model, \<open>Some None\<close>
  when it reports nothing, else the tokens it shows.\<close>

definition handleInputUpdate ::
  "time \<Rightarrow> (string, Token) gomap option option \<Rightarrow> (Snapshot \<Rightarrow> OrderIntent list) option list \<Rightarrow> Engine \<Rightarrow>
   (Engine \<times> OrderIntent list list) option" where
  "handleInputUpdate clock obs strategies e =
    (case obs of
       None \<Rightarrow> Some (publishRisk (RiskText ''probability model is nil'') e, [])
     | Some observed \<Rightarrow>
         if strategies = [] then Some (publishRisk (RiskText ''strategy model is nil'') e, [])
         else case observed of
           None \<Rightarrow> Some (e, [])
         | Some tokens \<Rightarrow>
             runStrategies clock strategies (Snapshot_of (en_State e)) (buildMidPrices tokens)
               (e\<lparr>en_ticks := en_ticks e + 1\<rparr>) [])"

definition handleExecutionAwareStrategy ::
  "time \<Rightarrow> (string, Token) gomap option option \<Rightarrow> (Snapshot \<Rightarrow> OrderIntent list) option list \<Rightarrow> Engine \<Rightarrow>
   (Engine \<times> OrderIntent list list) option" where
  "handleExecutionAwareStrategy clock obs strategies e =
    (case obs of
       None \<Rightarrow> Some (publishRisk (RiskText ''probability model is nil'') e, [])
     | Some observed \<Rightarrow>
         if strategies = [] then Some (publishRisk (RiskText ''strategy model is nil'') e, [])
         else case observed of
           None \<Rightarrow> Some (e, [])
         | Some tokens \<Rightarrow>
             runStrategies clock strategies (Snapshot_of (en_State e)) (buildMidPrices tokens) e [])"

definition handleStrategyTick ::
  "time \<Rightarrow> (string, Token) gomap option option \<Rightarrow> (Snapshot \<Rightarrow> OrderIntent list) option list \<Rightarrow> Engine \<Rightarrow>
   (Engine \<times> OrderIntent list list) option" where
  "handleStrategyTick clock obs strategies e =
    (if strategies = [] then Some (e, [])
     else case obs of
       None \<Rightarrow> Some (e, [])
     | Some None \<Rightarrow> Some (e, [])
     | Some (Some tokens) \<Rightarrow>
         runStrategies clock strategies (Snapshot_of (en_State e)) (buildMidPrices tokens) e [])"

section \<open>Metrics\<close>

record MetricsEvent =
  me_Ticks :: "64 word"
  me_InputEvents :: "64 word"
  me_ExecutionEvents :: "64 word"
  me_ExecutionAccepted :: "64 word"
  me_ExecutionFilled :: "64 word"
  me_ExecutionRejected :: "64 word"
  me_ExecutionBuffered :: "64 word"
  me_ExecutionExpired :: "64 word"
  me_PendingOrders :: int
  me_RiskRejected :: "64 word"
  me_OrdersSent :: "64 word"
  me_BusPublished :: "64 word"
  me_BusDropped :: "64 word"
  me_BusSubscribers :: int
  me_BalanceAvailable :: float64
  me_BalanceReserved :: float64
  me_UnrealizedPnL :: float64
  me_DailyPnL :: float64
  me_ReconcileRuns :: "64 word"
  me_ReconcileDiffs :: "64 word"
  me_At :: time

definition publishMetrics :: "time \<Rightarrow> (string, Token) gomap option \<Rightarrow> BusStats \<Rightarrow> Engine \<Rightarrow> MetricsEvent" where
  "publishMetrics clock obs busStats e =
    (let mids = (case obs of None \<Rightarrow> [] | Some tokens \<Rightarrow> buildMidPrices tokens) in
     \<lparr>me_Ticks = en_ticks e, me_InputEvents = en_inputEvents e, me_ExecutionEvents = en_executionEvents e,
      me_ExecutionAccepted = en_executionAccepted e, me_ExecutionFilled = en_executionFilled e,
      me_ExecutionRejected = en_executionRejected e, me_ExecutionBuffered = en_executionBuffered e,
      me_ExecutionExpired = en_executionExpired e, me_PendingOrders = pendingOrderCount e,
      me_RiskRejected = en_riskRejected e, me_OrdersSent = en_ordersSent e,
      me_BusPublished = bst_Published busStats, me_BusDropped = bst_Dropped busStats,
      me_BusSubscribers = bst_Subscribers busStats,
      me_BalanceAvailable = ba_Available (st_balance (en_State e)),
      me_BalanceReserved = ba_Reserved (st_balance (en_State e)),
      me_UnrealizedPnL = UnrealizedPnL mids (en_State e), me_DailyPnL = st_dailyPnL (en_State e),
      me_ReconcileRuns = en_reconcileRuns e, me_ReconcileDiffs = en_reconcileDiffs e, me_At = clock\<rparr>)"

definition RecordReconcile :: "int \<Rightarrow> Engine \<Rightarrow> Engine" where
  "RecordReconcile diffCount e =
    (let e = e\<lparr>en_reconcileRuns := en_reconcileRuns e + 1\<rparr>
     in if 0 < diffCount then e\<lparr>en_reconcileDiffs := en_reconcileDiffs e + of_int diffCount\<rparr> else e)"

section \<open>Start and the event loop\<close>

text \<open>\<^verbatim>\<open>GetDuration\<close> of the configuration is a parameter; \<open>None\<close> is the nil
  configuration.\<close>

definition initConfig :: "(string \<Rightarrow> duration) option \<Rightarrow> Engine \<Rightarrow> Engine" where
  "initConfig config e =
    (case config of
       None \<Rightarrow> e\<lparr>en_StrategyTickInterval := 0, en_MetricsInterval := 5 * minute\<rparr>
     | Some GetDuration \<Rightarrow>
         (let mi = GetDuration ''runtime.metrics_interval''
          in e\<lparr>en_StrategyTickInterval := GetDuration ''runtime.strategy_tick_interval'',
               en_MetricsInterval := (if mi = 0 then 5 * minute else mi)\<rparr>))"

text \<open>\<^verbatim>\<open>Start\<close> up to the launch of the loops, with the three replies of the exchange.\<close>

definition Start ::
  "(string \<Rightarrow> duration) option \<Rightarrow> 'j gjson \<Rightarrow> goerror + float64 \<Rightarrow> goerror + OpenOrder list \<Rightarrow> goerror + 'j option \<Rightarrow>
   Engine \<Rightarrow> Engine" where
  "Start config G reading ordersReply positionsReply e =
    (let e = initOrderTracking (initConfig config e);
         (s, res) = RestoreFromExchange G reading ordersReply positionsReply (en_State e);
         e = e\<lparr>en_State := s\<rparr>
     in case res of
          Inl err \<Rightarrow> publishRisk (RiskText (''restore from exchange failed reason='' @ errorText err)) e
        | Inr restoredOrderIDs \<Rightarrow> restoreOpenOrdersTrackingByIDs restoredOrderIDs e)"

text \<open>What the engine's loops select on: a bus event that carries market data, an execution
  event (\<open>None\<close>: a payload of another type), a resolved market (the strategies are told, the
  engine keeps nothing), a strategy tick, and the two tickers.\<close>

datatype engineInput =
    InputEvent "(string, Token) gomap option option" "(Snapshot \<Rightarrow> OrderIntent list) option list"
  | ExecutionInput "ExecutionEvent option" "(string, Token) gomap option option"
      "(Snapshot \<Rightarrow> OrderIntent list) option list"
  | MarketResolvedEvent
  | StrategyTick "(string, Token) gomap option option" "(Snapshot \<Rightarrow> OrderIntent list) option list"
  | CleanupTick time

text \<open>An acceptance replays buffered events and those replay nothing more: the calls nest to
  depth 2.\<close>

definition replayDepth :: nat where
  "replayDepth = 2"

fun engineEvent :: "time \<Rightarrow> engineInput \<Rightarrow> Engine \<Rightarrow> (Engine \<times> OrderIntent list list) option" where
  "engineEvent clock (InputEvent obs strategies) e =
     handleInputUpdate clock obs strategies (e\<lparr>en_inputEvents := en_inputEvents e + 1\<rparr>)"
| "engineEvent clock (ExecutionInput None obs strategies) e =
     Some (publishRisk (RiskText ''invalid execution event payload'') e, [])"
| "engineEvent clock (ExecutionInput (Some data) obs strategies) e =
     (case handleExecutionEvent replayDepth clock data True e of
        None \<Rightarrow> None
      | Some e \<Rightarrow> handleExecutionAwareStrategy clock obs strategies e)"
| "engineEvent clock MarketResolvedEvent e = Some (e, [])"
| "engineEvent clock (StrategyTick obs strategies) e = handleStrategyTick clock obs strategies e"
| "engineEvent clock (CleanupTick now) e = Some (cleanupTracking clock now e, [])"

text \<open>Whether the loop asks for strategy ticks at all.\<close>

definition hasTickStrategy :: "(Snapshot \<Rightarrow> OrderIntent list) option list \<Rightarrow> bool" where
  "hasTickStrategy strategies = list_ex (\<lambda>s. s \<noteq> None) strategies"

definition strategyTickerOn :: "(Snapshot \<Rightarrow> OrderIntent list) option list \<Rightarrow> Engine \<Rightarrow> bool" where
  "strategyTickerOn strategies e = (0 < en_StrategyTickInterval e \<and> hasTickStrategy strategies)"

text \<open>The metrics ticker: a cleanup, then the counters are published.\<close>

definition metricsTick :: "time \<Rightarrow> time \<Rightarrow> (string, Token) gomap option \<Rightarrow> BusStats \<Rightarrow> Engine \<Rightarrow> Engine \<times> MetricsEvent" where
  "metricsTick clock now tokens stats e =
    (let e = cleanupTracking clock now e in (e, publishMetrics clock tokens stats e))"

end
