(* ===== verification/Execution.thy ===== *)
theory Execution
  imports Risk Runtime
begin

text \<open>
  Package \<^verbatim>\<open>execution\<close>: the executor that validates and queues batches of intents, posts
  them to the exchange and turns its replies and websocket messages into execution events
  (\<^verbatim>\<open>executor.go\<close>, \<^verbatim>\<open>placements.go\<close>, \<^verbatim>\<open>trade_events.go\<close>,
  \<^verbatim>\<open>splits_merges.go\<close>).  Events the executor publishes are appended to \<open>ex_out\<close>,
  calls of the \<^verbatim>\<open>Reconcile\<close> callback are counted in \<open>ex_reconciles\<close>.  The queue is a
  bounded channel of batches; \<open>None\<close> is the nil channel before \<^verbatim>\<open>Init\<close>.  The exchange
  client and the relayer are third-party code: a record of functions, a parameter of the
  operations that call them.
\<close>

section \<open>Data\<close>

record trackedOrder =
  tr_MarketID :: string
  tr_TokenID :: string
  tr_Side :: side
  tr_Price :: float64
  tr_RequestedSize :: float64
  tr_FilledSize :: float64
  tr_Accepted :: bool
  tr_Finalized :: bool
  tr_SeenTradeIDs :: "string set"

text \<open>The zero value of \<^verbatim>\<open>orders.Side\<close> is the empty string.\<close>

definition newTracked :: trackedOrder where
  "newTracked = \<lparr>tr_MarketID = [], tr_TokenID = [], tr_Side = OtherSide [], tr_Price = 0, tr_RequestedSize = 0,
     tr_FilledSize = 0, tr_Accepted = False, tr_Finalized = False, tr_SeenTradeIDs = {}\<rparr>"

record Executor =
  ex_HasBus :: bool
  ex_HasClient :: bool
  ex_Key :: "string option"
  ex_DeferExec :: bool
  ex_DryRun :: bool
  ex_HasReconcile :: bool
  ex_ExecutionQueueSize :: int
  ex_tracked :: "(string, trackedOrder) gomap"
  ex_queue :: "OrderIntent list list option"
  ex_out :: "ExecutionEvent list"
  ex_reconciles :: nat

record 'o preparedPlacement =
  pp_intent :: OrderIntent
  pp_order :: 'o
  pp_orderType :: orderType

text \<open>The client: \<^verbatim>\<open>CreateOrder\<close> gets the position of the call first, since equal orders
  may have different outcomes.  \<open>Inl\<close> is an error; the reply of the relayer is its state.\<close>

record ('o, 'j) exchangeClient =
  xc_CreateOrder :: "nat \<Rightarrow> string \<Rightarrow> float64 \<Rightarrow> float64 \<Rightarrow> side \<Rightarrow> goerror + 'o"
  xc_PostOrder :: "'o \<Rightarrow> orderType \<Rightarrow> bool \<Rightarrow> goerror + 'j"
  xc_PostOrders :: "('o \<times> orderType) list \<Rightarrow> bool \<Rightarrow> goerror + 'j"
  xc_CancelOrder :: "string \<Rightarrow> goerror option"
  xc_CancelOrders :: "string list \<Rightarrow> goerror option"
  xc_SplitTokens :: "string \<Rightarrow> string \<Rightarrow> goerror + string"
  xc_MergeTokens :: "string \<Rightarrow> string \<Rightarrow> goerror + string"
  xc_decimals :: nat

section \<open>Helpers\<close>

definition defaultExecutionQueue :: int where
  "defaultExecutionQueue = 1024"

definition Init :: "Executor \<Rightarrow> Executor" where
  "Init e =
    (let e = e\<lparr>ex_HasBus := True\<rparr>;
         e = (if ex_ExecutionQueueSize e \<le> 0 then e\<lparr>ex_ExecutionQueueSize := defaultExecutionQueue\<rparr> else e);
         e = (if ex_queue e = None then e\<lparr>ex_queue := Some []\<rparr> else e)
     in e\<lparr>ex_HasClient := True\<rparr>)"

definition publish :: "ExecutionEvent \<Rightarrow> Executor \<Rightarrow> Executor" where
  "publish data e = (if ex_HasBus e then e\<lparr>ex_out := ex_out e @ [data]\<rparr> else e)"

text \<open>The event every branch builds from an intent: the fields it leaves out are zero.\<close>

definition eventOf :: "OrderIntent \<Rightarrow> string \<Rightarrow> float64 \<Rightarrow> ExecutionStatus \<Rightarrow> string \<Rightarrow> time \<Rightarrow> ExecutionEvent" where
  "eventOf i orderID filled status reason tm =
     \<lparr>ev_OrderID = orderID, ev_ParentOrderID = oi_IntentID i, ev_MarketID = oi_MarketID i,
      ev_TokenID = oi_TokenID i, ev_Price = oi_Price i, ev_Side = oi_Side i, ev_RequestedSize = oi_Size i,
      ev_FilledSize = filled, ev_Status = status, ev_Reason = reason, ev_At = tm\<rparr>"

definition rejection :: "OrderIntent \<Rightarrow> string \<Rightarrow> time \<Rightarrow> ExecutionEvent" where
  "rejection i reason tm = eventOf i [] 0 Rejected reason tm"

definition ownKey :: "Executor \<Rightarrow> string" where
  "ownKey e = (case ex_Key e of None \<Rightarrow> [] | Some k \<Rightarrow> TrimSpace k)"

definition isOwnOwner :: "Executor \<Rightarrow> string \<Rightarrow> bool" where
  "isOwnOwner e owner = (ownKey e = [] \<or> TrimSpace owner = ownKey e)"

definition validatePlacement :: "OrderIntent \<Rightarrow> string option" where
  "validatePlacement i =
    (if TrimSpace (oi_MarketID i) = [] then Some ''empty market id''
     else if TrimSpace (oi_TokenID i) = [] then Some ''empty token id''
     else if oi_Size i \<le> 0 then Some ''invalid order size''
     else if oi_Price i \<le> 0 \<or> 1 \<le> oi_Price i then Some ''invalid order price''
     else if oi_Side i \<noteq> BUY \<and> oi_Side i \<noteq> SELL then Some ''invalid order side''
     else case oi_OrderType i of OtherType _ \<Rightarrow> Some ''invalid order type'' | _ \<Rightarrow> None)"

definition parseEventTime :: "time \<Rightarrow> int \<Rightarrow> time" where
  "parseEventTime clock ts =
    (if ts \<le> 0 then clock
     else if 1000000000000 < ts then unixEpoch * second + ts * 1000000
     else unixEpoch * second + ts * second)"

definition firstNonEmpty :: "string \<Rightarrow> string \<Rightarrow> string" where
  "firstNonEmpty a b = (if TrimSpace a \<noteq> [] then a else b)"

section \<open>Tracked orders\<close>

text \<open>The order behind the pointer that \<^verbatim>\<open>getOrCreateTracked\<close> returns; a change through the
  pointer is a write to the map.\<close>

definition getOrCreateTracked :: "string \<Rightarrow> Executor \<Rightarrow> trackedOrder" where
  "getOrCreateTracked orderID e = gget newTracked (ex_tracked e) orderID"

definition setTracked :: "string \<Rightarrow> trackedOrder \<Rightarrow> Executor \<Rightarrow> Executor" where
  "setTracked orderID t e = e\<lparr>ex_tracked := gput orderID t (ex_tracked e)\<rparr>"

definition trackPostedOrder :: "string \<Rightarrow> OrderIntent \<Rightarrow> Executor \<Rightarrow> Executor" where
  "trackPostedOrder orderID i e =
    (if TrimSpace orderID = [] then e
     else
       let t = getOrCreateTracked orderID e;
           t = t\<lparr>tr_MarketID := firstNonEmpty (oi_MarketID i) (tr_MarketID t),
                 tr_TokenID := firstNonEmpty (oi_TokenID i) (tr_TokenID t), tr_Side := oi_Side i\<rparr>;
           t = (if 0 < oi_Price i then t\<lparr>tr_Price := oi_Price i\<rparr> else t);
           t = (if 0 < oi_Size i then t\<lparr>tr_RequestedSize := oi_Size i\<rparr> else t)
       in setTracked orderID (t\<lparr>tr_Accepted := True\<rparr>) e)"

definition publishAcceptedFromPost :: "OrderIntent \<Rightarrow> string \<Rightarrow> time \<Rightarrow> Executor \<Rightarrow> Executor" where
  "publishAcceptedFromPost i orderID tm e = publish (eventOf i orderID 0 Accepted [] tm) e"

text \<open>The event built from a tracked order.\<close>

definition trackedEvent :: "string \<Rightarrow> trackedOrder \<Rightarrow> float64 \<Rightarrow> ExecutionStatus \<Rightarrow> string \<Rightarrow> time \<Rightarrow> ExecutionEvent" where
  "trackedEvent orderID t filled status reason tm =
     \<lparr>ev_OrderID = orderID, ev_ParentOrderID = [], ev_MarketID = tr_MarketID t, ev_TokenID = tr_TokenID t,
      ev_Price = tr_Price t, ev_Side = tr_Side t, ev_RequestedSize = tr_RequestedSize t,
      ev_FilledSize = filled, ev_Status = status, ev_Reason = reason, ev_At = tm\<rparr>"

definition buildAcceptedEvent :: "string \<Rightarrow> trackedOrder \<Rightarrow> time \<Rightarrow> ExecutionEvent option" where
  "buildAcceptedEvent orderID t tm =
    (if tr_Accepted t \<or> tr_MarketID t = [] \<or> tr_TokenID t = [] \<or> tr_Price t \<le> 0 \<or> tr_RequestedSize t \<le> 0 then None
     else if tr_Side t \<noteq> BUY \<and> tr_Side t \<noteq> SELL then None
     else Some (trackedEvent orderID t 0 Accepted [] tm))"

text \<open>The fill builders return the changed order and the events.\<close>

definition buildFillEventsFromCumulative ::
  "string \<Rightarrow> trackedOrder \<Rightarrow> float64 \<Rightarrow> time \<Rightarrow> trackedOrder \<times> ExecutionEvent list" where
  "buildFillEventsFromCumulative orderID t cumulative tm =
    (let cumulative = (if cumulative < 0 then 0 else cumulative);
         delta = cumulative - tr_FilledSize t
     in if delta \<le> FloatEpsilon then (t, [])
        else
          let t = t\<lparr>tr_FilledSize := cumulative\<rparr>;
              full = (0 < tr_RequestedSize t \<and> tr_RequestedSize t \<le> tr_FilledSize t + FloatEpsilon);
              t = (if full then t\<lparr>tr_Finalized := True\<rparr> else t)
          in (t, [trackedEvent orderID t delta (if full then Filled else PartiallyFilled) [] tm]))"

definition buildFillEventsFromDelta ::
  "string \<Rightarrow> trackedOrder \<Rightarrow> float64 \<Rightarrow> time \<Rightarrow> trackedOrder \<times> ExecutionEvent list" where
  "buildFillEventsFromDelta orderID t delta tm =
    (if delta \<le> FloatEpsilon then (t, [])
     else buildFillEventsFromCumulative orderID t (tr_FilledSize t + delta) tm)"

section \<open>Execute\<close>

definition dryRunID :: "time \<Rightarrow> OrderIntent \<Rightarrow> string" where
  "dryRunID clock i = ''dryrun-'' @ decimal (clock - unixEpoch * second) @ ''-'' @ oi_TokenID i"

text \<open>Each intent of a dry run reads the clock again.\<close>

fun dryRun :: "time \<Rightarrow> time list \<Rightarrow> OrderIntent list \<Rightarrow> Executor \<Rightarrow> Executor" where
  "dryRun now clocks [] e = e"
| "dryRun now clocks (i # rest) e =
    (if oi_Action i = Cancel then dryRun now clocks rest e
     else
       let orderID = dryRunID (case clocks of [] \<Rightarrow> now | c # _ \<Rightarrow> c) i;
           e = publish (eventOf i orderID 0 Accepted [] now) e;
           e = publish (eventOf i orderID (oi_Size i) Filled [] now) e
       in dryRun now (drop 1 clocks) rest e)"

fun validateLoop :: "time \<Rightarrow> OrderIntent list \<Rightarrow> OrderIntent list \<Rightarrow> Executor \<Rightarrow> Executor \<times> OrderIntent list" where
  "validateLoop clock [] validated e = (e, validated)"
| "validateLoop clock (i # rest) validated e =
    (let i = (if oi_Action i = NoAction then i\<lparr>oi_Action := Place\<rparr> else i) in
     case oi_Action i of
       Place \<Rightarrow>
         (case validatePlacement i of
            Some err \<Rightarrow> validateLoop clock rest validated (publish (rejection i err clock) e)
          | None \<Rightarrow> validateLoop clock rest (validated @ [i]) e)
     | Cancel \<Rightarrow>
         (if TrimSpace (oi_OrderID i) = [] then validateLoop clock rest validated e
          else validateLoop clock rest (validated @ [i]) e)
     | Split \<Rightarrow>
         (if oi_Size i \<le> 0 \<or> length (oi_Tokens i) \<noteq> 2 then validateLoop clock rest validated e
          else validateLoop clock rest (validated @ [i]) e)
     | Merge \<Rightarrow>
         (if oi_Size i \<le> 0 \<or> length (oi_Tokens i) \<noteq> 2 then validateLoop clock rest validated e
          else validateLoop clock rest (validated @ [i]) e)
     | _ \<Rightarrow> validateLoop clock rest validated (publish (rejection i ''unsupported order action'' clock) e))"

definition rejectedInBatch :: "string \<Rightarrow> time \<Rightarrow> OrderIntent \<Rightarrow> ExecutionEvent" where
  "rejectedInBatch reason now i =
    (let ev = rejection i reason now
     in if oi_Action i = Cancel then ev\<lparr>ev_OrderID := oi_OrderID i\<rparr> else ev)"

definition rejectBatch :: "time \<Rightarrow> OrderIntent list \<Rightarrow> string \<Rightarrow> Executor \<Rightarrow> Executor" where
  "rejectBatch now intents reason e = fold (\<lambda>i. publish (rejectedInBatch reason now i)) intents e"

definition Execute :: "time \<Rightarrow> time list \<Rightarrow> OrderIntent list \<Rightarrow> Executor \<Rightarrow> Executor" where
  "Execute clock clocks intents e =
    (if intents = [] then e
     else if \<not> ex_DryRun e \<and> \<not> ex_HasClient e then e
     else if ex_DryRun e then dryRun clock clocks intents e
     else
       let (e, validated) = validateLoop clock intents [] e
       in if validated = [] then e
          else case ex_queue e of
            None \<Rightarrow> e
          | Some q \<Rightarrow>
              (if int (length q) < ex_ExecutionQueueSize e then e\<lparr>ex_queue := Some (q @ [validated])\<rparr>
               else rejectBatch clock validated ''execution queue full'' e))"

text \<open>The loop of \<^verbatim>\<open>drainQueueOnShutdown\<close> over what is left in the channel.\<close>

fun drainLoop :: "time \<Rightarrow> OrderIntent list list \<Rightarrow> Executor \<Rightarrow> Executor" where
  "drainLoop clock [] e = e\<lparr>ex_queue := Some []\<rparr>"
| "drainLoop clock (batch # rest) e = drainLoop clock rest (rejectBatch clock batch ''shutting down'' e)"

definition drainQueueOnShutdown :: "time \<Rightarrow> Executor \<Rightarrow> Executor" where
  "drainQueueOnShutdown clock e =
    (case ex_queue e of None \<Rightarrow> e | Some q \<Rightarrow> drainLoop clock q e)"

section \<open>The worker\<close>

text \<open>\<^verbatim>\<open>submitPlacements\<close> first signs the orders; the number is the position of the call.\<close>

fun prepareLoop ::
  "('o, 'j) exchangeClient \<Rightarrow> time \<Rightarrow> nat \<Rightarrow> OrderIntent list \<Rightarrow> 'o preparedPlacement list \<Rightarrow> Executor \<Rightarrow>
   Executor \<times> 'o preparedPlacement list" where
  "prepareLoop X clock n [] prepared e = (e, prepared)"
| "prepareLoop X clock n (i # rest) prepared e =
    (let ot = (if oi_OrderType i = NoType then GTC else oi_OrderType i) in
     case xc_CreateOrder X n (oi_TokenID i) (oi_Price i) (oi_Size i) (oi_Side i) of
       Inl err \<Rightarrow> prepareLoop X clock (Suc n) rest prepared
                   (publish (rejection i (''create order failed: '' @ errorText err) clock) e)
     | Inr signedOrder \<Rightarrow> prepareLoop X clock (Suc n) rest
                   (prepared @ [\<lparr>pp_intent = i, pp_order = signedOrder, pp_orderType = ot\<rparr>]) e)"

text \<open>What one reply does: the branches on \<^verbatim>\<open>errorMsg\<close> and \<^verbatim>\<open>orderID\<close>, the same in
  both ways of posting up to the word that starts the reason.\<close>

definition onPosted :: "'j gjson \<Rightarrow> string \<Rightarrow> time \<Rightarrow> OrderIntent \<Rightarrow> 'j \<Rightarrow> Executor \<Rightarrow> Executor" where
  "onPosted G what clock i result e =
    (let errorMsg = gj_String G (gj_Get G result ''errorMsg'') in
     if errorMsg \<noteq> [] then publish (rejection i (what @ '' failed: '' @ errorMsg) clock) e
     else
       let orderID = TrimSpace (gj_String G (gj_Get G result ''orderID'')) in
       if orderID = [] then publish (rejection i (what @ '' failed: empty order id'') clock) e
       else publishAcceptedFromPost i orderID clock (trackPostedOrder orderID i e))"

fun handlePostOrdersResults ::
  "'j gjson \<Rightarrow> time \<Rightarrow> 'o preparedPlacement list \<Rightarrow> 'j list \<Rightarrow> Executor \<Rightarrow> Executor" where
  "handlePostOrdersResults G clock [] results e = e"
| "handlePostOrdersResults G clock (po # rest) [] e =
     handlePostOrdersResults G clock rest []
       (publish (rejection (pp_intent po) ''post orders failed: missing result item'' clock) e)"
| "handlePostOrdersResults G clock (po # rest) (result # results) e =
     handlePostOrdersResults G clock rest results (onPosted G ''post orders'' clock (pp_intent po) result e)"

definition submitPlacements ::
  "'j gjson \<Rightarrow> ('o, 'j) exchangeClient \<Rightarrow> time \<Rightarrow> OrderIntent list \<Rightarrow> Executor \<Rightarrow> Executor" where
  "submitPlacements G X clock intents e =
    (if intents = [] then e
     else
       let (e, prepared) = prepareLoop X clock 0 intents [] e in
       case prepared of
         [] \<Rightarrow> e
       | [single] \<Rightarrow>
           (case xc_PostOrder X (pp_order single) (pp_orderType single) (ex_DeferExec e) of
              Inl err \<Rightarrow> publish (rejection (pp_intent single) (''post order failed: '' @ errorText err) clock) e
            | Inr result \<Rightarrow> onPosted G ''post order'' clock (pp_intent single) result e)
       | _ \<Rightarrow>
           (case xc_PostOrders X (map (\<lambda>po. (pp_order po, pp_orderType po)) prepared) (ex_DeferExec e) of
              Inl err \<Rightarrow> fold (\<lambda>po. publish (rejection (pp_intent po) (''post orders failed: '' @ errorText err) clock)) prepared e
            | Inr results \<Rightarrow> handlePostOrdersResults G clock prepared (gj_Array G results) e))"

text \<open>A failed cancel is reported without an order id.\<close>

definition cancelFailed :: "string \<Rightarrow> time \<Rightarrow> ExecutionEvent" where
  "cancelFailed reason tm =
     \<lparr>ev_OrderID = [], ev_ParentOrderID = [], ev_MarketID = [], ev_TokenID = [], ev_Price = 0, ev_Side = OtherSide [],
      ev_RequestedSize = 0, ev_FilledSize = 0, ev_Status = Rejected, ev_Reason = reason, ev_At = tm\<rparr>"

definition submitCancels :: "('o, 'j) exchangeClient \<Rightarrow> time \<Rightarrow> OrderIntent list \<Rightarrow> Executor \<Rightarrow> Executor" where
  "submitCancels X clock intents e =
    (case intents of
       [] \<Rightarrow> e
     | [i] \<Rightarrow>
         (case xc_CancelOrder X (oi_OrderID i) of
            None \<Rightarrow> e
          | Some err \<Rightarrow> publish (cancelFailed (''cancel order failed (order='' @ oi_OrderID i @ ''): '' @ errorText err) clock) e)
     | _ \<Rightarrow>
         (case xc_CancelOrders X (map oi_OrderID intents) of
            None \<Rightarrow> e
          | Some err \<Rightarrow>
              fold (\<lambda>i. publish (cancelFailed (''cancel orders failed (order='' @ oi_OrderID i @ ''): '' @ errorText err) clock))
                intents e))"

section \<open>Splits and merges\<close>

text \<open>\<^verbatim>\<open>math.Trunc\<close>, and \<^verbatim>\<open>strconv.FormatFloat(x, 'f', prec, 64)\<close>, which rounds the exact
  value to the nearest decimal, ties to even.\<close>

definition mathTrunc :: "float64 \<Rightarrow> float64" where
  "mathTrunc x = f64 (of_int (truncf x))"

fun padZeros :: "nat \<Rightarrow> string \<Rightarrow> string" where
  "padZeros n s = replicate (n - length s) CHR ''0'' @ s"

definition formatFixed :: "nat \<Rightarrow> float64 \<Rightarrow> string" where
  "formatFixed prec x =
    (let n = nat (rne (\<bar>rval x\<bar> * 10 ^ prec));
         sign = (if x < 0 then ''-'' else []);
         whole = decimalNat (n div 10 ^ prec)
     in if prec = 0 then sign @ whole
        else sign @ whole @ ''.'' @ padZeros prec (decimalNat (n mod 10 ^ prec)))"

definition truncSize :: "OrderIntent \<Rightarrow> float64" where
  "truncSize i = mathTrunc (oi_Size i * f64 1000000) / f64 1000000"

text \<open>The pseudo orders of a split (BUY) or merge (SELL), one per token, with the id made from
  the clock.\<close>

definition legIntent :: "side \<Rightarrow> OrderIntent \<Rightarrow> string \<Rightarrow> OrderIntent" where
  "legIntent sd i t =
     \<lparr>oi_Action = Place, oi_MarketID = oi_MarketID i, oi_TokenID = t, oi_Price = f64 (1 / 2), oi_Side = sd,
      oi_Size = truncSize i, oi_IntentID = [], oi_OrderID = [], oi_Tokens = [], oi_OrderType = oi_OrderType i\<rparr>"

definition legID :: "time \<Rightarrow> string \<Rightarrow> string" where
  "legID clock t = decimal (clock - unixEpoch * second) @ ''_'' @ t"

definition openLegs :: "time \<Rightarrow> side \<Rightarrow> OrderIntent \<Rightarrow> Executor \<Rightarrow> Executor" where
  "openLegs clock sd i e =
     fold (\<lambda>t e. publishAcceptedFromPost (legIntent sd i t) (legID clock t) clock
                   (trackPostedOrder (legID clock t) (legIntent sd i t) e)) (oi_Tokens i) e"

text \<open>One split or merge: \<open>what\<close> is the word in the reason texts, \<open>call\<close> the relayer.\<close>

definition splitOrMerge ::
  "string \<Rightarrow> side \<Rightarrow> (string \<Rightarrow> string \<Rightarrow> goerror + string) \<Rightarrow> nat \<Rightarrow> time \<Rightarrow> OrderIntent \<Rightarrow> Executor \<Rightarrow> Executor" where
  "splitOrMerge what sd call prec clock i e =
    (let e = openLegs clock sd i e;
         close = (\<lambda>filled status reason e.
           fold (\<lambda>t. publish (eventOf (legIntent sd i t) (legID clock t) filled status reason clock)) (oi_Tokens i) e)
     in case call (oi_MarketID i) (formatFixed prec (truncSize i)) of
          Inl err \<Rightarrow> close 0 Rejected (what @ '' token failed: '' @ errorText err) e
        | Inr st \<Rightarrow>
            (if st = ''STATE_NEW'' then close (truncSize i) Filled [] e
             else close (truncSize i) Rejected (what @ '' token failed: '' @ st) e))"

text \<open>Each intent of a list of splits or merges is handled at its own reading of the clock.\<close>

fun eachAt :: "(time \<Rightarrow> OrderIntent \<Rightarrow> Executor \<Rightarrow> Executor) \<Rightarrow> time \<Rightarrow> time list \<Rightarrow> OrderIntent list \<Rightarrow> Executor \<Rightarrow> Executor" where
  "eachAt f now clocks [] e = e"
| "eachAt f now clocks (i # rest) e =
     eachAt f now (drop 1 clocks) rest (f (case clocks of [] \<Rightarrow> now | c # _ \<Rightarrow> c) i e)"

definition submitSplits :: "('o, 'j) exchangeClient \<Rightarrow> time \<Rightarrow> time list \<Rightarrow> OrderIntent list \<Rightarrow> Executor \<Rightarrow> Executor" where
  "submitSplits X now clocks intents e = eachAt (splitOrMerge ''split'' BUY (xc_SplitTokens X) (xc_decimals X)) now clocks intents e"

definition submitMerges :: "('o, 'j) exchangeClient \<Rightarrow> time \<Rightarrow> time list \<Rightarrow> OrderIntent list \<Rightarrow> Executor \<Rightarrow> Executor" where
  "submitMerges X now clocks intents e = eachAt (splitOrMerge ''merge'' SELL (xc_MergeTokens X) (xc_decimals X)) now clocks intents e"

definition actionIn :: "OrderIntentAction \<Rightarrow> OrderIntent list \<Rightarrow> OrderIntent list" where
  "actionIn a batch = filter (\<lambda>i. oi_Action i = a) batch"

text \<open>One batch taken from the queue.\<close>

definition consumeBatch ::
  "'j gjson \<Rightarrow> ('o, 'j) exchangeClient \<Rightarrow> time \<Rightarrow> time list \<Rightarrow> OrderIntent list \<Rightarrow> Executor \<Rightarrow> Executor" where
  "consumeBatch G X clock clocks batch e =
     submitMerges X clock (drop (length (actionIn Split batch)) clocks) (actionIn Merge batch)
       (submitSplits X clock clocks (actionIn Split batch)
         (submitCancels X clock (actionIn Cancel batch)
           (submitPlacements G X clock (filter (\<lambda>i. oi_Action i \<notin> {Cancel, Split, Merge}) batch) e)))"

definition consumeExecuteQueue ::
  "'j gjson \<Rightarrow> ('o, 'j) exchangeClient \<Rightarrow> time \<Rightarrow> time list \<Rightarrow> Executor \<Rightarrow> Executor" where
  "consumeExecuteQueue G X clock clocks e =
    (case ex_queue e of
       Some (batch # rest) \<Rightarrow>
         (let e = e\<lparr>ex_queue := Some rest\<rparr>
          in if batch = [] then e else consumeBatch G X clock clocks batch e)
     | _ \<Rightarrow> e)"

section \<open>Messages of the trade monitor\<close>

text \<open>The fields the program reads of the SDK's messages.\<close>

record WSOrder =
  wo_Id :: string
  wo_Owner :: string
  wo_Market :: string
  wo_AssetId :: string
  wo_Side :: side
  wo_Price :: float64
  wo_OriginalSize :: float64
  wo_Status :: string
  wo_Timestamp :: int

record MakerOrder =
  mo_OrderId :: string
  mo_Owner :: string
  mo_AssetId :: string
  mo_Side :: side
  mo_Price :: float64
  mo_MatchedAmount :: float64

record WSTrade =
  wt_Id :: string
  wt_TakerOrderId :: string
  wt_Owner :: string
  wt_Market :: string
  wt_AssetId :: string
  wt_Side :: side
  wt_Price :: float64
  wt_Size :: float64
  wt_Status :: string
  wt_Timestamp :: int
  wt_MakerOrders :: "MakerOrder list"

datatype tradeEvent = ParseError | OrderMessage "WSOrder option" | TradeMessage "WSTrade option" | OtherMessage

definition callReconcile :: "bool \<Rightarrow> Executor \<Rightarrow> Executor" where
  "callReconcile unknown e = (if unknown \<and> ex_HasReconcile e then e\<lparr>ex_reconciles := Suc (ex_reconciles e)\<rparr> else e)"

text \<open>The fields that a message refreshes; \<open>sz\<close> is 0 where the message has no size.\<close>

definition refresh :: "string \<Rightarrow> string \<Rightarrow> side \<Rightarrow> float64 \<Rightarrow> float64 \<Rightarrow> trackedOrder \<Rightarrow> trackedOrder" where
  "refresh market tokenID sd price sz t =
    (let t = t\<lparr>tr_MarketID := firstNonEmpty market (tr_MarketID t),
               tr_TokenID := firstNonEmpty tokenID (tr_TokenID t), tr_Side := sd\<rparr>;
         t = (if 0 < price then t\<lparr>tr_Price := price\<rparr> else t)
     in if 0 < sz then t\<lparr>tr_RequestedSize := sz\<rparr> else t)"

definition onOrderEvent :: "time \<Rightarrow> WSOrder option \<Rightarrow> Executor \<Rightarrow> Executor" where
  "onOrderEvent clock msg e =
    (case msg of None \<Rightarrow> e
     | Some m \<Rightarrow>
       if TrimSpace (wo_Id m) = [] \<or> \<not> isOwnOwner e (wo_Owner m) then e
       else
         let e = callReconcile (\<not> ghas (ex_tracked e) (wo_Id m)) e;
             tm = parseEventTime clock (wo_Timestamp m);
             status = ToUpper (TrimSpace (wo_Status m));
             t = refresh (wo_Market m) (wo_AssetId m) (wo_Side m) (wo_Price m) (wo_OriginalSize m)
                   (getOrCreateTracked (wo_Id m) e)
         in if status = ''LIVE'' then
              (case buildAcceptedEvent (wo_Id m) t tm of
                 Some ev \<Rightarrow> publish ev (setTracked (wo_Id m) (t\<lparr>tr_Accepted := True\<rparr>) e)
               | None \<Rightarrow> setTracked (wo_Id m) t e)
            else if status = ''CANCELED'' \<or> status = ''CANCELED_MARKET_RESOLVED'' then
              (if \<not> tr_Finalized t
               then publish (trackedEvent (wo_Id m) t 0 Cancelled [] tm) (setTracked (wo_Id m) (t\<lparr>tr_Finalized := True\<rparr>) e)
               else setTracked (wo_Id m) t e)
            else setTracked (wo_Id m) t e)"

record fill =
  fi_orderID :: string
  fi_market :: string
  fi_tokenID :: string
  fi_side :: side
  fi_price :: float64
  fi_size :: float64

definition fillsOf :: "Executor \<Rightarrow> WSTrade \<Rightarrow> fill list" where
  "fillsOf e ti =
    (if TrimSpace (wt_TakerOrderId ti) \<noteq> [] \<and> isOwnOwner e (wt_Owner ti)
     then [\<lparr>fi_orderID = wt_TakerOrderId ti, fi_market = wt_Market ti, fi_tokenID = wt_AssetId ti,
            fi_side = wt_Side ti, fi_price = wt_Price ti, fi_size = wt_Size ti\<rparr>] else []) @
    map (\<lambda>mo. \<lparr>fi_orderID = mo_OrderId mo, fi_market = wt_Market ti, fi_tokenID = mo_AssetId mo,
               fi_side = mo_Side mo, fi_price = mo_Price mo, fi_size = mo_MatchedAmount mo\<rparr>)
      (filter (\<lambda>mo. \<not> (TrimSpace (mo_OrderId mo) = [] \<or> \<not> isOwnOwner e (mo_Owner mo))) (wt_MakerOrders ti))"

text \<open>One round of the loop over the fills, under the lock; the events are collected and
  published after the loop.\<close>

definition applyFill ::
  "string \<Rightarrow> string \<Rightarrow> time \<Rightarrow> fill \<Rightarrow> Executor \<Rightarrow> Executor \<times> ExecutionEvent list" where
  "applyFill status tradeID tm f e =
    (let k = fi_orderID f; t = getOrCreateTracked k e in
     if tr_Finalized t then (setTracked k t e, [])
     else
       let t = refresh (fi_market f) (fi_tokenID f) (fi_side f) (fi_price f) 0 t in
       if status = ''MINED'' then
         (if tradeID \<noteq> [] \<and> tradeID \<in> tr_SeenTradeIDs t then (setTracked k t e, [])
          else
            let t = (if tradeID \<noteq> [] then t\<lparr>tr_SeenTradeIDs := insert tradeID (tr_SeenTradeIDs t)\<rparr> else t);
                (t, evs) = buildFillEventsFromDelta k t (fi_size f) tm
            in (setTracked k t e, evs))
       else if status = ''FAILED'' then
         (setTracked k (t\<lparr>tr_Finalized := True\<rparr>) e, [trackedEvent k t 0 Rejected ExecutionReasonTradeFailed tm])
       else (setTracked k t e, []))"

fun fillLoop :: "string \<Rightarrow> string \<Rightarrow> time \<Rightarrow> fill list \<Rightarrow> Executor \<Rightarrow> ExecutionEvent list \<Rightarrow> Executor \<times> ExecutionEvent list" where
  "fillLoop status tradeID tm [] e out = (e, out)"
| "fillLoop status tradeID tm (f # fs) e out =
     (let (e, evs) = applyFill status tradeID tm f e in fillLoop status tradeID tm fs e (out @ evs))"

definition onTradeEvent :: "time \<Rightarrow> WSTrade option \<Rightarrow> Executor \<Rightarrow> Executor" where
  "onTradeEvent clock msg e =
    (case msg of None \<Rightarrow> e
     | Some ti \<Rightarrow>
       let status = ToUpper (TrimSpace (wt_Status ti));
           tm = parseEventTime clock (wt_Timestamp ti);
           fills = fillsOf e ti;
           e = callReconcile (list_ex (\<lambda>f. \<not> ghas (ex_tracked e) (fi_orderID f)) fills) e;
           (e, out) = fillLoop status (wt_Id ti) tm fills e []
       in fold publish out e)"

fun handleTradeEvent :: "time \<Rightarrow> tradeEvent \<Rightarrow> Executor \<Rightarrow> Executor" where
  "handleTradeEvent clock ParseError e = e"
| "handleTradeEvent clock (OrderMessage m) e = onOrderEvent clock m e"
| "handleTradeEvent clock (TradeMessage m) e = onTradeEvent clock m e"
| "handleTradeEvent clock OtherMessage e = e"

end
