(* ===== verification/Posting.thy ===== *)
theory Posting
  imports Execution "HOL-Library.Multiset"
begin

text \<open>
  What the executor owes its callers: every placement it is handed is answered by exactly one
  event that carries the intent's id, whether it is rejected before it is queued, when the queue
  is full, while it is signed or posted, or at shutdown.
\<close>

section \<open>Answers\<close>

definition intentKey :: "OrderIntent \<Rightarrow> string \<times> string \<times> string \<times> float64 \<times> side \<times> float64" where
  "intentKey i = (oi_IntentID i, oi_MarketID i, oi_TokenID i, oi_Price i, oi_Side i, oi_Size i)"

definition eventKey :: "ExecutionEvent \<Rightarrow> string \<times> string \<times> string \<times> float64 \<times> side \<times> float64" where
  "eventKey ev = (ev_ParentOrderID ev, ev_MarketID ev, ev_TokenID ev, ev_Price ev, ev_Side ev, ev_RequestedSize ev)"

definition acceptedIn :: "Executor \<Rightarrow> string \<Rightarrow> bool" where
  "acceptedIn e k = tr_Accepted (getOrCreateTracked k e)"

text \<open>An answer is a rejection without an order id, or an acceptance of a tracked order.\<close>

definition isAnswer :: "Executor \<Rightarrow> ExecutionEvent \<Rightarrow> bool" where
  "isAnswer e ev \<longleftrightarrow> ev_FilledSize ev = 0 \<and>
     (ev_Status ev = Rejected \<and> ev_OrderID ev = [] \<and> ev_Reason ev \<noteq> [] \<or>
      ev_Status ev = Accepted \<and> ev_OrderID ev \<noteq> [] \<and> acceptedIn e (ev_OrderID ev))"

definition answers :: "OrderIntent list \<Rightarrow> Executor \<Rightarrow> Executor \<Rightarrow> bool" where
  "answers is e e' \<longleftrightarrow> (\<exists>new. ex_out e' = ex_out e @ new \<and>
     mset (map eventKey new) = mset (map intentKey is) \<and> (\<forall>ev \<in> set new. isAnswer e' ev)) \<and>
     ex_HasBus e' \<and> ex_DeferExec e' = ex_DeferExec e \<and> (\<forall>k. acceptedIn e k \<longrightarrow> acceptedIn e' k)"

lemma answers_Nil: "ex_HasBus e \<Longrightarrow> answers [] e e"
  by (simp add: answers_def)

lemma answers_append:
  assumes "answers is e e'" and "answers js e' e''"
  shows "answers (is @ js) e e''"
proof -
  have keep: "isAnswer e' ev \<Longrightarrow> isAnswer e'' ev" for ev
    using assms(2) by (auto simp: answers_def isAnswer_def)
  obtain n1 n2 where n: "ex_out e' = ex_out e @ n1" "ex_out e'' = ex_out e @ n1 @ n2"
    "mset (map eventKey (n1 @ n2)) = mset (map intentKey (is @ js))"
    "\<forall>ev \<in> set n1. isAnswer e' ev" "\<forall>ev \<in> set n2. isAnswer e'' ev"
    using assms by (auto simp: answers_def)
  then have "\<forall>ev \<in> set (n1 @ n2). isAnswer e'' ev" using keep by auto
  with n assms show ?thesis unfolding answers_def by blast
qed

lemma answers_Cons: "answers [i] e e' \<Longrightarrow> answers is e' e'' \<Longrightarrow> answers (i # is) e e''"
  using answers_append [of "[i]" e e' "is" e''] by simp

lemma answers_permute: "answers is e e' \<Longrightarrow> mset is = mset js \<Longrightarrow> answers js e e'"
  by (simp add: answers_def)

lemma publish_simps [simp]:
  "ex_HasBus (publish ev e) = ex_HasBus e" "ex_tracked (publish ev e) = ex_tracked e"
  "ex_queue (publish ev e) = ex_queue e" "ex_DeferExec (publish ev e) = ex_DeferExec e" "ex_Key (publish ev e) = ex_Key e"
  "ex_ExecutionQueueSize (publish ev e) = ex_ExecutionQueueSize e" "ex_HasReconcile (publish ev e) = ex_HasReconcile e"
  "getOrCreateTracked k (publish ev e) = getOrCreateTracked k e"
  by (simp_all add: publish_def getOrCreateTracked_def)

lemma publish_out [simp]: "ex_HasBus e \<Longrightarrow> ex_out (publish ev e) = ex_out e @ [ev]"
  by (simp add: publish_def)

lemma answers_reject: "ex_HasBus e \<Longrightarrow> reason \<noteq> [] \<Longrightarrow> answers [i] e (publish (rejection i reason tm) e)"
  by (simp add: answers_def isAnswer_def acceptedIn_def rejection_def eventOf_def eventKey_def intentKey_def)

lemma setTracked_simps [simp]:
  "ex_HasBus (setTracked k t e) = ex_HasBus e" "ex_out (setTracked k t e) = ex_out e"
  "ex_queue (setTracked k t e) = ex_queue e" "ex_DeferExec (setTracked k t e) = ex_DeferExec e"
  "ex_Key (setTracked k t e) = ex_Key e"
  "getOrCreateTracked k' (setTracked k t e) = (if k' = k then t else getOrCreateTracked k' e)"
  by (simp_all add: setTracked_def getOrCreateTracked_def)

lemma trackPosted_frame [simp]:
  "ex_HasBus (trackPostedOrder k i e) = ex_HasBus e" "ex_out (trackPostedOrder k i e) = ex_out e"
  "ex_DeferExec (trackPostedOrder k i e) = ex_DeferExec e" "ex_queue (trackPostedOrder k i e) = ex_queue e"
  by (simp_all add: trackPostedOrder_def Let_def)

lemma trackPosted_accepted:
  "acceptedIn (trackPostedOrder k i e) k' \<longleftrightarrow> k' = k \<and> TrimSpace k \<noteq> [] \<or> acceptedIn e k'"
  by (simp add: trackPostedOrder_def acceptedIn_def Let_def)

lemma set_dropWhile_subset: "set (dropWhile P xs) \<subseteq> set xs"
  using set_dropWhileD by fast

lemma TrimSpace_TrimSpace_Nil: "TrimSpace (TrimSpace s) = [] \<longleftrightarrow> TrimSpace s = []"
proof
  assume "TrimSpace (TrimSpace s) = []"
  then have all: "\<forall>c \<in> set (TrimSpace s). is_space c" by (simp add: TrimSpace_eq_Nil)
  show "TrimSpace s = []"
  proof (rule ccontr)
    assume ne: "TrimSpace s \<noteq> []"
    let ?r = "dropWhile is_space (rev (dropWhile is_space s))"
    have "?r \<noteq> []" using ne by (simp add: TrimSpace_def)
    then have "\<not> is_space (hd ?r)" by (rule hd_dropWhile)
    moreover have "hd ?r \<in> set (TrimSpace s)" using \<open>?r \<noteq> []\<close> by (simp add: TrimSpace_def)
    ultimately show False using all by blast
  qed
qed simp

lemma answers_posted:
  assumes "ex_HasBus e" and "what \<noteq> []"
  shows "answers [i] e (onPosted G what tm i result e)"
proof -
  have acc: "answers [i] e (publishAcceptedFromPost i k tm (trackPostedOrder k i e))"
    if "k \<noteq> []" "TrimSpace k \<noteq> []" for k
    using that assms
    by (auto simp: answers_def isAnswer_def publishAcceptedFromPost_def eventOf_def eventKey_def intentKey_def
        acceptedIn_def trackPosted_accepted [unfolded acceptedIn_def])
  have k: "TrimSpace (TrimSpace r) \<noteq> []" if "TrimSpace r \<noteq> []" for r
    using that by (simp add: TrimSpace_TrimSpace_Nil)
  show ?thesis
    using assms by (simp add: onPosted_def Let_def answers_reject acc k)
qed

lemma answers_results:
  "ex_HasBus e \<Longrightarrow> answers (map pp_intent prepared) e (handlePostOrdersResults G tm prepared results e)"
proof (induction G tm prepared results e rule: handlePostOrdersResults.induct)
  case (2 G clock po rest e)
  show ?case using 2 by (auto intro!: answers_Cons [OF answers_reject] 2)
next
  case (3 G clock po rest result results e)
  have one: "answers [pp_intent po] e (onPosted G ''post orders'' clock (pp_intent po) result e)"
    using 3 by (intro answers_posted) simp_all
  then have "ex_HasBus (onPosted G ''post orders'' clock (pp_intent po) result e)" by (simp add: answers_def)
  with 3 one show ?case by (auto intro: answers_Cons)
qed (simp add: answers_Nil)

lemma answers_all:
  "ex_HasBus e \<Longrightarrow> reason \<noteq> [] \<Longrightarrow>
   answers (map pp_intent prepared) e (fold (\<lambda>po. publish (rejection (pp_intent po) reason tm)) prepared e)"
proof (induction prepared arbitrary: e)
  case (Cons po rest)
  then have "answers [pp_intent po] e (publish (rejection (pp_intent po) reason tm) e)" by (intro answers_reject)
  with Cons show ?case by (auto intro: answers_Cons)
qed (simp add: answers_Nil)

lemma answers_prepare:
  "ex_HasBus e \<Longrightarrow> prepareLoop X tm n is prepared e = (e', prepared') \<Longrightarrow>
   \<exists>refused. answers refused e e' \<and> mset refused + mset (map pp_intent prepared') = mset is + mset (map pp_intent prepared)"
proof (induction "is" arbitrary: n prepared e)
  case Nil
  then show ?case using answers_Nil by (intro exI [of _ "[]"]) simp
next
  case (Cons i rest)
  show ?case
  proof (cases "xc_CreateOrder X n (oi_TokenID i) (oi_Price i) (oi_Size i) (oi_Side i)")
    case (Inl err)
    let ?e = "publish (rejection i (''create order failed: '' @ errorText err) tm) e"
    obtain refused where r: "answers refused ?e e'"
      "mset refused + mset (map pp_intent prepared') = mset rest + mset (map pp_intent prepared)"
      using Cons.IH [of ?e "Suc n" prepared] Cons.prems Inl by auto
    then have "answers (i # refused) e e'"
      using Cons.prems(1) by (auto intro!: answers_Cons [OF answers_reject])
    with r show ?thesis by (intro exI [of _ "i # refused"]) simp
  next
    case (Inr sig)
    then show ?thesis
      using Cons.IH [of e "Suc n" "prepared @ [\<lparr>pp_intent = i, pp_order = sig,
          pp_orderType = if oi_OrderType i = NoType then GTC else oi_OrderType i\<rparr>]"] Cons.prems
      by (simp add: Let_def)
  qed
qed

lemma placements_answer:
  assumes "ex_HasBus e"
  shows "answers is e (submitPlacements G X tm is e)"
proof (cases "is = []")
  case False
  obtain e1 prepared where p: "prepareLoop X tm 0 is [] e = (e1, prepared)" by fastforce
  obtain refused where r: "answers refused e e1" "mset refused + mset (map pp_intent prepared) = mset is"
    using answers_prepare [OF assms p] by auto
  have bus: "ex_HasBus e1" using r by (simp add: answers_def)
  have "answers (map pp_intent prepared) e1 (submitPlacements G X tm is e)"
    using False p bus
    by (auto simp: submitPlacements_def answers_Nil answers_reject answers_posted
        intro!: answers_results [of _ "_ # _ # _", simplified] answers_all [of _ _ "_ # _ # _", simplified]
        split: list.split sum.split)
  from answers_append [OF r(1) this] show ?thesis
    by (rule answers_permute) (use r(2) in simp)
qed (simp add: submitPlacements_def answers_Nil assms)

section \<open>No placement is lost\<close>

text \<open>The other operations of the executor only add to what is published.\<close>

definition grows :: "Executor \<Rightarrow> Executor \<Rightarrow> bool" where
  "grows e e' \<longleftrightarrow> (\<exists>new. ex_out e' = ex_out e @ new) \<and> ex_queue e' = ex_queue e \<and> ex_HasBus e' = ex_HasBus e \<and>
     ex_ExecutionQueueSize e' = ex_ExecutionQueueSize e"

lemma grows_refl [simp]: "grows e e"
  by (simp add: grows_def)

lemma grows_trans: "grows e e' \<Longrightarrow> grows e' e'' \<Longrightarrow> grows e e''"
  by (auto simp: grows_def)

lemma grows_fold: "(\<And>x e. grows e (f x e)) \<Longrightarrow> grows e (fold f xs e)"
  by (induction xs arbitrary: e) (auto intro: grows_trans)

lemma grows_publish [simp]: "grows e (publish ev e)"
  by (simp add: grows_def publish_def)

lemma grows_publishes [simp]: "grows e (fold (\<lambda>x. publish (f x)) xs e)"
  by (rule grows_fold) simp

lemma grows_track [simp]: "grows e (setTracked k t e)" "grows e (trackPostedOrder k i e)"
  by (simp_all add: grows_def setTracked_def trackPostedOrder_def Let_def)

lemma grows_accepted [simp]: "grows e (publishAcceptedFromPost i k tm e)"
  by (simp add: publishAcceptedFromPost_def)

lemma grows_posted [simp]: "grows e (onPosted G what tm i r e)"
  by (auto simp: onPosted_def Let_def intro: grows_trans [OF grows_track(2) grows_accepted])

lemma grows_results [simp]: "grows e (handlePostOrdersResults G tm ps rs e)"
  by (induction G tm ps rs e rule: handlePostOrdersResults.induct) (auto intro: grows_trans [rotated])

lemma grows_prepare: "prepareLoop X tm n is ps e = (e', ps') \<Longrightarrow> grows e e'"
proof (induction "is" arbitrary: n ps e)
  case (Cons i rest)
  then show ?case
    by (auto simp: Let_def intro: grows_trans [OF grows_publish] split: sum.splits)
qed simp

lemma grows_placements: "grows e (submitPlacements G X tm is e)"
proof -
  obtain e1 ps where p: "prepareLoop X tm 0 is [] e = (e1, ps)" by fastforce
  have "grows e1 (submitPlacements G X tm is e)" if "is \<noteq> []"
    using that p by (simp add: submitPlacements_def del: fold_simps fold_Cons handlePostOrdersResults.simps
        split: list.split sum.split)
  then show ?thesis
    using grows_prepare [OF p] by (cases "is = []") (auto simp: submitPlacements_def intro: grows_trans)
qed

lemma grows_cancels: "grows e (submitCancels X tm is e)"
  by (simp add: submitCancels_def del: fold_simps fold_Cons split: list.split option.split)

lemma grows_splitOrMerge: "grows e (splitOrMerge what sd call prec tm i e)"
proof -
  have "grows e (openLegs tm sd i e)" for e
    unfolding openLegs_def by (rule grows_fold) (rule grows_trans [OF grows_track(2) grows_accepted])
  then show ?thesis
    by (simp add: splitOrMerge_def Let_def grows_trans [OF _ grows_publishes] split: sum.split)
qed

lemma grows_eachAt: "(\<And>tm i e. grows e (f tm i e)) \<Longrightarrow> grows e (eachAt f now cs is e)"
proof (induction "is" arbitrary: cs e)
  case (Cons i rest)
  show ?case using grows_trans [OF Cons.prems Cons.IH [OF Cons.prems]] by simp
qed simp

lemma grows_splits: "grows e (submitSplits X tm cs is e)" "grows e (submitMerges X tm cs is e)"
  by (simp_all add: submitSplits_def submitMerges_def grows_eachAt grows_splitOrMerge)

lemma grows_after_placements:
  "grows (submitPlacements G X tm (filter (\<lambda>i. oi_Action i \<notin> {Cancel, Split, Merge}) batch) e) (consumeBatch G X tm cs batch e)"
  unfolding consumeBatch_def by (rule grows_trans [OF grows_trans [OF grows_cancels grows_splits(1)] grows_splits(2)])

lemma grows_batch: "grows e (consumeBatch G X tm cs batch e)"
  by (rule grows_trans [OF grows_placements grows_after_placements])

definition answered :: "Executor \<Rightarrow> OrderIntent \<Rightarrow> bool" where
  "answered e i \<longleftrightarrow> (\<exists>ev \<in> set (ex_out e). eventKey ev = intentKey i \<and> ev_Status ev \<in> {Accepted, Rejected})"

lemma answered_key: "answered e j \<Longrightarrow> intentKey j = intentKey i \<Longrightarrow> answered e i"
  by (simp add: answered_def)

lemma answered_grows: "grows e e' \<Longrightarrow> answered e i \<Longrightarrow> answered e' i"
  by (auto simp: grows_def answered_def)

lemma answered_answers:
  assumes "answers is e e'" and "i \<in> set is"
  shows "answered e' i"
proof -
  obtain new where new: "ex_out e' = ex_out e @ new" "mset (map eventKey new) = mset (map intentKey is)"
    "\<forall>ev \<in> set new. isAnswer e' ev"
    using assms(1) by (auto simp: answers_def)
  then have "intentKey i \<in> set (map eventKey new)" using assms(2) by (metis imageI set_map set_mset_mset)
  with new show ?thesis by (auto simp: answered_def isAnswer_def)
qed

lemma answered_batch:
  assumes "ex_HasBus e" and "i \<in> set batch" and "oi_Action i = Place"
  shows "answered (consumeBatch G X tm cs batch e) i"
proof -
  let ?ps = "filter (\<lambda>i. oi_Action i \<notin> {Cancel, Split, Merge}) batch"
  have "answered (submitPlacements G X tm ?ps e) i"
    using assms by (intro answered_answers [OF placements_answer]) auto
  then show ?thesis by (rule answered_grows [OF grows_after_placements])
qed

text \<open>The worker takes one batch after the other.\<close>

definition work :: "'j gjson \<Rightarrow> ('o, 'j) exchangeClient \<Rightarrow> (time \<times> time list) list \<Rightarrow> Executor \<Rightarrow> Executor" where
  "work G X ts e = fold (\<lambda>(tm, cs). consumeExecuteQueue G X tm cs) ts e"

lemma consume_out: "answered e i \<Longrightarrow> answered (consumeExecuteQueue G X tm cs e) i"
proof -
  assume "answered e i"
  then have "answered (e\<lparr>ex_queue := q\<rparr>) i" for q by (simp add: answered_def)
  with \<open>answered e i\<close> show ?thesis
    by (auto simp: consumeExecuteQueue_def Let_def intro: answered_grows [OF grows_batch] split: option.split list.split)
qed

lemma work_out: "answered e i \<Longrightarrow> answered (work G X ts e) i"
  unfolding work_def by (induction ts arbitrary: e) (auto simp: consume_out)

lemma consume_cons:
  assumes "ex_HasBus e" and "ex_queue e = Some (batch # rest)"
  shows "ex_queue (consumeExecuteQueue G X tm cs e) = Some rest" "ex_HasBus (consumeExecuteQueue G X tm cs e)"
    "i \<in> set batch \<Longrightarrow> oi_Action i = Place \<Longrightarrow> answered (consumeExecuteQueue G X tm cs e) i"
proof -
  let ?e = "e\<lparr>ex_queue := Some rest\<rparr>"
  have c: "consumeExecuteQueue G X tm cs e = (if batch = [] then ?e else consumeBatch G X tm cs batch ?e)"
    using assms by (simp add: consumeExecuteQueue_def Let_def)
  show "ex_queue (consumeExecuteQueue G X tm cs e) = Some rest" "ex_HasBus (consumeExecuteQueue G X tm cs e)"
    using grows_batch [of ?e G X tm cs batch] assms(1) by (simp_all add: c grows_def)
  show "i \<in> set batch \<Longrightarrow> oi_Action i = Place \<Longrightarrow> answered (consumeExecuteQueue G X tm cs e) i"
    using assms(1) by (auto simp: c answered_batch)
qed

lemma work_answers:
  "ex_HasBus e \<Longrightarrow> ex_queue e = Some q \<Longrightarrow> length q \<le> length ts \<Longrightarrow> batch \<in> set q \<Longrightarrow> i \<in> set batch \<Longrightarrow>
   oi_Action i = Place \<Longrightarrow> answered (work G X ts e) i"
proof (induction q arbitrary: ts e)
  case (Cons b q)
  then obtain tm cs rest where ts: "ts = (tm, cs) # rest" by (cases ts) auto
  let ?e = "consumeExecuteQueue G X tm cs e"
  have w: "work G X ts e = work G X rest ?e" by (simp add: work_def ts)
  note step = consume_cons [OF Cons.prems(1,2), where G = G and X = X and tm = tm and cs = cs]
  show ?case
  proof (cases "batch = b")
    case True
    with Cons.prems step(3) show ?thesis by (simp add: w work_out)
  next
    case False
    with Cons.prems step ts show ?thesis unfolding w by (intro Cons.IH) auto
  qed
qed simp

lemma answered_reject: "ex_HasBus e \<Longrightarrow> answered (publish (rejection i reason tm) e) i"
  by (auto simp: answered_def rejection_def eventOf_def eventKey_def intentKey_def)

lemma grows_rejectBatch: "grows e (rejectBatch tm is reason e)"
  unfolding rejectBatch_def by (rule grows_fold) simp

lemma answered_rejectBatch:
  "ex_HasBus e \<Longrightarrow> i \<in> set is \<Longrightarrow> answered (rejectBatch tm is reason e) i"
proof (induction "is" arbitrary: e)
  case (Cons j rest)
  let ?e = "publish (rejectedInBatch reason tm j) e"
  have "answered ?e j"
    using Cons.prems
    by (auto simp: answered_def rejectedInBatch_def rejection_def eventOf_def eventKey_def intentKey_def Let_def)
  moreover have "grows ?e (rejectBatch tm rest reason ?e)" by (rule grows_rejectBatch)
  ultimately show ?case
    using Cons answered_grows [of ?e _ j] by (auto simp: rejectBatch_def)
qed simp

lemma drain_loop:
  "ex_HasBus e \<Longrightarrow> ex_queue (drainLoop tm q e) = Some [] \<and>
     (answered e i \<or> (\<exists>batch \<in> set q. i \<in> set batch) \<longrightarrow> answered (drainLoop tm q e) i)"
proof (induction q arbitrary: e)
  case (Cons b q)
  let ?e = "rejectBatch tm b ''shutting down'' e"
  have "ex_HasBus ?e" using grows_rejectBatch [of e tm b "''shutting down''"] Cons.prems by (simp add: grows_def)
  then show ?case
    using Cons answered_rejectBatch [of e i b tm "''shutting down''"]
      answered_grows [OF grows_rejectBatch, of e i tm b "''shutting down''"] by auto
qed (simp add: answered_def)

lemma validate_loop:
  assumes "ex_HasBus e" and "validateLoop tm is acc e = (e', validated)"
  shows "grows e e' \<and> set acc \<subseteq> set validated \<and>
    (\<forall>i \<in> set is. isPlace i \<longrightarrow> answered e' i \<or> (\<exists>j \<in> set validated. oi_Action j = Place \<and> intentKey j = intentKey i))"
  using assms
proof (induction "is" arbitrary: acc e)
  case (Cons i rest)
  let ?i = "if oi_Action i = NoAction then i\<lparr>oi_Action := Place\<rparr> else i"
  have key: "intentKey ?i = intentKey i" by (simp add: intentKey_def)
  have skip: ?case if "validateLoop tm (i # rest) acc e = validateLoop tm rest acc e" "\<not> isPlace i"
    using Cons that by auto
  have take: ?case if "validateLoop tm (i # rest) acc e = validateLoop tm rest (acc @ [?i]) e" "isPlace i \<longrightarrow> oi_Action ?i = Place"
  proof -
    have "grows e e' \<and> set (acc @ [?i]) \<subseteq> set validated \<and> (\<forall>i \<in> set rest. isPlace i \<longrightarrow>
        answered e' i \<or> (\<exists>j \<in> set validated. oi_Action j = Place \<and> intentKey j = intentKey i))"
      using Cons.IH [of e "acc @ [?i]"] Cons.prems that by simp
    then show ?thesis using that key by auto
  qed
  have reject: ?case if "validateLoop tm (i # rest) acc e = validateLoop tm rest acc (publish (rejection ?i reason tm) e)" for reason
  proof -
    let ?e = "publish (rejection ?i reason tm) e"
    have ih: "grows ?e e' \<and> set acc \<subseteq> set validated \<and> (\<forall>i \<in> set rest. isPlace i \<longrightarrow>
        answered e' i \<or> (\<exists>j \<in> set validated. oi_Action j = Place \<and> intentKey j = intentKey i))"
      using Cons.IH [of ?e acc] Cons.prems that by simp
    moreover have "answered ?e i" using answered_reject [OF Cons.prems(1), of ?i reason tm] key by (simp add: answered_def)
    moreover have "grows e e'" using ih grows_trans [OF grows_publish] by blast
    ultimately show ?thesis by (auto intro: answered_grows)
  qed
  show ?case
  proof (cases "oi_Action ?i")
    case NoAction
    then show ?thesis by (simp split: if_splits)
  next
    case Place
    then show ?thesis
      by (cases "validatePlacement ?i") (rule take reject; simp add: Let_def)+
  next
    case Cancel
    then have "\<not> isPlace i" by (auto simp: isPlace_def split: if_splits)
    with Cancel show ?thesis by (cases "TrimSpace (oi_OrderID ?i) = []") (rule skip take; simp add: Let_def)+
  next
    case Split
    then have "\<not> isPlace i" by (auto simp: isPlace_def split: if_splits)
    with Split show ?thesis
      by (cases "oi_Size ?i \<le> 0 \<or> length (oi_Tokens ?i) \<noteq> 2") (rule skip take; simp add: Let_def)+
  next
    case Merge
    then have "\<not> isPlace i" by (auto simp: isPlace_def split: if_splits)
    with Merge show ?thesis
      by (cases "oi_Size ?i \<le> 0 \<or> length (oi_Tokens ?i) \<noteq> 2") (rule skip take; simp add: Let_def)+
  next
    case (OtherAction x)
    then show ?thesis by (intro reject) (simp add: Let_def)
  qed
qed simp

lemma dryRun_grows: "grows e (dryRun now cs is e)"
proof (induction "is" arbitrary: cs e)
  case (Cons i rest)
  from grows_trans [OF grows_trans [OF grows_publish grows_publish] Cons.IH] Cons.IH
  show ?case by (simp add: Let_def)
qed simp

lemma dryRun_answers: "ex_HasBus e \<Longrightarrow> i \<in> set is \<Longrightarrow> isPlace i \<Longrightarrow> answered (dryRun now cs is e) i"
proof (induction "is" arbitrary: cs e)
  case (Cons j rest)
  show ?case
  proof (cases "oi_Action j = Cancel")
    case True
    with Cons have "i \<in> set rest" by (auto simp: isPlace_def)
    with Cons True show ?thesis by simp
  next
    case False
    let ?k = "dryRunID (case cs of [] \<Rightarrow> now | c # _ \<Rightarrow> c) j"
    let ?e = "publish (eventOf j ?k (oi_Size j) Filled [] now) (publish (eventOf j ?k 0 Accepted [] now) e)"
    have "answered ?e j" using Cons.prems(1) by (auto simp: answered_def eventOf_def eventKey_def intentKey_def)
    then have "answered (dryRun now (drop 1 cs) rest ?e) j" by (rule answered_grows [OF dryRun_grows])
    with False Cons show ?thesis by (auto simp: Let_def)
  qed
qed simp

definition queuedFor :: "OrderIntent list list \<Rightarrow> OrderIntent \<Rightarrow> bool" where
  "queuedFor q i \<longleftrightarrow> (\<exists>batch \<in> set q. \<exists>j \<in> set batch. oi_Action j = Place \<and> intentKey j = intentKey i)"

lemma Execute_places:
  assumes "ex_HasBus e" and "ex_HasClient e" and "ex_queue e = Some q" and "i \<in> set is" and "isPlace i"
  shows "ex_HasBus (Execute tm cs is e) \<and> (\<exists>q'. ex_queue (Execute tm cs is e) = Some q' \<and> length q' \<le> Suc (length q) \<and>
    (answered (Execute tm cs is e) i \<or> queuedFor q' i))"
proof (cases "ex_DryRun e")
  case True
  with assms have "Execute tm cs is e = dryRun tm cs is e" by (auto simp: Execute_def)
  with assms dryRun_grows [of e tm cs "is"] show ?thesis by (auto simp: dryRun_answers grows_def)
next
  case False
  obtain e1 v where v: "validateLoop tm is [] e = (e1, v)" by fastforce
  note loop = validate_loop [OF assms(1) v]
  from loop have e1: "ex_HasBus e1" "ex_queue e1 = Some q" using assms by (auto simp: grows_def)
  have ex: "Execute tm cs is e = (if v = [] then e1
      else if int (length q) < ex_ExecutionQueueSize e1 then e1\<lparr>ex_queue := Some (q @ [v])\<rparr>
      else rejectBatch tm v ''execution queue full'' e1)"
    using assms False v e1 by (auto simp: Execute_def)
  have rej: "grows e1 (rejectBatch tm v ''execution queue full'' e1)" by (rule grows_rejectBatch)
  have full: "answered (rejectBatch tm v ''execution queue full'' e1) i"
    using loop assms(4,5) answered_rejectBatch [OF e1(1), of _ v tm "''execution queue full''"] answered_grows [OF rej]
    by (blast intro: answered_key)
  have queued: "answered (e1\<lparr>ex_queue := Some (q @ [v])\<rparr>) i \<or> queuedFor (q @ [v]) i"
    using loop assms(4,5) by (auto simp: answered_def queuedFor_def)
  have rejq: "ex_HasBus (rejectBatch tm v ''execution queue full'' e1)" "ex_queue (rejectBatch tm v ''execution queue full'' e1) = Some q"
    using rej e1 by (simp_all add: grows_def)
  have empty: "answered e1 i" if "v = []" using that loop assms(4,5) by auto
  show ?thesis
    unfolding ex using e1 rejq full queued empty by simp
qed

lemma queued_work:
  assumes "ex_HasBus e" and "ex_queue e = Some q" and "length q \<le> length ts" and "answered e i \<or> queuedFor q i"
  shows "answered (work G X ts e) i" "answered (drainQueueOnShutdown tm e) i"
proof -
  show "answered (work G X ts e) i"
    using assms work_out [of e i] work_answers [OF assms(1-3), of _ _ G X] by (fastforce simp: queuedFor_def answered_def)
  show "answered (drainQueueOnShutdown tm e) i"
    using assms drain_loop [OF assms(1), of tm q] by (fastforce simp: drainQueueOnShutdown_def queuedFor_def answered_def)
qed

text \<open>C7. Every placement handed to a started executor is answered: an event that carries the
  intent's id, market, token, price, side and size and says Accepted or Rejected is published,
  at the latest when the worker has taken all batches that are queued, whatever the exchange
  replies, or when the queue is drained at shutdown; the drain ends with an empty queue.\<close>

theorem placement_never_lost:
  assumes "ex_HasBus e" and "ex_HasClient e" and "ex_queue e = Some q" and "i \<in> set intents" and "isPlace i"
    and "length q < length ts"
  shows "answered (work G X ts (Execute clock clocks intents e)) i \<and>
    answered (drainQueueOnShutdown tm (Execute clock clocks intents e)) i \<and>
    ex_queue (drainQueueOnShutdown tm (Execute clock clocks intents e)) = Some []"
proof -
  obtain q' where q': "ex_HasBus (Execute clock clocks intents e)" "ex_queue (Execute clock clocks intents e) = Some q'"
    "length q' \<le> length ts" "answered (Execute clock clocks intents e) i \<or> queuedFor q' i"
    using Execute_places [OF assms(1-5), of clock clocks] assms(6) by auto
  then show ?thesis
    using queued_work [OF q'(1-4)] drain_loop [OF q'(1), of tm q' i] by (simp add: drainQueueOnShutdown_def)
qed

definition demoExecutor :: Executor where
  "demoExecutor = Init \<lparr>ex_HasBus = False, ex_HasClient = False, ex_Key = None, ex_DeferExec = False, ex_DryRun = False,
     ex_HasReconcile = True, ex_ExecutionQueueSize = 1, ex_tracked = [], ex_queue = None, ex_out = [], ex_reconciles = 0\<rparr>"

definition demoClient :: "(unit, unit) exchangeClient" where
  "demoClient = \<lparr>xc_CreateOrder = (\<lambda>n t p s sd. Inr ()), xc_PostOrder = (\<lambda>ord ot d. Inl (ErrText ''down'')),
     xc_PostOrders = (\<lambda>os d. Inl (ErrText ''down'')), xc_CancelOrder = (\<lambda>k. None), xc_CancelOrders = (\<lambda>ks. None),
     xc_SplitTokens = (\<lambda>m a. Inl (ErrText ''down'')), xc_MergeTokens = (\<lambda>m a. Inl (ErrText ''down'')), xc_decimals = 6\<rparr>"

corollary placement_never_lost_witness:
  "answered (work demoJSON demoClient [(8, [])] (Execute 7 [] [demoIntent] demoExecutor)) demoIntent \<and>
   answered (drainQueueOnShutdown 9 (Execute 7 [] [demoIntent] demoExecutor)) demoIntent"
  using placement_never_lost [of demoExecutor "[]" demoIntent "[demoIntent]" "[(8, [])]" demoJSON demoClient 7 "[]" 9]
  by (simp add: demoExecutor_def Init_def isPlace_def demoIntent_def)

text \<open>A list of placements that the worker posts is answered one to one: the events it
  publishes are, up to their order, one per intent with the intent's own fields; each is either
  a rejection with a reason and without an order id, or an acceptance whose order the executor
  tracks as accepted from then on.  No placement is answered twice or not at all, however many
  results the exchange returns.\<close>

theorem placements_answered_once:
  assumes "ex_HasBus e"
  shows "\<exists>new. ex_out (submitPlacements G X clock intents e) = ex_out e @ new \<and>
    mset (map eventKey new) = mset (map intentKey intents) \<and>
    (\<forall>ev \<in> set new. isAnswer (submitPlacements G X clock intents e) ev)"
  using placements_answer [OF assms, of intents G X clock] by (simp add: answers_def)

corollary placements_answered_once_witness:
  "\<exists>new. ex_out (submitPlacements demoJSON demoClient 7 [demoIntent, demoIntent] demoExecutor) = new \<and>
    mset (map eventKey new) = mset (map intentKey [demoIntent, demoIntent])"
  using placements_answered_once [of demoExecutor demoJSON demoClient 7 "[demoIntent, demoIntent]"]
  by (auto simp: demoExecutor_def Init_def)

end
