(* ===== verification/Monitor.thy ===== *)
theory Monitor
  imports Posting
begin

text \<open>
  The trade monitor's messages: for every order the executor publishes at most one acceptance
  and at most one terminal event, nothing after the terminal event, and a message that is
  delivered twice has no effect the second time.
\<close>

section \<open>One-shot events\<close>

text \<open>A flag that guards events: among the relevant events (\<open>R\<close>) the last ones (\<open>L\<close>) occur
  at most once, exactly when the flag is raised, and nothing relevant follows.\<close>

definition phase :: "('e \<Rightarrow> bool) \<Rightarrow> ('e \<Rightarrow> bool) \<Rightarrow> bool \<Rightarrow> 'e list \<Rightarrow> bool \<Rightarrow> bool" where
  "phase R L b evs b' \<longleftrightarrow>
     (if b then b' \<and> filter R evs = []
      else if b' then (\<exists>ps t. filter R evs = ps @ [t] \<and> L t \<and> filter L ps = [])
      else filter L (filter R evs) = [])"

lemma phase_Nil [simp]: "phase R L b [] b' \<longleftrightarrow> b' = b"
  by (auto simp: phase_def)

lemma phase_append: "phase R L b xs b' \<Longrightarrow> phase R L b' ys b'' \<Longrightarrow> phase R L b (xs @ ys) b''"
  unfolding phase_def by (auto split: if_splits)

text \<open>A component that reacts to messages with events and keeps such a flag.\<close>

locale one_shot =
  fixes flag :: "'s \<Rightarrow> bool" and R L :: "'e \<Rightarrow> bool" and step :: "'m \<Rightarrow> 's \<Rightarrow> 's" and out :: "'s \<Rightarrow> 'e list"
    and ok :: "'s \<Rightarrow> bool"
  assumes step_ok: "ok s \<Longrightarrow> ok (step m s)"
    and step_phase: "ok s \<Longrightarrow> \<exists>new. out (step m s) = out s @ new \<and> phase R L (flag s) new (flag (step m s))"
begin

lemma run_ok: "ok s \<Longrightarrow> ok (fold step ms s)"
  by (induction ms arbitrary: s) (simp_all add: step_ok)

lemma run_phase:
  "ok s \<Longrightarrow> \<exists>new. out (fold step ms s) = out s @ new \<and> phase R L (flag s) new (flag (fold step ms s))"
proof (induction ms arbitrary: s)
  case (Cons m ms)
  obtain n1 where n1: "out (step m s) = out s @ n1" "phase R L (flag s) n1 (flag (step m s))"
    using step_phase [OF Cons.prems] by blast
  obtain n2 where n2: "out (fold step ms (step m s)) = out (step m s) @ n2"
    "phase R L (flag (step m s)) n2 (flag (fold step ms (step m s)))"
    using Cons.IH [OF step_ok [OF Cons.prems]] by blast
  have "out (fold step (m # ms) s) = out s @ n1 @ n2" by (simp add: n1(1) n2(1))
  with phase_append [OF n1(2) n2(2)] show ?case by auto
qed simp

end

section \<open>The executor's flags\<close>

definition finalizedIn :: "string \<Rightarrow> Executor \<Rightarrow> bool" where
  "finalizedIn k e = tr_Finalized (getOrCreateTracked k e)"

definition ofOrder :: "string \<Rightarrow> ExecutionEvent \<Rightarrow> bool" where
  "ofOrder k ev \<longleftrightarrow> ev_OrderID ev = k \<and> ev_Status ev \<noteq> Accepted"

definition isTerminal :: "ExecutionEvent \<Rightarrow> bool" where
  "isTerminal ev \<longleftrightarrow> ev_Status ev \<in> {Filled, Cancelled, Rejected}"

definition acceptanceOf :: "string \<Rightarrow> ExecutionEvent \<Rightarrow> bool" where
  "acceptanceOf k ev \<longleftrightarrow> ev_OrderID ev = k \<and> ev_Status ev = Accepted"

abbreviation terminalPhase :: "string \<Rightarrow> bool \<Rightarrow> ExecutionEvent list \<Rightarrow> bool \<Rightarrow> bool" where
  "terminalPhase k \<equiv> phase (ofOrder k) isTerminal"

abbreviation acceptPhase :: "string \<Rightarrow> bool \<Rightarrow> ExecutionEvent list \<Rightarrow> bool \<Rightarrow> bool" where
  "acceptPhase k \<equiv> phase (acceptanceOf k) (\<lambda>ev. True)"

lemma callReconcile_simps [simp]:
  "ex_HasBus (callReconcile b e) = ex_HasBus e" "ex_out (callReconcile b e) = ex_out e"
  "ex_tracked (callReconcile b e) = ex_tracked e" "ex_Key (callReconcile b e) = ex_Key e"
  "getOrCreateTracked k (callReconcile b e) = getOrCreateTracked k e"
  by (simp_all add: callReconcile_def getOrCreateTracked_def)

lemma refresh_simps [simp]:
  "tr_Finalized (refresh m t sd p sz x) = tr_Finalized x" "tr_Accepted (refresh m t sd p sz x) = tr_Accepted x"
  "tr_SeenTradeIDs (refresh m t sd p sz x) = tr_SeenTradeIDs x" "tr_FilledSize (refresh m t sd p sz x) = tr_FilledSize x"
  by (simp_all add: refresh_def Let_def)

lemma trackedEvent_simps [simp]:
  "ev_OrderID (trackedEvent k t f st r tm) = k" "ev_Status (trackedEvent k t f st r tm) = st"
  by (simp_all add: trackedEvent_def)

lemma fill_delta:
  assumes "\<not> tr_Finalized t" and "buildFillEventsFromDelta k t d tm = (t', evs)"
  shows "tr_Accepted t' = tr_Accepted t" "tr_SeenTradeIDs t' = tr_SeenTradeIDs t"
    "terminalPhase k (tr_Finalized t) evs (tr_Finalized t')"
    "\<forall>ev \<in> set evs. ev_OrderID ev = k \<and> ev_Status ev \<noteq> Accepted"
  using assms
  by (auto simp: buildFillEventsFromDelta_def buildFillEventsFromCumulative_def Let_def phase_def ofOrder_def
      isTerminal_def split: if_splits)

text \<open>One fill changes one order: its seen trades grow, and after a mined trade with an id or a
  failed one the same trade has nothing more to say.\<close>

definition spent :: "string \<Rightarrow> string \<Rightarrow> trackedOrder \<Rightarrow> bool" where
  "spent status tradeID t \<longleftrightarrow> tr_Finalized t \<or> status = ''MINED'' \<and> tradeID \<noteq> [] \<and> tradeID \<in> tr_SeenTradeIDs t"

lemma applyFill_result:
  assumes "applyFill status tradeID tm f e = (e', evs)" and "k = fi_orderID f" and "t = getOrCreateTracked k e"
  shows "\<exists>t'. e' = setTracked k t' e \<and> tr_Accepted t' = tr_Accepted t \<and> tr_SeenTradeIDs t \<subseteq> tr_SeenTradeIDs t' \<and>
    terminalPhase k (tr_Finalized t) evs (tr_Finalized t') \<and>
    (\<forall>ev \<in> set evs. ev_OrderID ev = k \<and> ev_Status ev \<noteq> Accepted) \<and>
    (status = ''MINED'' \<and> tradeID \<noteq> [] \<or> status = ''FAILED'' \<longrightarrow> spent status tradeID t') \<and>
    (spent status tradeID t \<longrightarrow> evs = [])"
proof -
  let ?t = "refresh (fi_market f) (fi_tokenID f) (fi_side f) (fi_price f) 0 t"
  let ?t2 = "if tradeID \<noteq> [] then ?t\<lparr>tr_SeenTradeIDs := insert tradeID (tr_SeenTradeIDs ?t)\<rparr> else ?t"
  obtain t' fe where b: "buildFillEventsFromDelta k ?t2 (fi_size f) tm = (t', fe)" by fastforce
  consider "tr_Finalized t"
    | "\<not> tr_Finalized t" "status = ''MINED''" "tradeID \<noteq> []" "tradeID \<in> tr_SeenTradeIDs t"
    | "\<not> tr_Finalized t" "status = ''MINED''" "\<not> (tradeID \<noteq> [] \<and> tradeID \<in> tr_SeenTradeIDs t)"
    | "\<not> tr_Finalized t" "status = ''FAILED''"
    | "\<not> tr_Finalized t" "status \<noteq> ''MINED''" "status \<noteq> ''FAILED''" by blast
  then show ?thesis
  proof cases
    case 1
    with assms show ?thesis by (auto simp: applyFill_def Let_def spent_def)
  next
    case 2
    with assms have "e' = setTracked k ?t e" "evs = []" by (simp_all add: applyFill_def Let_def)
    with 2 show ?thesis by (intro exI [of _ ?t]) (simp add: spent_def)
  next
    case 3
    with assms b have r: "e' = setTracked k t' e" "evs = fe"
      by (cases "tradeID = []"; simp add: applyFill_def Let_def)+
    have n: "\<not> tr_Finalized ?t2" using 3 by simp
    have "tr_SeenTradeIDs ?t2 = (if tradeID \<noteq> [] then insert tradeID (tr_SeenTradeIDs t) else tr_SeenTradeIDs t)"
      "tr_Accepted ?t2 = tr_Accepted t" "tr_Finalized ?t2 = tr_Finalized t" by simp_all
    with r 3 fill_delta [OF n b] show ?thesis by (intro exI [of _ t']) (auto simp: spent_def)
  next
    case 4
    with assms have "e' = setTracked k (?t\<lparr>tr_Finalized := True\<rparr>) e"
      "evs = [trackedEvent k ?t 0 Rejected ExecutionReasonTradeFailed tm]" by (simp_all add: applyFill_def Let_def)
    with 4 show ?thesis
      by (intro exI [of _ "?t\<lparr>tr_Finalized := True\<rparr>"]) (simp add: spent_def phase_def ofOrder_def isTerminal_def)
  next
    case 5
    with assms have "e' = setTracked k ?t e" "evs = []" by (simp_all add: applyFill_def Let_def)
    with 5 show ?thesis by (intro exI [of _ ?t]) (simp add: spent_def)
  qed
qed

lemma applyFill_phase:
  assumes "applyFill status tradeID tm f e = (e', evs)"
  shows "terminalPhase k (finalizedIn k e) evs (finalizedIn k e')" "acceptPhase k (acceptedIn e k) evs (acceptedIn e' k)"
    "ex_HasBus e' = ex_HasBus e" "ex_out e' = ex_out e" "ex_Key e' = ex_Key e"
proof -
  let ?k = "fi_orderID f"
  obtain t' where t': "e' = setTracked ?k t' e" "tr_Accepted t' = tr_Accepted (getOrCreateTracked ?k e)"
    "terminalPhase ?k (tr_Finalized (getOrCreateTracked ?k e)) evs (tr_Finalized t')"
    "\<forall>ev \<in> set evs. ev_OrderID ev = ?k \<and> ev_Status ev \<noteq> Accepted"
    using applyFill_result [OF assms refl refl] by blast
  then have "filter (acceptanceOf k) evs = []" "k \<noteq> ?k \<Longrightarrow> filter (ofOrder k) evs = []"
    by (auto simp: filter_empty_conv acceptanceOf_def ofOrder_def)
  with t' show "terminalPhase k (finalizedIn k e) evs (finalizedIn k e')" "acceptPhase k (acceptedIn e k) evs (acceptedIn e' k)"
    by (cases "k = ?k"; simp add: finalizedIn_def acceptedIn_def phase_def)+
  show "ex_HasBus e' = ex_HasBus e" "ex_out e' = ex_out e" "ex_Key e' = ex_Key e"
    using t' by simp_all
qed

lemma fillLoop_phase:
  assumes "fillLoop status tradeID tm fs e acc = (e', out)"
  shows "\<exists>new. out = acc @ new \<and> terminalPhase k (finalizedIn k e) new (finalizedIn k e') \<and>
    acceptPhase k (acceptedIn e k) new (acceptedIn e' k) \<and> ex_HasBus e' = ex_HasBus e \<and> ex_out e' = ex_out e"
  using assms
proof (induction fs arbitrary: e acc)
  case (Cons f fs)
  obtain e1 evs where a: "applyFill status tradeID tm f e = (e1, evs)" by fastforce
  note p = applyFill_phase(1,2) [OF a, where k = k] applyFill_phase(3-5) [OF a]
  obtain new where new: "out = (acc @ evs) @ new" "terminalPhase k (finalizedIn k e1) new (finalizedIn k e')"
    "acceptPhase k (acceptedIn e1 k) new (acceptedIn e' k)" "ex_HasBus e' = ex_HasBus e1" "ex_out e' = ex_out e1"
    using Cons.IH [of e1 "acc @ evs"] Cons.prems a by auto
  with phase_append [OF p(1) new(2)] phase_append [OF p(2) new(3)] p show ?case
    by (intro exI [of _ "evs @ new"]) simp
qed simp

lemma publish_all:
  "ex_HasBus e \<Longrightarrow> ex_out (fold publish evs e) = ex_out e @ evs \<and> ex_HasBus (fold publish evs e) \<and>
     ex_tracked (fold publish evs e) = ex_tracked e"
  by (induction evs arbitrary: e) simp_all

lemma flags_tracked:
  "ex_tracked e' = ex_tracked e \<Longrightarrow> finalizedIn k e' = finalizedIn k e \<and> acceptedIn e' k = acceptedIn e k"
  by (simp add: finalizedIn_def acceptedIn_def getOrCreateTracked_def)

lemma onOrder_phase:
  assumes "ex_HasBus e"
  shows "\<exists>new. ex_out (onOrderEvent c msg e) = ex_out e @ new \<and> ex_HasBus (onOrderEvent c msg e) \<and>
    terminalPhase k (finalizedIn k e) new (finalizedIn k (onOrderEvent c msg e)) \<and>
    acceptPhase k (acceptedIn e k) new (acceptedIn (onOrderEvent c msg e) k)"
proof (cases msg)
  case (Some m)
  let ?t = "refresh (wo_Market m) (wo_AssetId m) (wo_Side m) (wo_Price m) (wo_OriginalSize m) (getOrCreateTracked (wo_Id m) e)"
  have b: "buildAcceptedEvent k' t tm = Some ev \<Longrightarrow> \<not> tr_Accepted t \<and> ev_OrderID ev = k' \<and> ev_Status ev = Accepted" for k' t tm ev
    by (auto simp: buildAcceptedEvent_def split: if_splits)
  show ?thesis
    using assms Some
    by (auto simp: onOrderEvent_def Let_def finalizedIn_def acceptedIn_def phase_def ofOrder_def acceptanceOf_def
        isTerminal_def dest!: b split: if_splits option.splits)
qed (use assms in \<open>simp add: onOrderEvent_def\<close>)

lemma onTrade_phase:
  assumes "ex_HasBus e"
  shows "\<exists>new. ex_out (onTradeEvent c msg e) = ex_out e @ new \<and> ex_HasBus (onTradeEvent c msg e) \<and>
    terminalPhase k (finalizedIn k e) new (finalizedIn k (onTradeEvent c msg e)) \<and>
    acceptPhase k (acceptedIn e k) new (acceptedIn (onTradeEvent c msg e) k)"
proof (cases msg)
  case (Some ti)
  let ?e = "callReconcile (list_ex (\<lambda>f. \<not> ghas (ex_tracked e) (fi_orderID f)) (fillsOf e ti)) e"
  obtain e1 evs where l: "fillLoop (ToUpper (TrimSpace (wt_Status ti))) (wt_Id ti) (parseEventTime c (wt_Timestamp ti))
      (fillsOf e ti) ?e [] = (e1, evs)" by fastforce
  have run: "onTradeEvent c msg e = fold publish evs e1" by (simp add: onTradeEvent_def Some Let_def l)
  have same: "finalizedIn k ?e = finalizedIn k e" "acceptedIn ?e k = acceptedIn e k" by (simp_all add: finalizedIn_def acceptedIn_def)
  from fillLoop_phase [OF l, of k] have p: "terminalPhase k (finalizedIn k e) evs (finalizedIn k e1)"
    "acceptPhase k (acceptedIn e k) evs (acceptedIn e1 k)" "ex_HasBus e1" "ex_out e1 = ex_out e"
    using assms same by auto
  show ?thesis
    unfolding run using publish_all [OF p(3), of evs] flags_tracked [of "fold publish evs e1" e1 k] p by auto
qed (use assms in \<open>simp add: onTradeEvent_def\<close>)

lemma handle_phase:
  assumes "ex_HasBus e"
  shows "\<exists>new. ex_out (handleTradeEvent c m e) = ex_out e @ new \<and> ex_HasBus (handleTradeEvent c m e) \<and>
    terminalPhase k (finalizedIn k e) new (finalizedIn k (handleTradeEvent c m e)) \<and>
    acceptPhase k (acceptedIn e k) new (acceptedIn (handleTradeEvent c m e) k)"
  using assms onOrder_phase [OF assms] onTrade_phase [OF assms] by (cases m) simp_all

definition monitorStep :: "time \<times> tradeEvent \<Rightarrow> Executor \<Rightarrow> Executor" where
  "monitorStep m e = handleTradeEvent (fst m) (snd m) e"

lemma monitor_steps:
  assumes "ex_HasBus e"
  shows "ex_HasBus (monitorStep m e)"
    "\<exists>new. ex_out (monitorStep m e) = ex_out e @ new \<and> terminalPhase k (finalizedIn k e) new (finalizedIn k (monitorStep m e))"
    "\<exists>new. ex_out (monitorStep m e) = ex_out e @ new \<and> acceptPhase k (acceptedIn e k) new (acceptedIn (monitorStep m e) k)"
  using handle_phase [OF assms, of "fst m" "snd m" k] unfolding monitorStep_def by blast+

interpretation terminal: one_shot "finalizedIn k" "ofOrder k" isTerminal monitorStep ex_out ex_HasBus for k
  by unfold_locales (simp_all add: monitor_steps)

interpretation acceptance: one_shot "\<lambda>e. acceptedIn e k" "acceptanceOf k" "\<lambda>ev. True" monitorStep ex_out ex_HasBus for k
  by unfold_locales (simp_all add: monitor_steps)


definition demoTrade :: "string \<Rightarrow> WSTrade" where
  "demoTrade st = \<lparr>wt_Id = ''x'', wt_TakerOrderId = ''o'', wt_Owner = [], wt_Market = ''m'', wt_AssetId = ''t'', wt_Side = BUY,
     wt_Price = f64 (1/2), wt_Size = f64 10, wt_Status = st, wt_Timestamp = 0, wt_MakerOrders = []\<rparr>"

definition demoPosted :: Executor where
  "demoPosted = trackPostedOrder ''o'' demoIntent demoExecutor"


section \<open>Repeated delivery\<close>

text \<open>Orders only move forward: final stays final, seen trades and tracked orders accumulate.\<close>

definition advances :: "Executor \<Rightarrow> Executor \<Rightarrow> bool" where
  "advances e e' \<longleftrightarrow> ex_Key e' = ex_Key e \<and>
     (\<forall>k. (finalizedIn k e \<longrightarrow> finalizedIn k e') \<and> (ghas (ex_tracked e) k \<longrightarrow> ghas (ex_tracked e') k) \<and>
        tr_SeenTradeIDs (getOrCreateTracked k e) \<subseteq> tr_SeenTradeIDs (getOrCreateTracked k e'))"

lemma advances_refl [simp]: "advances e e"
  by (simp add: advances_def)

lemma advances_trans: "advances e e' \<Longrightarrow> advances e' e'' \<Longrightarrow> advances e e''"
  unfolding advances_def by (metis subset_trans)

lemma advances_frame: "ex_Key e' = ex_Key e \<Longrightarrow> ex_tracked e' = ex_tracked e \<Longrightarrow> advances e e'"
  by (simp add: advances_def finalizedIn_def getOrCreateTracked_def)

lemma advances_set:
  "(tr_Finalized (getOrCreateTracked k e) \<longrightarrow> tr_Finalized t) \<Longrightarrow> tr_SeenTradeIDs (getOrCreateTracked k e) \<subseteq> tr_SeenTradeIDs t \<Longrightarrow>
   advances e (setTracked k t e)"
  by (simp add: advances_def finalizedIn_def) (simp add: setTracked_def)

lemma advances_spent:
  "advances e e' \<Longrightarrow> spent st n (getOrCreateTracked k e) \<Longrightarrow> spent st n (getOrCreateTracked k e')"
  by (auto simp: advances_def spent_def finalizedIn_def)

definition settling :: "string \<Rightarrow> string \<Rightarrow> bool" where
  "settling st n \<longleftrightarrow> st = ''MINED'' \<and> n \<noteq> [] \<or> st = ''FAILED''"

lemma applyFill_advances:
  assumes "applyFill st n tm f e = (e', evs)"
  shows "advances e e'" "settling st n \<Longrightarrow> spent st n (getOrCreateTracked (fi_orderID f) e')"
    "ghas (ex_tracked e') (fi_orderID f)"
    "spent st n (getOrCreateTracked (fi_orderID f) e) \<Longrightarrow> evs = []"
proof -
  let ?k = "fi_orderID f"
  obtain t' where t': "e' = setTracked ?k t' e" "tr_SeenTradeIDs (getOrCreateTracked ?k e) \<subseteq> tr_SeenTradeIDs t'"
    "terminalPhase ?k (tr_Finalized (getOrCreateTracked ?k e)) evs (tr_Finalized t')"
    "settling st n \<longrightarrow> spent st n t'" "spent st n (getOrCreateTracked ?k e) \<longrightarrow> evs = []"
    using applyFill_result [OF assms refl refl] unfolding settling_def by blast
  then have fin: "tr_Finalized (getOrCreateTracked ?k e) \<longrightarrow> tr_Finalized t'" by (simp add: phase_def)
  show "advances e e'" unfolding t'(1) using fin t'(2) by (rule advances_set)
  show "settling st n \<Longrightarrow> spent st n (getOrCreateTracked ?k e')" "spent st n (getOrCreateTracked ?k e) \<Longrightarrow> evs = []"
    using t' by simp_all
  show "ghas (ex_tracked e') ?k" unfolding t'(1) by (simp add: setTracked_def)
qed

lemma fillLoop_advances:
  "fillLoop st n tm fs e acc = (e', out) \<Longrightarrow> advances e e' \<and>
   (\<forall>f \<in> set fs. ghas (ex_tracked e') (fi_orderID f) \<and> (settling st n \<longrightarrow> spent st n (getOrCreateTracked (fi_orderID f) e'))) \<and>
   ((\<forall>f \<in> set fs. spent st n (getOrCreateTracked (fi_orderID f) e)) \<longrightarrow> out = acc)"
proof (induction fs arbitrary: e acc)
  case (Cons g fs)
  obtain e1 evs where a: "applyFill st n tm g e = (e1, evs)" by fastforce
  note one = applyFill_advances [OF a]
  have ih: "advances e1 e' \<and>
   (\<forall>f \<in> set fs. ghas (ex_tracked e') (fi_orderID f) \<and> (settling st n \<longrightarrow> spent st n (getOrCreateTracked (fi_orderID f) e'))) \<and>
   ((\<forall>f \<in> set fs. spent st n (getOrCreateTracked (fi_orderID f) e1)) \<longrightarrow> out = acc @ evs)"
    using Cons.IH [of e1 "acc @ evs"] Cons.prems a by simp
  have g: "ghas (ex_tracked e') (fi_orderID g)" "settling st n \<Longrightarrow> spent st n (getOrCreateTracked (fi_orderID g) e')"
    using ih one advances_spent [of e1 e' st n] by (auto simp: advances_def)
  have out: "out = acc" if "\<forall>f \<in> set (g # fs). spent st n (getOrCreateTracked (fi_orderID f) e)"
    using that ih one(4) advances_spent [OF one(1)] by simp
  show ?case using ih g out advances_trans [OF one(1)] by simp
qed simp

lemma publish_all_frame: "ex_Key (fold publish evs e) = ex_Key e" "ex_tracked (fold publish evs e) = ex_tracked e"
  "ex_reconciles (fold publish evs e) = ex_reconciles e"
proof -
  show "ex_Key (fold publish evs e) = ex_Key e" "ex_tracked (fold publish evs e) = ex_tracked e"
    by (induction evs arbitrary: e) simp_all
  show "ex_reconciles (fold publish evs e) = ex_reconciles e"
    by (induction evs arbitrary: e) (simp_all add: publish_def)
qed

lemma onTrade_unfold:
  assumes "fillLoop (ToUpper (TrimSpace (wt_Status ti))) (wt_Id ti) (parseEventTime c (wt_Timestamp ti)) (fillsOf e ti)
      (callReconcile (list_ex (\<lambda>f. \<not> ghas (ex_tracked e) (fi_orderID f)) (fillsOf e ti)) e) [] = (e1, evs)"
  shows "onTradeEvent c (Some ti) e = fold publish evs e1"
  using assms by (simp add: onTradeEvent_def Let_def)

lemma onTrade_advances:
  "advances e (onTradeEvent c (Some ti) e) \<and> (\<forall>f \<in> set (fillsOf e ti).
     ghas (ex_tracked (onTradeEvent c (Some ti) e)) (fi_orderID f) \<and>
     (settling (ToUpper (TrimSpace (wt_Status ti))) (wt_Id ti) \<longrightarrow>
        spent (ToUpper (TrimSpace (wt_Status ti))) (wt_Id ti) (getOrCreateTracked (fi_orderID f) (onTradeEvent c (Some ti) e))))"
proof -
  let ?st = "ToUpper (TrimSpace (wt_Status ti))"
  let ?e = "callReconcile (list_ex (\<lambda>f. \<not> ghas (ex_tracked e) (fi_orderID f)) (fillsOf e ti)) e"
  obtain e1 evs where l: "fillLoop ?st (wt_Id ti) (parseEventTime c (wt_Timestamp ti)) (fillsOf e ti) ?e [] = (e1, evs)" by fastforce
  have "advances e ?e" by (rule advances_frame) simp_all
  moreover have "advances e1 (fold publish evs e1)" by (rule advances_frame) (simp_all add: publish_all_frame)
  moreover have "getOrCreateTracked k (fold publish evs e1) = getOrCreateTracked k e1" for k
    by (simp add: getOrCreateTracked_def publish_all_frame)
  ultimately show ?thesis
    unfolding onTrade_unfold [OF l] using fillLoop_advances [OF l]
    by (auto simp: publish_all_frame intro: advances_trans [OF _ advances_trans])
qed

lemma onOrder_advances: "advances e (onOrderEvent c msg e)"
proof (cases msg)
  case (Some m)
  let ?e = "callReconcile (\<not> ghas (ex_tracked e) (wo_Id m)) e"
  let ?t = "refresh (wo_Market m) (wo_AssetId m) (wo_Side m) (wo_Price m) (wo_OriginalSize m) (getOrCreateTracked (wo_Id m) e)"
  have e: "advances e ?e" by (rule advances_frame) simp_all
  have set: "advances ?e (setTracked (wo_Id m) t ?e)"
    if "tr_Finalized t \<or> tr_Finalized t = tr_Finalized ?t" "tr_SeenTradeIDs t = tr_SeenTradeIDs ?t" for t
    using that by (intro advances_set) auto
  have pub: "advances x (publish ev x)" for x ev by (rule advances_frame) simp_all
  show ?thesis
    using Some advances_trans [OF e set] advances_trans [OF advances_trans [OF e set] pub]
    by (simp add: onOrderEvent_def Let_def split: option.split)
qed (simp add: onOrderEvent_def)

lemma monitor_advances: "advances e (monitorStep m e)"
proof (cases "snd m")
  case (TradeMessage x)
  then show ?thesis using onTrade_advances by (cases x) (auto simp: monitorStep_def onTradeEvent_def)
qed (simp_all add: monitorStep_def onOrder_advances)

lemma monitor_advances_all: "advances e (fold monitorStep ms e)"
  by (induction ms arbitrary: e) (auto intro: advances_trans monitor_advances)

lemma fillsOf_Key: "ex_Key e' = ex_Key e \<Longrightarrow> fillsOf e' ti = fillsOf e ti"
  by (simp add: fillsOf_def isOwnOwner_def ownKey_def)

lemma fillLoop_frame:
  "fillLoop st n tm fs e acc = (e', out) \<Longrightarrow> ex_out e' = ex_out e \<and> ex_reconciles e' = ex_reconciles e"
proof (induction fs arbitrary: e acc)
  case (Cons f fs)
  obtain e1 evs where a: "applyFill st n tm f e = (e1, evs)" by fastforce
  obtain t' where "e1 = setTracked (fi_orderID f) t' e" using applyFill_result [OF a refl refl] by blast
  then have "ex_out e1 = ex_out e \<and> ex_reconciles e1 = ex_reconciles e" by (simp add: setTracked_def)
  with Cons.IH [of e1 "acc @ evs"] Cons.prems a show ?case by simp
qed simp

text \<open>C23. A trade message that settles (mined with a trade id, or failed) is handled once: when
  the monitor delivers it again, at any later time and with any messages in between, nothing is
  published and no reconciliation is requested.\<close>

theorem trade_delivered_again:
  assumes "settling (ToUpper (TrimSpace (wt_Status ti))) (wt_Id ti)"
    and "e' = fold monitorStep ms (onTradeEvent c (Some ti) e)"
  shows "ex_out (onTradeEvent c' (Some ti) e') = ex_out e' \<and> ex_reconciles (onTradeEvent c' (Some ti) e') = ex_reconciles e'"
proof -
  let ?st = "ToUpper (TrimSpace (wt_Status ti))" and ?d = "onTradeEvent c (Some ti) e"
  have adv: "advances ?d e'" unfolding assms(2) by (rule monitor_advances_all)
  then have "ex_Key e' = ex_Key e" using onTrade_advances [of e c ti] by (simp add: advances_def)
  then have fills: "fillsOf e' ti = fillsOf e ti" by (rule fillsOf_Key)
  have known: "\<forall>f \<in> set (fillsOf e ti). ghas (ex_tracked e') (fi_orderID f)"
    using onTrade_advances [of e c ti] adv by (auto simp: advances_def)
  have spent: "\<forall>f \<in> set (fillsOf e ti). spent ?st (wt_Id ti) (getOrCreateTracked (fi_orderID f) e')"
    using onTrade_advances [of e c ti] advances_spent [OF adv] assms(1) by blast
  have same: "callReconcile (list_ex (\<lambda>f. \<not> ghas (ex_tracked e') (fi_orderID f)) (fillsOf e' ti)) e' = e'"
    using known by (auto simp: callReconcile_def fills list_ex_iff)
  obtain e1 evs where l: "fillLoop ?st (wt_Id ti) (parseEventTime c' (wt_Timestamp ti)) (fillsOf e' ti) e' [] = (e1, evs)" by fastforce
  have "evs = []" using fillLoop_advances [OF l] spent by (simp add: fills)
  moreover have "ex_out e1 = ex_out e' \<and> ex_reconciles e1 = ex_reconciles e'" using l by (rule fillLoop_frame)
  moreover have "onTradeEvent c' (Some ti) e' = fold publish evs e1" using l same by (intro onTrade_unfold) simp
  ultimately show ?thesis by simp
qed

corollary trade_delivered_again_witness:
  "ex_out (onTradeEvent 5 (Some (demoTrade ''mined'')) (onTradeEvent 4 (Some (demoTrade ''mined'')) demoPosted)) =
   ex_out (onTradeEvent 4 (Some (demoTrade ''mined'')) demoPosted)"
proof -
  have "settling (ToUpper (TrimSpace (wt_Status (demoTrade ''mined'')))) (wt_Id (demoTrade ''mined''))" by code_simp
  from trade_delivered_again [OF this, of "onTradeEvent 4 (Some (demoTrade ''mined'')) demoPosted" "[]" 4 demoPosted 5]
  show ?thesis by simp
qed

end
