(* ===== verification/Tracking.thy ===== *)
theory Tracking
  imports Runtime
begin

text \<open>
  The engine's order tracking: the calls of \<^verbatim>\<open>handleExecutionEvent\<close> and
  \<^verbatim>\<open>replayPending\<close> end, the tracking sets stay consistent, the ledger's invariants are
  kept whatever the exchange sends, and events that arrive before the order was accepted have
  the same effect as events that arrive after it.
\<close>

declare map_of_eq_Some_iff [simp del] Some_eq_map_of_iff [simp del]

section \<open>The handler without fuel\<close>

definition simpleEvent :: "time \<Rightarrow> ExecutionEvent \<Rightarrow> Engine \<Rightarrow> Engine" where
  "simpleEvent clock data e =
    (if ev_OrderID data = [] then handleAnonymous data e
     else if isFinalized (ev_OrderID data) e then e
     else case ev_Status data of
       Accepted \<Rightarrow> e
     | PartiallyFilled \<Rightarrow> handleFill clock data e
     | Filled \<Rightarrow> handleFill clock data e
     | Cancelled \<Rightarrow> handleCancelled clock data e
     | Rejected \<Rightarrow> handleRejected clock data e)"

definition countEvent :: "Engine \<Rightarrow> Engine" where
  "countEvent e = e\<lparr>en_executionEvents := en_executionEvents e + 1\<rparr>"

definition handleEvent :: "time \<Rightarrow> ExecutionEvent \<Rightarrow> bool \<Rightarrow> Engine \<Rightarrow> Engine" where
  "handleEvent clock data cnt e =
    (let e = (if cnt then countEvent e else e) in
     if ev_OrderID data \<noteq> [] \<and> \<not> isFinalized (ev_OrderID data) e \<and> ev_Status data = Accepted
     then (let (e, events) = takePending (ev_OrderID data) (acceptOrder data e)
           in fold (simpleEvent clock) events e)
     else simpleEvent clock data e)"

text \<open>Buffered events are never acceptances, stand under their own order id, and belong to
  orders that are neither accepted nor final.\<close>

definition tracking_ok :: "Engine \<Rightarrow> bool" where
  "tracking_ok e \<longleftrightarrow> gmap_ok (en_pending e) \<and> gmap_ok (en_finalizedAt e) \<and> en_accepted e \<inter> en_finalized e = {} \<and>
     (\<forall>k p. map_of (en_pending e) k = Some p \<longrightarrow>
        k \<noteq> [] \<and> k \<notin> en_accepted e \<and> k \<notin> en_finalized e \<and>
        (\<forall>ev \<in> set (px_events p). ev_OrderID ev = k \<and> ev_Status ev \<in> {PartiallyFilled, Filled, Cancelled})) \<and>
     (\<forall>k. ghas (en_finalizedAt e) k \<longleftrightarrow> k \<in> en_finalized e)"

lemma acceptOrder_frame [simp]:
  "en_pending (acceptOrder data e) = en_pending e" "en_finalized (acceptOrder data e) = en_finalized e"
  "en_finalizedAt (acceptOrder data e) = en_finalizedAt e"
  "en_accepted (acceptOrder data e) = insert (ev_OrderID data) (en_accepted e)"
  "en_State (acceptOrder data e) = fst (AttachOrder (ev_ParentOrderID data) (ev_OrderID data) (ev_MarketID data)
     (ev_TokenID data) (ev_Side data) (ev_Price data) (ev_RequestedSize data) (en_State e))"
  by (auto simp: acceptOrder_def Let_def split_beta markAccepted_def publishRisk_def split: option.split)

lemma handle_simple:
  "ev_Status data \<noteq> Accepted \<Longrightarrow>
   handleExecutionEvent (Suc fuel) clock data cnt e = Some (simpleEvent clock data (if cnt then countEvent e else e))"
  by (cases "ev_Status data") (simp_all add: simpleEvent_def countEvent_def Let_def)

lemma replay_simple:
  "\<forall>ev \<in> set evs. ev_Status ev \<noteq> Accepted \<Longrightarrow>
   replayEvents (Suc fuel) clock evs e = Some (fold (simpleEvent clock) evs e)"
  by (induction evs arbitrary: e) (simp_all add: handle_simple del: handleExecutionEvent.simps)

lemma fuel_enough:
  assumes "tracking_ok e"
  shows "handleExecutionEvent (Suc (Suc fuel)) clock data cnt e = Some (handleEvent clock data cnt e)"
proof (cases "ev_OrderID data \<noteq> [] \<and> \<not> isFinalized (ev_OrderID data) e \<and> ev_Status data = Accepted")
  case False
  then show ?thesis
    by (cases "ev_Status data")
      (auto simp: handleEvent_def simpleEvent_def countEvent_def isFinalized_def Let_def)
next
  case True
  let ?e = "if cnt then countEvent e else e"
  have fin: "isFinalized (ev_OrderID data) ?e = isFinalized (ev_OrderID data) e"
    by (simp add: isFinalized_def countEvent_def)
  have "\<forall>ev \<in> set (snd (takePending (ev_OrderID data) (acceptOrder data ?e))). ev_Status ev \<noteq> Accepted"
  proof (cases "map_of (en_pending e) (ev_OrderID data)")
    case (Some p)
    with assms have "\<forall>ev \<in> set (px_events p). ev_Status ev \<in> {PartiallyFilled, Filled, Cancelled}"
      unfolding tracking_ok_def by blast
    with Some show ?thesis by (auto simp: takePending_def countEvent_def)
  qed (simp add: takePending_def countEvent_def)
  from replay_simple [OF this, of fuel clock "fst (takePending (ev_OrderID data) (acceptOrder data ?e))"]
  show ?thesis
    using True fin by (cases cnt) (simp_all add: handleEvent_def Let_def split_beta countEvent_def)
qed

section \<open>Consistency of the tracking sets\<close>

lemma tracking_frame:
  "en_pending e' = en_pending e \<Longrightarrow> en_accepted e' = en_accepted e \<Longrightarrow> en_finalized e' = en_finalized e \<Longrightarrow>
   en_finalizedAt e' = en_finalizedAt e \<Longrightarrow> tracking_ok e' = tracking_ok e"
  by (simp add: tracking_ok_def)

lemma tracking_buffer:
  assumes "tracking_ok e" and "ev_OrderID ev \<noteq> []" and "ev_OrderID ev \<notin> en_accepted e"
    and "ev_OrderID ev \<notin> en_finalized e" and "ev_Status ev \<in> {PartiallyFilled, Filled, Cancelled}"
  shows "tracking_ok (bufferExecution clock ev e)"
  using assms
  by (auto simp: tracking_ok_def bufferExecution_def Let_def update_conv' distinct_update split: option.splits if_splits)

lemma tracking_finalize: "tracking_ok e \<Longrightarrow> tracking_ok (finalizeOrder clock k e)"
  by (auto simp: tracking_ok_def finalizeOrder_def delete_conv' distinct_delete distinct_update split: if_splits)

lemma tracking_state [simp]: "tracking_ok (e\<lparr>en_State := s\<rparr>) = tracking_ok e"
  by (simp add: tracking_ok_def)

lemma tracking_counters [simp]:
  "tracking_ok (e\<lparr>en_executionFilled := x\<rparr>) = tracking_ok e" "tracking_ok (e\<lparr>en_executionRejected := x\<rparr>) = tracking_ok e"
  "tracking_ok (e\<lparr>en_executionEvents := x\<rparr>) = tracking_ok e" "tracking_ok (publishRisk r e) = tracking_ok e"
  by (simp_all add: tracking_ok_def publishRisk_def)

lemma tracking_handleAnonymous: "tracking_ok e \<Longrightarrow> tracking_ok (handleAnonymous ev e)"
  by (simp add: handleAnonymous_def Let_def)

lemma tracking_handleFill:
  assumes "tracking_ok e" and "ev_OrderID ev \<noteq> []" and "\<not> isFinalized (ev_OrderID ev) e"
    and "ev_Status ev \<in> {PartiallyFilled, Filled}"
  shows "tracking_ok (handleFill clock ev e)"
  using assms tracking_buffer [OF assms(1,2), of clock]
  by (auto simp: handleFill_def hasAccepted_def isFinalized_def Let_def split_beta intro: tracking_finalize
      split: option.split)

lemma tracking_handleCancelled:
  assumes "tracking_ok e" and "ev_OrderID ev \<noteq> []" and "\<not> isFinalized (ev_OrderID ev) e" and "ev_Status ev = Cancelled"
  shows "tracking_ok (handleCancelled clock ev e)"
  using assms tracking_buffer [OF assms(1,2), of clock]
  by (auto simp: handleCancelled_def hasAccepted_def isFinalized_def intro: tracking_finalize)

lemma tracking_handleRejected: "tracking_ok e \<Longrightarrow> tracking_ok (handleRejected clock ev e)"
  by (simp add: handleRejected_def Let_def tracking_finalize)

lemma tracking_simple: "tracking_ok e \<Longrightarrow> tracking_ok (simpleEvent clock ev e)"
  by (cases "ev_Status ev")
    (auto simp: simpleEvent_def tracking_handleAnonymous tracking_handleFill tracking_handleCancelled
      tracking_handleRejected)

lemma tracking_simples: "tracking_ok e \<Longrightarrow> tracking_ok (fold (simpleEvent clock) evs e)"
  by (induction evs arbitrary: e) (simp_all add: tracking_simple)

lemma tracking_accept:
  assumes "tracking_ok e" and "ev_OrderID ev \<notin> en_finalized e"
  shows "tracking_ok (fst (takePending (ev_OrderID ev) (acceptOrder ev e)))"
  using assms by (auto simp: takePending_def tracking_ok_def delete_conv' distinct_delete split: option.splits if_splits)

lemma tracking_handle:
  assumes "tracking_ok e"
  shows "tracking_ok (handleEvent clock ev cnt e)"
proof -
  let ?e = "if cnt then countEvent e else e"
  have ok: "tracking_ok ?e" using assms by (simp add: countEvent_def)
  then have "ev_OrderID ev \<notin> en_finalized ?e \<Longrightarrow>
      tracking_ok (fst (takePending (ev_OrderID ev) (acceptOrder ev ?e)))"
    by (rule tracking_accept)
  with ok show ?thesis
    by (simp add: handleEvent_def Let_def split_beta isFinalized_def tracking_simple tracking_simples)
qed

section \<open>The ledger's invariants hold at the engine\<close>

context state_invariant
begin

lemma simpleEvent_keeps: "I (en_State e) \<Longrightarrow> I (en_State (simpleEvent clock ev e))"
  by (cases "ev_Status ev")
    (auto simp: simpleEvent_def handleAnonymous_def handleFill_def handleCancelled_def handleRejected_def
      finalizeOrder_def bufferExecution_def publishRisk_def hasAccepted_def Let_def split_beta
      intro: ReleaseProv Release Fill split: option.split)

lemma simpleEvents_keep: "I (en_State e) \<Longrightarrow> I (en_State (fold (simpleEvent clock) evs e))"
  by (induction evs arbitrary: e) (simp_all add: simpleEvent_keeps)

lemma handleEvent_keeps: "I (en_State e) \<Longrightarrow> I (en_State (handleEvent clock ev cnt e))"
proof -
  assume i: "I (en_State e)"
  then have "I (en_State (if cnt then countEvent e else e))" by (simp add: countEvent_def)
  moreover have "en_State (fst (takePending k e)) = en_State e" for k e
    by (simp add: takePending_def split: option.split)
  ultimately show ?thesis
    using Attach by (simp add: handleEvent_def Let_def split_beta simpleEvent_keeps simpleEvents_keep)
qed

lemma cleanupTracking_keeps: "I (en_State e) \<Longrightarrow> I (en_State (cleanupTracking clock now e))"
proof -
  assume i: "I (en_State e)"
  have a: "en_State (fold (\<lambda>x e. publishRisk (f x) e) xs e) = en_State e" for f and xs :: "string list" and e
    by (induction xs arbitrary: e) (simp_all add: publishRisk_def)
  have b: "en_State (fold (\<lambda>(k, p) e. publishRisk (g k p) (e\<lparr>en_executionExpired := h p e\<rparr>)) xs e) = en_State e"
    for g h and xs :: "(string \<times> pendingExecution) list" and e
    by (induction xs arbitrary: e) (simp_all add: publishRisk_def split_beta)
  have "en_State (cleanupExpiredFinalized now (cleanupExpiredPending now e)) = en_State e"
    by (simp add: cleanupExpiredFinalized_def cleanupExpiredPending_def Let_def b)
  with i Cleanup show ?thesis
    by (simp add: cleanupTracking_def cleanupExpiredProvisional_def split_beta a)
qed

lemma nextIntentID_State [simp]: "en_State (fst (nextIntentID clock e)) = en_State e"
  by (simp add: nextIntentID_def Let_def)

lemma reserveLoop_keeps: "I (en_State e) \<Longrightarrow> I (en_State (fst (reserveLoop clock is e acc)))"
proof (induction "is" arbitrary: e acc)
  case (Cons i rest)
  then show ?case
    using TryReserve by (auto simp: Let_def split_beta publishRisk_def split: option.split)
qed simp

lemma submitIntents_keeps:
  "I (en_State e) \<Longrightarrow> submitIntents clock is snap mids e = Some (e', g, sent) \<Longrightarrow> I (en_State e')"
  using reserveLoop_keeps [of "e\<lparr>en_Risk := rk\<rparr>" clock "is" "[]" for rk]
  by (auto simp: submitIntents_def Let_def split_beta publishRisk_def split: if_splits option.splits)

lemma runStrategies_keeps:
  "I (en_State e) \<Longrightarrow> runStrategies clock strats snap mids e sent = Some (e', out) \<Longrightarrow> I (en_State e')"
proof (induction strats arbitrary: e sent)
  case (Cons st rest)
  then show ?case
    by (cases st) (auto simp: Let_def split: if_splits option.splits prod.splits dest: submitIntents_keeps)
qed simp

end

section \<open>Events before and after the acceptance\<close>

text \<open>Two counters the handlers only add to.\<close>

definition bump :: "64 word \<Rightarrow> 64 word \<Rightarrow> Engine \<Rightarrow> Engine" where
  "bump m n e = e\<lparr>en_executionEvents := en_executionEvents e + m, en_executionBuffered := en_executionBuffered e + n\<rparr>"

lemma bump_frame [simp]:
  "en_State (bump m n e) = en_State e" "en_accepted (bump m n e) = en_accepted e"
  "en_finalized (bump m n e) = en_finalized e" "en_pending (bump m n e) = en_pending e"
  "en_finalizedAt (bump m n e) = en_finalizedAt e"
  by (simp_all add: bump_def)

lemma bump_0 [simp]: "bump 0 0 e = e"
  by (simp add: bump_def)

lemma bump_bump [simp]: "bump m n (bump m' n' e) = bump (m + m') (n + n') e"
  by (simp add: bump_def add_ac)

lemma countEvent_bump: "countEvent e = bump 1 0 e"
  by (simp add: countEvent_def bump_def)

lemma bump_buffer: "bufferExecution clock ev (bump m n e) = bump m n (bufferExecution clock ev e)"
  by (simp add: bump_def bufferExecution_def Let_def add_ac)

lemma bump_finalize: "finalizeOrder clock k (bump m n e) = bump m n (finalizeOrder clock k e)"
  by (simp add: bump_def finalizeOrder_def)

lemma bump_updates:
  "(bump m n e)\<lparr>en_State := s\<rparr> = bump m n (e\<lparr>en_State := s\<rparr>)"
  "(bump m n e)\<lparr>en_executionFilled := x\<rparr> = bump m n (e\<lparr>en_executionFilled := x\<rparr>)"
  "(bump m n e)\<lparr>en_executionRejected := x\<rparr> = bump m n (e\<lparr>en_executionRejected := x\<rparr>)"
  "(bump m n e)\<lparr>en_executionAccepted := x\<rparr> = bump m n (e\<lparr>en_executionAccepted := x\<rparr>)"
  "(bump m n e)\<lparr>en_pending := p\<rparr> = bump m n (e\<lparr>en_pending := p\<rparr>)"
  "(bump m n e)\<lparr>en_accepted := a\<rparr> = bump m n (e\<lparr>en_accepted := a\<rparr>)"
  "publishRisk r (bump m n e) = bump m n (publishRisk r e)"
  by (simp_all add: bump_def publishRisk_def)

lemma bump_reads [simp]:
  "en_executionFilled (bump m n e) = en_executionFilled e" "en_executionRejected (bump m n e) = en_executionRejected e"
  "en_executionAccepted (bump m n e) = en_executionAccepted e"
  by (simp_all add: bump_def)

lemma bump_simple: "simpleEvent clock ev (bump m n e) = bump m n (simpleEvent clock ev e)"
  by (cases "ev_Status ev")
    (auto simp: simpleEvent_def handleAnonymous_def handleFill_def handleCancelled_def handleRejected_def
      isFinalized_def hasAccepted_def Let_def split_beta bump_updates bump_buffer bump_finalize split: option.split)

lemma bump_simples: "fold (simpleEvent clock) evs (bump m n e) = bump m n (fold (simpleEvent clock) evs e)"
  by (induction evs arbitrary: e) (simp_all add: bump_simple)

lemma bump_accept: "acceptOrder ev (bump m n e) = bump m n (acceptOrder ev e)"
  by (simp add: acceptOrder_def markAccepted_def Let_def split_beta bump_updates split: option.split)

text \<open>Buffering a list of events.\<close>

definition early :: "string \<Rightarrow> ExecutionEvent \<Rightarrow> bool" where
  "early k ev \<longleftrightarrow> ev_OrderID ev = k \<and> ev_Status ev \<in> {PartiallyFilled, Filled, Cancelled}"

lemma handle_early_buffers:
  assumes "early k ev" and "k \<noteq> []" and "k \<notin> en_accepted e" and "k \<notin> en_finalized e"
  shows "handleEvent clock ev True e = bufferExecution clock ev (bump 1 0 e)"
proof -
  have "ev_Status ev \<noteq> Accepted" using assms(1) by (auto simp: early_def)
  then have "handleEvent clock ev True e = simpleEvent clock ev (bump 1 0 e)"
    by (simp add: handleEvent_def countEvent_bump)
  also have "\<dots> = bufferExecution clock ev (bump 1 0 e)"
    using assms by (auto simp: early_def simpleEvent_def isFinalized_def handleFill_def handleCancelled_def hasAccepted_def)
  finally show ?thesis .
qed

lemma gput_gput: "gput k v (gput k w m) = gput k v m"
  by (induction m) auto

lemma buffer_run:
  assumes "k \<noteq> []" and "k \<notin> en_accepted e" and "k \<notin> en_finalized e"
    and "map_of (en_pending e) k = Some \<lparr>px_events = es, px_firstSeen = t0\<rparr>"
    and "\<forall>(c, ev) \<in> set evs. early k ev"
  shows "fold (\<lambda>(c, ev). handleEvent c ev True) evs e =
    (bump (of_nat (length evs)) (of_nat (length evs)) e)
      \<lparr>en_pending := gput k \<lparr>px_events = es @ map snd evs, px_firstSeen = t0\<rparr> (en_pending e)\<rparr>"
  using assms
proof (induction evs arbitrary: e es)
  case Nil
  then have "gput k \<lparr>px_events = es, px_firstSeen = t0\<rparr> (en_pending e) = en_pending e"
    by (intro update_triv) (auto simp: map_of_eq_Some_iff)
  then show ?case by simp
next
  case (Cons a evs)
  obtain c ev where a: "a = (c, ev)" by fastforce
  have ev: "early k ev" and id: "ev_OrderID ev = k" using Cons.prems(5) a by (auto simp: early_def)
  let ?e = "handleEvent c ev True e"
  have e': "?e = (bump 1 1 e)\<lparr>en_pending := gput k \<lparr>px_events = es @ [ev], px_firstSeen = t0\<rparr> (en_pending e)\<rparr>"
    using handle_early_buffers [OF ev Cons.prems(1-3), of c] Cons.prems(4) id
    by (simp add: bufferExecution_def bump_def)
  have "fold (\<lambda>(c, ev). handleEvent c ev True) evs ?e =
    (bump (of_nat (length evs)) (of_nat (length evs)) ?e)
      \<lparr>en_pending := gput k \<lparr>px_events = (es @ [ev]) @ map snd evs, px_firstSeen = t0\<rparr> (en_pending ?e)\<rparr>"
    using Cons.prems by (intro Cons.IH) (auto simp: e' update_conv')
  then show ?case
    by (simp add: a e' gput_gput bump_def add_ac)
qed

lemma direct_run:
  "\<forall>(c', ev) \<in> set evs. early k ev \<Longrightarrow>
   fold (\<lambda>(c', ev). handleEvent c ev True) evs e =
   bump (of_nat (length evs)) 0 (fold (simpleEvent c) (map snd evs) e)"
proof (induction evs arbitrary: e)
  case (Cons a evs)
  obtain c' ev where a: "a = (c', ev)" by fastforce
  have "ev_Status ev \<noteq> Accepted" using Cons.prems a by (auto simp: early_def)
  then have "handleEvent c ev True e = bump 1 0 (simpleEvent c ev e)"
    by (simp add: handleEvent_def countEvent_bump bump_simple)
  with Cons show ?case by (simp add: a bump_simples add_ac)
qed simp

lemma gdel_gput: "map_of m k = None \<Longrightarrow> gdel k (gput k v m) = m"
  by (induction m) (auto split: if_splits)

lemma accepted_after_buffer:
  assumes "map_of (en_pending e) k = None" and "ev_OrderID acc = k"
  shows "takePending k (acceptOrder acc ((bump m n e)\<lparr>en_pending := gput k p (en_pending e)\<rparr>)) =
    (bump m n (acceptOrder acc e), px_events p)"
proof -
  have pend: "acceptOrder acc (e\<lparr>en_pending := q\<rparr>) = (acceptOrder acc e)\<lparr>en_pending := q\<rparr>" for q e
    by (simp add: acceptOrder_def markAccepted_def publishRisk_def Let_def split_beta split: option.split)
  have "en_pending e' = q \<Longrightarrow> e'\<lparr>en_pending := q\<rparr> = e'" for e' :: Engine and q by simp
  then have same: "(acceptOrder acc e)\<lparr>en_pending := en_pending e\<rparr> = acceptOrder acc e" by simp
  show ?thesis
    using assms by (simp add: same takePending_def pend bump_accept bump_updates update_conv' gdel_gput)
qed

end
