(* ===== verification/Lifecycle.thy ===== *)
theory Lifecycle
  imports Tracking
begin

text \<open>
  What the engine guarantees over its life: from start-up through any sequence of events, ticks
  and ledger operations of the other goroutines, no handler panics or runs for ever, the
  tracking sets and the ledger stay well formed, orders are finalised once, and nothing is sent
  without a reservation.
\<close>

declare map_of_eq_Some_iff [simp del] Some_eq_map_of_iff [simp del]

section \<open>The engine's steps\<close>

definition emptyEngine :: "State \<Rightarrow> RiskEngine \<Rightarrow> Engine" where
  "emptyEngine s rk =
    \<lparr>en_State = s, en_Risk = rk, en_PendingEventTTL = 0, en_FinalizedOrderTTL = 0,
     en_ProvisionalOrderTTL = 0, en_StrategyTickInterval = 0, en_MetricsInterval = 0, en_ticks = 0,
     en_inputEvents = 0, en_executionEvents = 0, en_executionAccepted = 0, en_executionFilled = 0,
     en_executionRejected = 0, en_executionBuffered = 0, en_executionExpired = 0, en_riskRejected = 0,
     en_ordersSent = 0, en_reconcileRuns = 0, en_reconcileDiffs = 0, en_intentSeq = 0,
     en_accepted = {}, en_finalized = {}, en_finalizedAt = [], en_pending = [], en_risk = []\<rparr>"

text \<open>The reconciliation loop is launched before \<^verbatim>\<open>Engine.Start\<close>, so the ledger the engine starts with
  is any reachable one.\<close>

inductive engine_reachable :: "'j gjson \<Rightarrow> Engine \<Rightarrow> bool" for G :: "'j gjson" where
  start: "state_reachable s \<Longrightarrow> engine_reachable G (Start config G reading orders positions (emptyEngine s rk))"
| event: "engine_reachable G e \<Longrightarrow> engineEvent clock inp e = Some (e', sent) \<Longrightarrow> engine_reachable G e'"
| ledger: "engine_reachable G e \<Longrightarrow> state_step (en_State e) s \<Longrightarrow> engine_reachable G (e\<lparr>en_State := s\<rparr>)"
| reconciled: "engine_reachable G e \<Longrightarrow> engine_reachable G (RecordReconcile n e)"

section \<open>The tracking sets\<close>

lemma map_of_filter:
  "gmap_ok m \<Longrightarrow> map_of (filter (\<lambda>(k, v). P k v) m) k = (case map_of m k of Some v \<Rightarrow> if P k v then Some v else None | None \<Rightarrow> None)"
proof (induction m)
  case (Cons a m)
  then have "fst a = k \<Longrightarrow> map_of m k = None" by (auto simp: map_of_eq_None_iff)
  with Cons show ?case by (cases a) (auto split: option.split)
qed simp

lemma tracking_same [simp]:
  "tracking_ok (e\<lparr>en_Risk := rk\<rparr>) = tracking_ok e" "tracking_ok (e\<lparr>en_riskRejected := x\<rparr>) = tracking_ok e"
  "tracking_ok (e\<lparr>en_ordersSent := x\<rparr>) = tracking_ok e" "tracking_ok (e\<lparr>en_ticks := x\<rparr>) = tracking_ok e"
  "tracking_ok (e\<lparr>en_inputEvents := x\<rparr>) = tracking_ok e" "tracking_ok (e\<lparr>en_intentSeq := x\<rparr>) = tracking_ok e"
  "tracking_ok (e\<lparr>en_executionExpired := x\<rparr>) = tracking_ok e"
  by (simp_all add: tracking_ok_def)

lemma tracking_risks: "tracking_ok (fold (\<lambda>x e. publishRisk (f x) e) xs e) = tracking_ok e"
  by (induction xs arbitrary: e) simp_all

lemma tracking_cleanupPending:
  assumes "tracking_ok e"
  shows "tracking_ok (cleanupExpiredPending now e)"
proof -
  have "tracking_ok (fold (\<lambda>(k, p) e. publishRisk (g k p) (e\<lparr>en_executionExpired := h p e\<rparr>)) xs e) = tracking_ok e"
    for g h and xs :: "(string \<times> pendingExecution) list" and e
    by (induction xs arbitrary: e) (simp_all add: split_beta)
  moreover have "tracking_ok (e\<lparr>en_pending := filter (\<lambda>(k, p). Q k p) (en_pending e)\<rparr>)" for Q
    using assms by (simp add: tracking_ok_def distinct_map_filter map_of_filter split: option.split)
  ultimately show ?thesis
    using assms by (simp add: cleanupExpiredPending_def Let_def)
qed

lemma tracking_cleanupFinalized:
  assumes "tracking_ok e"
  shows "tracking_ok (cleanupExpiredFinalized now e)"
proof -
  let ?keep = "\<lambda>t. timeSub now t < en_FinalizedOrderTTL e"
  let ?old = "set (map fst (filter (\<lambda>(k, t). \<not> ?keep t) (en_finalizedAt e)))"
  have ok: "gmap_ok (en_finalizedAt e)" using assms by (simp add: tracking_ok_def)
  have old: "k \<in> ?old \<longleftrightarrow> (\<exists>t. map_of (en_finalizedAt e) k = Some t \<and> \<not> ?keep t)" for k
    using ok by (force simp: map_of_eq_Some_iff)
  have "ghas (filter (\<lambda>(k, t). ?keep t) (en_finalizedAt e)) k \<longleftrightarrow> k \<in> en_finalized e - ?old" for k
  proof -
    have "k \<in> en_finalized e \<longleftrightarrow> map_of (en_finalizedAt e) k \<noteq> None"
      using assms by (simp add: tracking_ok_def ghas_def)
    then show ?thesis
      unfolding Diff_iff old using ok by (cases "map_of (en_finalizedAt e) k") (simp_all add: ghas_def map_of_filter)
  qed
  then show ?thesis
    using assms by (auto simp: cleanupExpiredFinalized_def Let_def tracking_ok_def distinct_map_filter)
qed

lemma tracking_cleanup: "tracking_ok e \<Longrightarrow> tracking_ok (cleanupTracking clock now e)"
  by (simp add: cleanupTracking_def cleanupExpiredProvisional_def split_beta tracking_risks
      tracking_cleanupPending tracking_cleanupFinalized)

lemma tracking_nextIntentID [simp]: "tracking_ok (fst (nextIntentID clock e)) = tracking_ok e"
  by (simp add: nextIntentID_def Let_def)

lemma tracking_reserveLoop: "tracking_ok (fst (reserveLoop clock is e acc)) = tracking_ok e"
  by (induction "is" arbitrary: e acc) (auto simp: Let_def split_beta split: option.split)

lemma tracking_submit:
  "submitIntents clock is snap mids e = Some (e', g, sent) \<Longrightarrow> tracking_ok e' = tracking_ok e"
  by (auto simp: submitIntents_def Let_def split_beta tracking_reserveLoop split: if_splits option.splits)

lemma tracking_strategies:
  "runStrategies clock strats snap mids e sent = Some (e', out) \<Longrightarrow> tracking_ok e' = tracking_ok e"
proof (induction strats arbitrary: e sent)
  case (Cons st rest)
  then show ?case
    by (cases st) (auto simp: Let_def split: if_splits option.splits prod.splits dest: tracking_submit)
qed simp

lemma tracking_restored:
  "en_pending e = [] \<Longrightarrow> en_finalized e = {} \<Longrightarrow> en_finalizedAt e = [] \<Longrightarrow>
   tracking_ok (restoreOpenOrdersTrackingByIDs ids e)"
proof -
  have "en_pending (restoreOpenOrdersTrackingByIDs ids e) = en_pending e \<and>
    en_finalized (restoreOpenOrdersTrackingByIDs ids e) = en_finalized e \<and>
    en_finalizedAt (restoreOpenOrdersTrackingByIDs ids e) = en_finalizedAt e" for e
    by (induction ids arbitrary: e) (simp_all add: restoreOpenOrdersTrackingByIDs_def markAccepted_def)
  then show "en_pending e = [] \<Longrightarrow> en_finalized e = {} \<Longrightarrow> en_finalizedAt e = [] \<Longrightarrow> ?thesis"
    by (simp add: tracking_ok_def)
qed

section \<open>No handler panics\<close>

lemma submit_some: "\<exists>e' g sent. submitIntents clock is snap mids e = Some (e', g, sent)"
  by (cases rule: Check_cases [of "is" clock snap mids "en_Risk e"])
    (auto simp: submitIntents_def Let_def split_beta)

lemma strategies_some: "\<exists>e' out. runStrategies clock strats snap mids e sent = Some (e', out)"
proof (induction strats arbitrary: e sent)
  case (Cons st rest)
  show ?case
  proof (cases st)
    case (Some f)
    obtain e' g b where "submitIntents clock (f snap) snap mids e = Some (e', g, b)"
      using submit_some by blast
    then show ?thesis using Some Cons.IH by (simp add: Let_def)
  qed (use Cons.IH in simp)
qed simp

lemmas strategy_handlers = handleInputUpdate_def handleExecutionAwareStrategy_def handleStrategyTick_def

lemma handlers_some:
  "\<exists>e' out. handleInputUpdate clock obs strats e = Some (e', out)"
  "\<exists>e' out. handleExecutionAwareStrategy clock obs strats e = Some (e', out)"
  "\<exists>e' out. handleStrategyTick clock obs strats e = Some (e', out)"
  by (auto simp: strategy_handlers intro: strategies_some split: option.split)

lemma engineEvent_some:
  assumes "tracking_ok e"
  shows "\<exists>e' out. engineEvent clock inp e = Some (e', out)"
proof -
  have "handleExecutionEvent replayDepth clock data True e = Some (handleEvent clock data True e)" for data
    using fuel_enough [OF assms] by (simp add: replayDepth_def numeral_2_eq_2 del: handleExecutionEvent.simps)
  then show ?thesis
    by (cases "(clock, inp, e)" rule: engineEvent.cases) (auto simp: handlers_some)
qed

section \<open>Safety over the engine's life\<close>

lemma tracking_event:
  assumes "tracking_ok e" and "engineEvent clock inp e = Some (e', out)"
  shows "tracking_ok e'"
proof -
  have x: "handleExecutionEvent replayDepth clock data True e = Some (handleEvent clock data True e)" for data
    using fuel_enough [OF assms(1)] by (simp add: replayDepth_def numeral_2_eq_2 del: handleExecutionEvent.simps)
  show ?thesis
    using assms tracking_handle [OF assms(1), of clock _ True]
    by (cases "(clock, inp, e)" rule: engineEvent.cases)
      (auto simp: x strategy_handlers tracking_cleanup dest!: tracking_strategies split: option.splits if_splits)
qed

lemma wf_event:
  assumes "tracking_ok e" and "wf_state (en_State e)" and "engineEvent clock inp e = Some (e', out)"
  shows "wf_state (en_State e')"
proof -
  have x: "handleExecutionEvent replayDepth clock data True e = Some (handleEvent clock data True e)" for data
    using fuel_enough [OF assms(1)] by (simp add: replayDepth_def numeral_2_eq_2 del: handleExecutionEvent.simps)
  show ?thesis
    using assms wf.handleEvent_keeps [OF assms(2), of clock _ True]
    by (cases "(clock, inp, e)" rule: engineEvent.cases)
      (auto simp: x strategy_handlers publishRisk_def wf.cleanupTracking_keeps dest: wf.runStrategies_keeps [rotated]
        split: option.splits if_splits)
qed

lemma start_ok:
  assumes "e0 = emptyEngine s rk" and "wf_state s"
  shows "tracking_ok (Start config G reading orders positions e0)"
    and "wf_state (en_State (Start config G reading orders positions e0))"
proof -
  let ?e = "initOrderTracking (initConfig config e0)"
  have empty: "en_State ?e = s" "en_pending ?e = []" "en_finalized ?e = {}" "en_finalizedAt ?e = []"
    "en_accepted ?e = {}"
    by (simp_all add: assms(1) initOrderTracking_def initConfig_def emptyEngine_def Let_def split: option.split)
  then have "tracking_ok ?e" by (simp add: tracking_ok_def)
  with empty show "tracking_ok (Start config G reading orders positions e0)"
    by (simp add: Start_def Let_def split_beta tracking_restored split: sum.split)
  have "en_State (restoreOpenOrdersTrackingByIDs ids e) = en_State e" for ids e
    by (induction ids arbitrary: e) (simp_all add: restoreOpenOrdersTrackingByIDs_def markAccepted_def)
  with empty assms(2) show "wf_state (en_State (Start config G reading orders positions e0))"
    by (simp add: Start_def Let_def split_beta publishRisk_def wf_RestoreFromExchange split: sum.split)
qed

lemma reachable_ok: "engine_reachable G e \<Longrightarrow> tracking_ok e \<and> wf_state (en_State e)"
proof (induction rule: engine_reachable.induct)
  case (reconciled e n)
  then show ?case by (simp add: RecordReconcile_def Let_def tracking_ok_def)
qed (auto simp: start_ok wf.holds_reachable intro: tracking_event wf_event wf.preserved_step)

text \<open>C5. In every state the engine can reach, from a start with any replies of the exchange on a
  ledger that other goroutines may have used already, and through any sequence of bus events, ticks, cleanups and ledger operations of other goroutines,
  the tracking sets are consistent (no order is both accepted and final, buffered events belong
  to orders that are neither) and the ledger is well formed; and every further event is handled
  without a panic and without unbounded recursion between the handler and the replay.\<close>

theorem engine_safe:
  assumes "engine_reachable G e"
  shows "tracking_ok e \<and> wf_state (en_State e) \<and> (\<exists>e' out. engineEvent clock inp e = Some (e', out))"
  using reachable_ok [OF assms] engineEvent_some by blast

definition demoEngine :: Engine where
  "demoEngine = Start None demoJSON (Inr (f64 100)) (Inr []) (Inr None)
     (emptyEngine (NewStateWithBalanceSync demoConfig) demoRisk)"

lemma demo_engine_reachable: "engine_reachable demoJSON demoEngine"
  unfolding demoEngine_def by (rule engine_reachable.start [OF state_reachable.init])

corollary engine_safe_witness:
  "tracking_ok demoEngine \<and> (\<exists>e' out. engineEvent 7 (CleanupTick 7) demoEngine = Some (e', out))"
  using engine_safe [OF demo_engine_reachable, of 7 "CleanupTick 7"] by blast


definition demoEvent :: "ExecutionStatus \<Rightarrow> ExecutionEvent" where
  "demoEvent st = \<lparr>ev_OrderID = ''o'', ev_ParentOrderID = ''i'', ev_MarketID = ''m'', ev_TokenID = ''t'',
     ev_Price = f64 (1/2), ev_Side = BUY, ev_RequestedSize = f64 10, ev_FilledSize = f64 4,
     ev_Status = st, ev_Reason = [], ev_At = 0\<rparr>"


section \<open>Events before and after the acceptance\<close>

text \<open>A sequence of execution events, each with the clock at which it is handled.\<close>

fun deliver :: "(time \<times> ExecutionEvent) list \<Rightarrow> Engine \<Rightarrow> Engine option" where
  "deliver [] e = Some e"
| "deliver ((clock, data) # rest) e =
     (case handleExecutionEvent replayDepth clock data True e of None \<Rightarrow> None | Some e \<Rightarrow> deliver rest e)"

lemma deliver_fold:
  "tracking_ok e \<Longrightarrow> deliver evs e = Some (fold (\<lambda>(c, ev). handleEvent c ev True) evs e)"
proof (induction evs arbitrary: e)
  case (Cons a evs)
  have "handleExecutionEvent replayDepth c data True e = Some (handleEvent c data True e)" for c data
    using fuel_enough [OF Cons.prems]
    by (simp add: replayDepth_def numeral_2_eq_2 del: handleExecutionEvent.simps)
  with Cons show ?case by (cases a) (simp add: tracking_handle)
qed simp

lemma buffer_all:
  assumes "k \<noteq> []" and "k \<notin> en_accepted e" and "k \<notin> en_finalized e"
    and "map_of (en_pending e) k = None" and "\<forall>(c, ev) \<in> set evs. early k ev" and "evs \<noteq> []"
  shows "\<exists>p. px_events p = map snd evs \<and>
    fold (\<lambda>(c, ev). handleEvent c ev True) evs e =
    (bump (of_nat (length evs)) (of_nat (length evs)) e)\<lparr>en_pending := gput k p (en_pending e)\<rparr>"
proof -
  obtain c ev rest where evs: "evs = (c, ev) # rest" using assms(6) by (metis list.exhaust surj_pair)
  have ev: "early k ev" and id: "ev_OrderID ev = k" using assms(5) evs by (auto simp: early_def)
  let ?e = "handleEvent c ev True e"
  have e': "?e = (bump 1 1 e)\<lparr>en_pending := gput k \<lparr>px_events = [ev], px_firstSeen = c\<rparr> (en_pending e)\<rparr>"
    using handle_early_buffers [OF ev assms(1-3), of c] assms(4) id
    by (simp add: bufferExecution_def bump_def)
  have "fold (\<lambda>(c, ev). handleEvent c ev True) rest ?e =
    (bump (of_nat (length rest)) (of_nat (length rest)) ?e)
      \<lparr>en_pending := gput k \<lparr>px_events = [ev] @ map snd rest, px_firstSeen = c\<rparr> (en_pending ?e)\<rparr>"
    using assms evs by (intro buffer_run) (auto simp: e' update_conv')
  then show ?thesis
    by (intro exI [of _ "\<lparr>px_events = map snd evs, px_firstSeen = c\<rparr>"])
      (simp add: evs e' gput_gput bump_def add_ac)
qed

lemma early_then_accept:
  assumes "k \<noteq> []" and "k \<notin> en_accepted e" and "k \<notin> en_finalized e"
    and "map_of (en_pending e) k = None" and "\<forall>(c, ev) \<in> set evs. early k ev"
    and "ev_OrderID acc = k" and "ev_Status acc = Accepted"
  shows "handleEvent c acc True (fold (\<lambda>(c, ev). handleEvent c ev True) evs e) =
    bump 0 (of_nat (length evs)) (fold (\<lambda>(c', ev). handleEvent c ev True) evs (handleEvent c acc True e))"
proof (cases "evs = []")
  case False
  let ?n = "of_nat (length evs) :: 64 word"
  obtain p where p: "px_events p = map snd evs"
    and run: "fold (\<lambda>(c, ev). handleEvent c ev True) evs e = (bump ?n ?n e)\<lparr>en_pending := gput k p (en_pending e)\<rparr>"
    using buffer_all [OF assms(1-5) False] by blast
  have acc: "handleEvent c acc True x =
      (let (x, events) = takePending k (acceptOrder acc (bump 1 0 x)) in fold (simpleEvent c) events x)"
    if "k \<notin> en_finalized x" for x
    using that assms by (simp add: handleEvent_def isFinalized_def countEvent_bump)
  have taken: "takePending k (acceptOrder acc (bump 1 0 e)) = (acceptOrder acc (bump 1 0 e), [])"
    using assms by (simp add: takePending_def)
  have accept: "handleEvent c acc True e = bump 1 0 (acceptOrder acc e)"
    unfolding acc [OF assms(3)] taken by (simp add: bump_accept)
  have bump1: "bump 1 0 ((bump ?n ?n e)\<lparr>en_pending := q\<rparr>) = (bump (1 + ?n) ?n e)\<lparr>en_pending := q\<rparr>" for q
    by (simp add: bump_def add_ac)
  have "handleEvent c acc True (fold (\<lambda>(c, ev). handleEvent c ev True) evs e) =
      fold (simpleEvent c) (map snd evs) (bump (1 + ?n) ?n (acceptOrder acc e))"
    using assms by (simp add: run acc bump1 accepted_after_buffer p)
  moreover have "fold (\<lambda>(c', ev). handleEvent c ev True) evs (handleEvent c acc True e) =
      bump (1 + ?n) 0 (fold (simpleEvent c) (map snd evs) (acceptOrder acc e))"
    using direct_run [OF assms(5), of c] by (simp add: accept bump_simples add_ac)
  ultimately show ?thesis by (simp add: bump_simples)
qed simp

text \<open>C4. Execution events that arrive before the acceptance of their order lose nothing: any
  sequence of fills and cancellations that is buffered and replayed when the acceptance comes
  leaves the engine, the ledger included, exactly as if the acceptance had come first and the
  events after it; only the counter of buffered events differs.\<close>

theorem early_events_converge:
  assumes "engine_reachable G e" and "k \<noteq> []" and "k \<notin> en_accepted e" and "k \<notin> en_finalized e"
    and "map_of (en_pending e) k = None" and "\<forall>(c, ev) \<in> set evs. early k ev"
    and "ev_OrderID acc = k" and "ev_Status acc = Accepted"
  shows "\<exists>e1 e2. deliver (evs @ [(c, acc)]) e = Some e1 \<and>
    deliver ((c, acc) # map (\<lambda>(c', ev). (c, ev)) evs) e = Some e2 \<and>
    e1 = e2\<lparr>en_executionBuffered := en_executionBuffered e2 + of_nat (length evs)\<rparr>"
proof -
  let ?evs = "map (\<lambda>(c', ev). (c, ev)) evs"
  have ok: "tracking_ok e" using reachable_ok [OF assms(1)] by simp
  have same: "fold (\<lambda>(c, ev). handleEvent c ev True) ?evs x = fold (\<lambda>(c', ev). handleEvent c ev True) evs x" for x
    by (induction evs arbitrary: x) auto
  show ?thesis
    unfolding deliver_fold [OF ok] using early_then_accept [OF assms(2-8), of c] by (simp add: same bump_def)
qed

corollary early_events_converge_witness:
  "\<exists>e1 e2. deliver ([(5, demoEvent PartiallyFilled), (6, demoEvent Cancelled)] @ [(7, demoEvent Accepted)]) demoEngine = Some e1 \<and>
    deliver ((7, demoEvent Accepted) #
      map (\<lambda>(c', ev). (7, ev)) [(5 :: int, demoEvent PartiallyFilled), (6, demoEvent Cancelled)]) demoEngine = Some e2 \<and>
    e1 = e2\<lparr>en_executionBuffered := en_executionBuffered e2 +
      of_nat (length [(5 :: int, demoEvent PartiallyFilled), (6, demoEvent Cancelled)])\<rparr>"
proof (rule early_events_converge [OF demo_engine_reachable])
  show "''o'' \<notin> en_accepted demoEngine" by code_simp
  show "''o'' \<notin> en_finalized demoEngine" by code_simp
  show "map_of (en_pending demoEngine) ''o'' = None" by code_simp
qed (simp_all add: early_def demoEvent_def)

section \<open>Final orders\<close>

lemma deliver_final:
  "isFinalized k e \<Longrightarrow> \<forall>(c, ev) \<in> set evs. ev_OrderID ev = k \<Longrightarrow> k \<noteq> [] \<Longrightarrow>
   deliver evs e = Some (e\<lparr>en_executionEvents := en_executionEvents e + of_nat (length evs)\<rparr>)"
proof (induction evs arbitrary: e)
  case (Cons a evs)
  then have "handleExecutionEvent replayDepth (fst a) (snd a) True e = Some (e\<lparr>en_executionEvents := en_executionEvents e + 1\<rparr>)"
    by (auto simp: replayDepth_def numeral_2_eq_2 isFinalized_def split_beta)
  with Cons show ?case
    by (cases a) (simp add: isFinalized_def add_ac)
qed simp

lemma ReleaseOrder_gone: "k \<noteq> [] \<Longrightarrow> map_of (st_orders (ReleaseOrder k s)) k = None"
  by (cases "map_of (st_orders s) k") (simp_all add: ReleaseOrder_none ReleaseOrder_eq delete_conv')

lemma terminal_event:
  assumes "ev_OrderID ev = k" and "k \<noteq> []" and "k \<in> en_accepted e" and "k \<notin> en_finalized e"
    and "ev_Status ev \<in> {Cancelled, Rejected} \<or>
      ev_Status ev = Filled \<and> (0 < ev_FilledSize ev \<longrightarrow>
        snd (ApplyFill clock k (ev_MarketID ev) (ev_TokenID ev) (ev_Side ev) (ev_FilledSize ev) (ev_Price ev) (en_State e)) = None)"
  shows "\<exists>e'. handleExecutionEvent replayDepth clock ev True e = Some e' \<and> isFinalized k e' \<and>
    k \<notin> en_accepted e' \<and> map_of (en_pending e') k = None \<and> map_of (st_orders (en_State e')) k = None"
  using assms
  by (auto simp: replayDepth_def numeral_2_eq_2 Let_def isFinalized_def hasAccepted_def handleCancelled_def
      handleRejected_def handleFill_def finalizeOrder_def publishRisk_def delete_conv' split_beta ReleaseOrder_gone
      split: option.split)


definition demoLive :: Engine where
  "demoLive = markAccepted ''o'' demoEngine"


lemma ApplyFill_error_same: "ApplyFill clock k m t sd sz price s = (s', Some er) \<Longrightarrow> s' = s"
  by (cases rule: ApplyFill_cases [of clock k m t sd sz price s]) simp_all

text \<open>When the ledger refuses the fill of an accepted order (an unknown reservation, another
  market, token or side), a complete fill does not finalise it: the ledger is unchanged, the
  order stays accepted and keeps whatever it has reserved, and the engine only reports the
  error.\<close>

theorem refused_fill_not_final:
  assumes "ev_OrderID ev = k" and "k \<noteq> []" and "k \<in> en_accepted e" and "k \<notin> en_finalized e"
    and "ev_Status ev = Filled" and "0 < ev_FilledSize ev"
    and "snd (ApplyFill clock k (ev_MarketID ev) (ev_TokenID ev) (ev_Side ev) (ev_FilledSize ev) (ev_Price ev) (en_State e)) = Some er"
  shows "\<exists>e'. handleExecutionEvent replayDepth clock ev True e = Some e' \<and> en_State e' = en_State e \<and>
    k \<in> en_accepted e' \<and> \<not> isFinalized k e' \<and>
    en_risk e' = en_risk e @ [RiskText (''fill apply failed order='' @ k @ '' reason='' @ errorText er)]"
proof -
  have same: "fst (ApplyFill clock k (ev_MarketID ev) (ev_TokenID ev) (ev_Side ev) (ev_FilledSize ev) (ev_Price ev) (en_State e)) = en_State e"
    using assms(7) by (metis ApplyFill_error_same prod.collapse)
  show ?thesis
    using assms by (simp add: replayDepth_def numeral_2_eq_2 Let_def isFinalized_def hasAccepted_def handleFill_def
      publishRisk_def split_beta same)
qed

corollary refused_fill_not_final_witness:
  "\<exists>e'. handleExecutionEvent replayDepth 7 (demoEvent Filled) True demoLive = Some e' \<and> en_State e' = en_State demoLive \<and>
    ''o'' \<in> en_accepted e' \<and> \<not> isFinalized ''o'' e' \<and>
    en_risk e' = en_risk demoLive @
      [RiskText (''fill apply failed order='' @ ''o'' @ '' reason='' @ errorText ErrReservationNotFound)]"
proof (rule refused_fill_not_final)
  show "''o'' \<in> en_accepted demoLive" by (simp add: demoLive_def markAccepted_def)
  show "''o'' \<notin> en_finalized demoLive" by code_simp
  show "0 < ev_FilledSize (demoEvent Filled)" unfolding demoEvent_def by code_simp
  show "snd (ApplyFill 7 ''o'' (ev_MarketID (demoEvent Filled)) (ev_TokenID (demoEvent Filled)) (ev_Side (demoEvent Filled))
      (ev_FilledSize (demoEvent Filled)) (ev_Price (demoEvent Filled)) (en_State demoLive)) = Some ErrReservationNotFound"
    by code_simp
qed (simp_all add: demoEvent_def)

section \<open>Submission\<close>

definition reservedFor :: "State \<Rightarrow> OrderIntent \<Rightarrow> bool" where
  "reservedFor s i \<longleftrightarrow> (case map_of (st_provisional s) (oi_IntentID i) of
     None \<Rightarrow> False
   | Some p \<Rightarrow> pr_MarketID p = oi_MarketID i \<and> pr_TokenID p = oi_TokenID i \<and> pr_Side p = oi_Side i \<and>
       pr_Price p = oi_Price i \<and> pr_RemainingSize p = oi_Size i \<and>
       pr_Reserved p = RequiredCollateral (oi_Side i) (oi_Price i) (oi_Size i))"

definition placements :: "OrderIntent list \<Rightarrow> OrderIntent list" where
  "placements is = filter (\<lambda>i. oi_Action i = Place) is"

definition loopOK :: "State \<Rightarrow> OrderIntent list \<Rightarrow> bool" where
  "loopOK s is \<longleftrightarrow> (\<forall>i \<in> set (placements is). reservedFor s i) \<and> distinct (map oi_IntentID (placements is))"

lemma loopOK_step:
  assumes "loopOK (en_State e) acc" and "oi_Action i = Place"
    and "TryReserveProvisional clock (oi_IntentID i) (oi_MarketID i) (oi_TokenID i) (oi_Side i)
           (oi_Price i) (oi_Size i) now ttl (en_State e) = (s, None)"
  shows "loopOK s (acc @ [i])"
proof (cases rule: TryReserve_cases [of clock "oi_IntentID i" "oi_MarketID i" "oi_TokenID i" "oi_Side i"
      "oi_Price i" "oi_Size i" now ttl "en_State e"])
  case (reserved p)
  then have prov: "map_of (st_provisional s) = (map_of (st_provisional (en_State e)))(oi_IntentID i \<mapsto> p)"
    using assms(3) by (auto simp: update_conv')
  have new: "oi_IntentID j \<noteq> oi_IntentID i" if "j \<in> set (placements acc)" for j
    using that assms(1) reserved by (auto simp: loopOK_def reservedFor_def ghas_def split: option.splits)
  then have "reservedFor s j" if "j \<in> set (placements acc)" for j
    using that assms(1) by (auto simp: loopOK_def reservedFor_def prov)
  moreover have "reservedFor s i" using reserved by (simp add: reservedFor_def prov)
  moreover have "oi_IntentID i \<notin> oi_IntentID ` set (placements acc)" using new by force
  moreover have "placements (acc @ [i]) = placements acc @ [i]" using assms(2) by (simp add: placements_def)
  ultimately show ?thesis
    using assms(1) by (simp add: loopOK_def)
qed (use assms in simp)

lemma TryReserve_error_same:
  "TryReserveProvisional clock i m t sd price sz now ttl s = (s', Some er) \<Longrightarrow> s' = s"
  by (cases rule: TryReserve_cases [of clock i m t sd price sz now ttl s]) simp_all

lemma reserveLoop_ok:
  "loopOK (en_State e) acc \<Longrightarrow> reserveLoop clock is e acc = (e', out) \<Longrightarrow>
   loopOK (en_State e') out \<and> st_orders (en_State e') = st_orders (en_State e) \<and> en_ordersSent e' = en_ordersSent e"
proof (induction "is" arbitrary: e acc)
  case (Cons i rest)
  let ?i = "if oi_Action i = NoAction then i\<lparr>oi_Action := Place\<rparr> else i"
  show ?case
  proof (cases "oi_Action ?i = Place")
    case False
    then have "loopOK (en_State e) (acc @ [?i])" using Cons.prems(1) by (simp add: loopOK_def placements_def)
    with False Cons.prems(2) show ?thesis using Cons.IH [of e "acc @ [?i]"] by (simp add: Let_def)
  next
    case True
    obtain e1 j where ej: "(e1, j) = (if oi_IntentID ?i = []
        then (let (e, new) = nextIntentID clock e in (e, ?i\<lparr>oi_IntentID := new\<rparr>)) else (e, ?i))"
      by (metis surj_pair)
    then have j: "oi_Action j = Place" "en_State e1 = en_State e" "en_ordersSent e1 = en_ordersSent e"
      using True by (auto simp: nextIntentID_def Let_def split: if_splits)
    obtain s err where r: "TryReserveProvisional clock (oi_IntentID j) (oi_MarketID j) (oi_TokenID j) (oi_Side j)
        (oi_Price j) (oi_Size j) clock (en_ProvisionalOrderTTL e1) (en_State e1) = (s, err)" by fastforce
    have orders: "st_orders s = st_orders (en_State e)"
      using r j by (cases rule: TryReserve_cases [of clock "oi_IntentID j" "oi_MarketID j" "oi_TokenID j" "oi_Side j"
          "oi_Price j" "oi_Size j" clock "en_ProvisionalOrderTTL e1" "en_State e1"]) auto
    show ?thesis
    proof (cases err)
      case None
      have "loopOK s (acc @ [j])" using loopOK_step [of e1 acc j clock] r None j Cons.prems(1) by simp
      then show ?thesis
        using Cons.IH [of "e1\<lparr>en_State := s\<rparr>" "acc @ [j]"] Cons.prems(2) True ej [symmetric] r None orders j
        by (simp add: Let_def split_beta)
    next
      case (Some er)
      then have "s = en_State e" using r j TryReserve_error_same by metis
      with Some show ?thesis
        using Cons.IH [of "publishRisk (RiskText (''provisional reserve failed intent='' @ oi_IntentID j @ '' reason='' @ errorText er))
            (e1\<lparr>en_State := s, en_riskRejected := en_riskRejected e1 + 1\<rparr>)" acc] Cons.prems True ej [symmetric] r j
        by (simp add: Let_def split_beta publishRisk_def)
    qed
  qed
qed simp

text \<open>C14. Nothing is sent without a reservation: in the batch handed to the executor every
  PLACE has an intent id of its own and a provisional reservation in the ledger for exactly its
  market, token, side, price and size and the collateral they require.  A batch that the risk
  check rejects sends nothing and leaves the ledger as it was; open orders are never touched,
  and the counter of orders sent grows by the length of the batch.\<close>

theorem sent_is_reserved:
  assumes "submitIntents clock intents snap mids e = Some (e', goOn, sent)"
  shows "(\<forall>i \<in> set (placements sent). reservedFor (en_State e') i) \<and>
    distinct (map oi_IntentID (placements sent)) \<and>
    st_orders (en_State e') = st_orders (en_State e) \<and>
    en_ordersSent e' = en_ordersSent e + of_nat (length sent) \<and>
    (\<not> goOn \<longrightarrow> sent = [] \<and> en_State e' = en_State e \<and> en_riskRejected e' = en_riskRejected e + 1)"
proof -
  have nil: "loopOK s []" for s by (simp add: loopOK_def placements_def)
  have loop: "loopOK (en_State x) out \<and> st_orders (en_State x) = st_orders (en_State e) \<and> en_ordersSent x = en_ordersSent e"
    if "reserveLoop clock intents (e\<lparr>en_Risk := rk\<rparr>) [] = (x, out)" for rk x out
    using reserveLoop_ok [OF nil that] by simp
  show ?thesis
    using assms loop
    by (auto simp: submitIntents_def loopOK_def placements_def publishRisk_def split: if_splits option.splits prod.splits)
qed

corollary sent_is_reserved_witness:
  "\<exists>e' i. submitIntents 100 [demoIntent] demoSnap [] demoEngine = Some (e', True, [i]) \<and> reservedFor (en_State e') i"
proof -
  have "case submitIntents 100 [demoIntent] demoSnap [] demoEngine of
      Some (e', g, sent) \<Rightarrow> g \<and> list_all (\<lambda>i. oi_Action i = Place) sent \<and> length sent = 1 | None \<Rightarrow> False"
    by code_simp
  then obtain e' i where r: "submitIntents 100 [demoIntent] demoSnap [] demoEngine = Some (e', True, [i])"
    and "oi_Action i = Place" by (auto simp: length_Suc_conv split: option.splits prod.splits)
  with sent_is_reserved [OF r] show ?thesis by (auto simp: placements_def)
qed

end
