(* ===== verification/Settlement.thy ===== *)
theory Settlement
  imports Monitor Lifecycle
begin

text \<open>
  The executor and the engine together: the events that answer a batch of placements settle
  every provisional reservation of the batch, and what happens to a cancellation that meets a
  full queue.
\<close>

declare map_of_eq_Some_iff [simp del] Some_eq_map_of_iff [simp del]

section \<open>Provisional reservations shrink\<close>

definition provKeys :: "Engine \<Rightarrow> string set" where
  "provKeys e = fst ` set (st_provisional (en_State e))"

lemma provKeys_ghas: "ghas (st_provisional (en_State e)) i \<longleftrightarrow> i \<in> provKeys e"
  by (simp add: provKeys_def ghas_iff_mem)

lemma gdel_keys: "fst ` set (gdel k m) = fst ` set m - {k}"
  by (induction m) auto

lemma release_keys: "st_provisional (releaseReservedLocked sd t r s) = st_provisional s"
  by simp

lemma ReleaseProvisional_keys:
  "i \<noteq> [] \<Longrightarrow> fst ` set (st_provisional (fst (ReleaseProvisional i s))) = fst ` set (st_provisional s) - {i}"
proof (cases "map_of (st_provisional s) i")
  case None
  then have "i \<notin> fst ` set (st_provisional s)" by (simp add: map_of_eq_None_iff)
  with None show ?thesis by (simp add: ReleaseProvisional_none)
next
  case (Some p)
  then show "i \<noteq> [] \<Longrightarrow> ?thesis" by (simp add: ReleaseProvisional_eq gdel_keys)
qed

lemma ReleaseOrder_prov: "st_provisional (ReleaseOrder k s) = st_provisional s"
proof (cases "k = []")
  case False
  then show ?thesis by (cases "map_of (st_orders s) k") (simp_all add: ReleaseOrder_none ReleaseOrder_eq)
qed (simp add: ReleaseOrder_def)

lemma ApplyFill_prov: "st_provisional (fst (ApplyFill c k m t sd sz price s)) = st_provisional s"
  by (cases rule: ApplyFill_cases [of c k m t sd sz price s]) simp_all

lemma AttachOrder_prov:
  assumes "validateOrderArgs k m t sd price sz = None" and "i \<noteq> []"
  shows "fst ` set (st_provisional (fst (AttachOrder i k m t sd price sz s))) \<subseteq> fst ` set (st_provisional s) - {i}"
proof (cases "map_of (st_provisional s) i")
  case None
  then have "i \<notin> fst ` set (st_provisional s)" by (simp add: map_of_eq_None_iff)
  with None assms show ?thesis
    by (auto simp: AttachOrder_def Let_def split: side.split)
next
  case (Some p)
  with assms show ?thesis by (auto simp: AttachOrder_def Let_def gdel_keys)
qed

lemma AttachOrder_prov_sub: "fst ` set (st_provisional (fst (AttachOrder i k m t sd price sz s))) \<subseteq> fst ` set (st_provisional s)"
  by (auto simp: AttachOrder_def Let_def gdel_keys split: side.split option.split)

lemma provKeys_simple: "provKeys (simpleEvent c ev e) \<subseteq> provKeys e"
  by (cases "ev_Status ev")
    (auto simp: simpleEvent_def handleAnonymous_def handleFill_def handleCancelled_def handleRejected_def provKeys_def
      finalizeOrder_def bufferExecution_def publishRisk_def hasAccepted_def Let_def split_beta ReleaseProvisional_keys
      ReleaseOrder_prov ApplyFill_prov split: option.split)

lemma provKeys_simples: "provKeys (fold (simpleEvent c) evs e) \<subseteq> provKeys e"
  by (induction evs arbitrary: e) (use provKeys_simple in force)+

lemma takePending_State [simp]: "en_State (fst (takePending k e)) = en_State e"
  by (simp add: takePending_def split: option.split)

lemma provKeys_handle: "provKeys (handleEvent c ev cnt e) \<subseteq> provKeys e"
proof -
  let ?e = "if cnt then countEvent e else e"
  let ?p = "takePending (ev_OrderID ev) (acceptOrder ev ?e)"
  have e: "provKeys ?e = provKeys e" by (simp add: provKeys_def countEvent_def)
  have "provKeys (fst ?p) \<subseteq> provKeys ?e"
    unfolding provKeys_def takePending_State acceptOrder_frame by (rule AttachOrder_prov_sub)
  then have "provKeys (fold (simpleEvent c) (snd ?p) (fst ?p)) \<subseteq> provKeys e"
    using provKeys_simples e by fastforce
  moreover have "provKeys (simpleEvent c ev ?e) \<subseteq> provKeys e" using provKeys_simple e by blast
  ultimately show ?thesis
    unfolding handleEvent_def Let_def split_beta by presburger
qed

section \<open>Settling a batch\<close>

text \<open>The answer to an intent takes its provisional reservation away.\<close>

definition acceptsNew :: "Engine \<Rightarrow> ExecutionEvent \<Rightarrow> bool" where
  "acceptsNew e ev \<longleftrightarrow> ev_Status ev = Accepted \<and> ev_OrderID ev \<noteq> [] \<and> ev_OrderID ev \<notin> en_finalized e \<and>
     validateOrderArgs (ev_OrderID ev) (ev_MarketID ev) (ev_TokenID ev) (ev_Side ev) (ev_Price ev) (ev_RequestedSize ev) = None"

definition refuses :: "ExecutionEvent \<Rightarrow> bool" where
  "refuses ev \<longleftrightarrow> ev_Status ev = Rejected \<and> ev_OrderID ev = []"

lemma settles_one:
  assumes "ev_ParentOrderID ev \<noteq> []" and "acceptsNew e ev \<or> refuses ev"
  shows "ev_ParentOrderID ev \<notin> provKeys (handleEvent c ev True e)"
proof (cases "refuses ev")
  case True
  then show ?thesis
    using assms(1)
    by (auto simp: refuses_def handleEvent_def simpleEvent_def handleAnonymous_def countEvent_def provKeys_def publishRisk_def
        ReleaseProvisional_keys Let_def)
next
  case False
  with assms have acc: "acceptsNew e ev" by simp
  let ?e = "takePending (ev_OrderID ev) (acceptOrder ev (countEvent e))"
  have "ev_ParentOrderID ev \<notin> provKeys (fst ?e)"
    using acc assms(1) AttachOrder_prov [of "ev_OrderID ev" "ev_MarketID ev" "ev_TokenID ev" "ev_Side ev" "ev_Price ev"
        "ev_RequestedSize ev" "ev_ParentOrderID ev" "en_State e"]
    by (auto simp: acceptsNew_def provKeys_def countEvent_def)
  then have "ev_ParentOrderID ev \<notin> provKeys (fold (simpleEvent c) (snd ?e) (fst ?e))" using provKeys_simples by blast
  with acc show ?thesis
    by (simp add: acceptsNew_def handleEvent_def isFinalized_def countEvent_def Let_def split_beta)
qed

lemma simple_finalizes: "en_finalized (simpleEvent c ev e) \<subseteq> insert (ev_OrderID ev) (en_finalized e)"
  by (cases "ev_Status ev")
    (auto simp: simpleEvent_def handleAnonymous_def handleFill_def handleCancelled_def handleRejected_def
      finalizeOrder_def bufferExecution_def publishRisk_def Let_def split_beta split: option.splits)

lemma simples_finalize:
  "\<forall>ev \<in> set evs. ev_OrderID ev = k \<Longrightarrow> en_finalized (fold (simpleEvent c) evs e) \<subseteq> insert k (en_finalized e)"
proof (induction evs arbitrary: e)
  case (Cons ev evs)
  have "en_finalized (fold (simpleEvent c) evs (simpleEvent c ev e)) \<subseteq> insert k (en_finalized (simpleEvent c ev e))"
    using Cons by auto
  then show ?case using simple_finalizes [of c ev e] Cons.prems by fastforce
qed auto

lemma handle_finalizes:
  assumes "tracking_ok e"
  shows "en_finalized (handleEvent c ev True e) \<subseteq> insert (ev_OrderID ev) (en_finalized e)"
proof -
  let ?k = "ev_OrderID ev" and ?e = "countEvent e"
  let ?p = "takePending ?k (acceptOrder ev ?e)"
  have "\<forall>x \<in> set (snd ?p). ev_OrderID x = ?k"
  proof (cases "map_of (en_pending e) ?k")
    case (Some p)
    with assms have "\<forall>x \<in> set (px_events p). ev_OrderID x = ?k" unfolding tracking_ok_def by blast
    with Some show ?thesis by (simp add: takePending_def countEvent_def)
  qed (simp add: takePending_def countEvent_def)
  moreover have "en_finalized (fst ?p) = en_finalized e"
    by (simp add: takePending_def countEvent_def split: option.split)
  ultimately have "en_finalized (fold (simpleEvent c) (snd ?p) (fst ?p)) \<subseteq> insert ?k (en_finalized e)"
    using simples_finalize by metis
  moreover have "en_finalized (simpleEvent c ev ?e) \<subseteq> insert ?k (en_finalized e)"
    using simple_finalizes [of c ev ?e] by (simp add: countEvent_def)
  ultimately show ?thesis by (simp add: handleEvent_def Let_def split_beta)
qed

lemma settles_all:
  assumes "tracking_ok e" and "\<forall>ev \<in> set evs. ev_ParentOrderID ev \<noteq> [] \<and> (acceptsNew e ev \<or> refuses ev)"
    and "distinct (map ev_OrderID (filter (\<lambda>ev. ev_Status ev = Accepted) evs))" and "ev \<in> set evs"
  shows "ev_ParentOrderID ev \<notin> provKeys (fold (\<lambda>(c, ev). handleEvent c ev True) (map (Pair c) evs) e)"
  using assms
proof (induction evs arbitrary: e)
  case (Cons a evs)
  let ?e = "handleEvent c a True e"
  have ok: "tracking_ok ?e" using Cons.prems(1) by (rule tracking_handle)
  have shrink: "provKeys (fold (\<lambda>(c, ev). handleEvent c ev True) (map (Pair c) xs) e) \<subseteq> provKeys e" for xs e
    by (induction xs arbitrary: e) (use provKeys_handle in force)+
  have later: "acceptsNew ?e x \<or> refuses x" if "x \<in> set evs" for x
  proof (cases "refuses x")
    case False
    then have x: "acceptsNew e x" using Cons.prems(2) that by auto
    have "ev_OrderID x \<noteq> ev_OrderID a"
    proof (cases "ev_Status a = Accepted")
      case True
      then have "ev_OrderID a \<notin> ev_OrderID ` {x \<in> set evs. ev_Status x = Accepted}" using Cons.prems(3) by simp
      moreover have "ev_OrderID x \<in> ev_OrderID ` {x \<in> set evs. ev_Status x = Accepted}"
        using that x by (simp add: acceptsNew_def)
      ultimately show ?thesis by metis
    next
      case False
      then have "refuses a" using Cons.prems(2) by (auto simp: acceptsNew_def)
      then show ?thesis using x by (auto simp: acceptsNew_def refuses_def)
    qed
    then show ?thesis using x handle_finalizes [OF Cons.prems(1), of c a] by (auto simp: acceptsNew_def)
  qed simp
  show ?case
  proof (cases "ev \<in> set evs")
    case True
    then show ?thesis
      using Cons.IH [OF ok] later Cons.prems by (auto split: if_splits)
  next
    case False
    then have "ev_ParentOrderID ev \<notin> provKeys ?e" using settles_one [of a e c] Cons.prems by auto
    then show ?thesis using shrink by auto
  qed
qed simp

lemma validPlacement_args:
  "validatePlacement i = None \<Longrightarrow> k \<noteq> [] \<Longrightarrow>
   validateOrderArgs k (oi_MarketID i) (oi_TokenID i) (oi_Side i) (oi_Price i) (oi_Size i) = None"
  by (auto simp: validatePlacement_def validateOrderArgs_def split: if_splits)

text \<open>C6. No reservation is left behind by posting a batch: when the executor has posted a list of
  validated placements with whatever success, and the engine handles the events it published,
  none of the intents has a provisional reservation any more: the accepted ones became orders,
  the rejected ones were released.  The order ids the exchange returns are assumed to be
  distinct and not those of orders that are final.\<close>

theorem batch_settles:
  assumes "engine_reachable G en" and "ex_HasBus e"
    and "\<forall>i \<in> set intents. validatePlacement i = None \<and> oi_IntentID i \<noteq> []"
    and "ex_out (submitPlacements H X clock intents e) = ex_out e @ new"
    and "distinct (map ev_OrderID (filter (\<lambda>ev. ev_Status ev = Accepted) new))"
    and "\<forall>ev \<in> set new. ev_OrderID ev \<notin> en_finalized en"
  shows "\<exists>en'. deliver (map (Pair c) new) en = Some en' \<and>
    (\<forall>i \<in> set intents. \<not> ghas (st_provisional (en_State en')) (oi_IntentID i))"
proof -
  have ok: "tracking_ok en" using reachable_ok [OF assms(1)] by simp
  have ans: "mset (map eventKey new) = mset (map intentKey intents)"
    "\<forall>ev \<in> set new. isAnswer (submitPlacements H X clock intents e) ev"
    using placements_answer [OF assms(2), of intents H X clock] assms(4) by (auto simp: answers_def)
  have keys: "eventKey ` set new = intentKey ` set intents"
    using arg_cong [OF ans(1), of set_mset] by simp
  have "ev_ParentOrderID ev \<noteq> [] \<and> (acceptsNew en ev \<or> refuses ev)" if "ev \<in> set new" for ev
  proof -
    have "eventKey ev \<in> intentKey ` set intents" unfolding keys [symmetric] using that by (rule imageI)
    then obtain i where i: "i \<in> set intents" "eventKey ev = intentKey i" by blast
    then have fields: "ev_ParentOrderID ev = oi_IntentID i" "ev_MarketID ev = oi_MarketID i" "ev_TokenID ev = oi_TokenID i"
      "ev_Price ev = oi_Price i" "ev_Side ev = oi_Side i" "ev_RequestedSize ev = oi_Size i"
      by (simp_all add: eventKey_def intentKey_def)
    have valid: "validateOrderArgs (ev_OrderID ev) (ev_MarketID ev) (ev_TokenID ev) (ev_Side ev) (ev_Price ev) (ev_RequestedSize ev) = None"
      if "ev_OrderID ev \<noteq> []"
      using that i assms(3) validPlacement_args [of i "ev_OrderID ev"] by (simp add: fields)
    have "isAnswer (submitPlacements H X clock intents e) ev" "ev_OrderID ev \<notin> en_finalized en" "oi_IntentID i \<noteq> []"
      using that i ans(2) assms(3,6) by simp_all
    then show ?thesis using valid fields(1) unfolding isAnswer_def acceptsNew_def refuses_def by auto
  qed
  then have all: "ev_ParentOrderID ev \<notin> provKeys (fold (\<lambda>(c, ev). handleEvent c ev True) (map (Pair c) new) en)"
    if "ev \<in> set new" for ev
    using settles_all [OF ok _ assms(5) that] by blast
  have "oi_IntentID i \<notin> provKeys (fold (\<lambda>(c, ev). handleEvent c ev True) (map (Pair c) new) en)" if "i \<in> set intents" for i
  proof -
    have "intentKey i \<in> eventKey ` set new" unfolding keys using that by (rule imageI)
    then obtain ev where "ev \<in> set new" "intentKey i = eventKey ev" by blast
    then show ?thesis using all [of ev] by (simp add: eventKey_def intentKey_def)
  qed
  then show ?thesis by (simp add: deliver_fold [OF ok] provKeys_ghas)
qed

section \<open>Cancelling against a full queue\<close>

text \<open>C38. A cancellation that finds the execution queue full is answered as a rejection that
  carries the id of the order to be cancelled, and the engine takes that for a rejection of the
  order itself: it releases the order's reservation and marks the order final, although the
  order is still live at the exchange, and ignores the fills that follow.\<close>

theorem full_queue_cancel_drops_order:
  assumes "\<not> ex_DryRun e" and "ex_HasClient e" and "ex_HasBus e" and "ex_queue e = Some q"
    and "ex_ExecutionQueueSize e \<le> int (length q)"
    and "oi_Action i = Cancel" and "oi_OrderID i = k" and "TrimSpace k \<noteq> []"
    and "k \<in> en_accepted en" and "k \<notin> en_finalized en"
  shows "\<exists>ev en'. ex_out (Execute clock clocks [i] e) = ex_out e @ [ev] \<and>
    handleExecutionEvent replayDepth clock ev True en = Some en' \<and>
    map_of (st_orders (en_State en')) k = None \<and> isFinalized k en' \<and> k \<notin> en_accepted en'"
proof -
  let ?ev = "rejectedInBatch ''execution queue full'' clock i"
  have k: "k \<noteq> []" using assms(8) by auto
  have "ex_out (Execute clock clocks [i] e) = ex_out e @ [?ev]"
    using assms by (simp add: Execute_def rejectBatch_def Let_def)
  moreover have "ev_OrderID ?ev = k" "ev_Status ?ev = Rejected"
    using assms by (simp_all add: rejectedInBatch_def rejection_def eventOf_def Let_def)
  ultimately show ?thesis
    using terminal_event [of ?ev k en clock] k assms by blast
qed

definition demoCancel :: OrderIntent where
  "demoCancel = demoIntent\<lparr>oi_Action := Cancel, oi_OrderID := ''o''\<rparr>"

corollary full_queue_cancel_drops_order_witness:
  "\<exists>ev en'. ex_out (Execute 7 [] [demoCancel] (demoExecutor\<lparr>ex_queue := Some [[demoIntent]]\<rparr>)) =
      ex_out (demoExecutor\<lparr>ex_queue := Some [[demoIntent]]\<rparr>) @ [ev] \<and>
    handleExecutionEvent replayDepth 7 ev True demoLive = Some en' \<and>
    map_of (st_orders (en_State en')) ''o'' = None \<and> isFinalized ''o'' en' \<and> ''o'' \<notin> en_accepted en'"
proof (rule full_queue_cancel_drops_order)
  show "''o'' \<in> en_accepted demoLive" by (simp add: demoLive_def markAccepted_def)
  show "''o'' \<notin> en_finalized demoLive" by code_simp
  show "TrimSpace ''o'' \<noteq> []" by code_simp
  show "ex_ExecutionQueueSize (demoExecutor\<lparr>ex_queue := Some [[demoIntent]]\<rparr>) \<le> int (length [[demoIntent]])"
    by (simp add: demoExecutor_def Init_def del: One_nat_def)
qed (simp_all add: demoExecutor_def Init_def demoCancel_def)

corollary batch_settles_witness:
  "\<exists>en'. deliver (map (Pair 7) (ex_out (submitPlacements demoJSON demoClient 7 [demoIntent] demoExecutor))) demoEngine = Some en' \<and>
    \<not> ghas (st_provisional (en_State en')) ''i''"
proof -
  let ?new = "ex_out (submitPlacements demoJSON demoClient 7 [demoIntent] demoExecutor)"
  have n: "?new = [rejection demoIntent ''post order failed: down'' 7]"
    by (simp add: submitPlacements_def demoClient_def demoExecutor_def Init_def demoIntent_def)
  have "validatePlacement demoIntent = None \<and> oi_IntentID demoIntent \<noteq> []" by code_simp
  moreover have "[] \<notin> en_finalized demoEngine" by code_simp
  moreover have "ev_OrderID (rejection demoIntent ''post order failed: down'' 7) = []" "ex_out demoExecutor = []" "ex_HasBus demoExecutor"
    "ev_Status (rejection demoIntent ''post order failed: down'' 7) = Rejected" "oi_IntentID demoIntent = ''i''"
    by (simp_all add: rejection_def eventOf_def demoExecutor_def Init_def demoIntent_def)
  ultimately show ?thesis
    using batch_settles [OF demo_engine_reachable, of demoExecutor "[demoIntent]" demoJSON demoClient 7 ?new 7]
    by (simp add: n)
qed

end
