(* ===== verification/Feed.thy ===== *)
theory Feed
  imports Runtime Indicators
begin

text \<open>
  Package \<^verbatim>\<open>market\<close>: the feed that follows the market of the current time window
  (\<^verbatim>\<open>polymarket_slug_feed.go\<close>).  The helpers of the SDK that read a market's JSON are a
  parameter (\<open>marketLib\<close>), the replies of the exchange are arguments.  The feed's goroutine is
  a machine that alternates between fetching and watching a market; what it publishes, and what
  it asks of the market monitor, is appended to \<open>fd_out\<close>.
\<close>

section \<open>Decimal numbers\<close>

lemma decimalNat_small: "n < 10 \<Longrightarrow> decimalNat n = [char_of (48 + n)]"
  by (simp add: decimalNat.simps [of n])

lemma decimalNat_big: "10 \<le> n \<Longrightarrow> decimalNat n = decimalNat (n div 10) @ [char_of (48 + n mod 10)]"
  by (simp add: decimalNat.simps [of n])

lemma digit_inj: "a < 10 \<Longrightarrow> b < 10 \<Longrightarrow> char_of (48 + a) = (char_of (48 + b) :: char) \<longleftrightarrow> a = (b :: nat)"
proof
  assume "a < 10" "b < 10" and eq: "char_of (48 + a) = (char_of (48 + b) :: char)"
  from arg_cong [OF eq, of "of_char :: char \<Rightarrow> nat"] show "a = b"
    using \<open>a < 10\<close> \<open>b < 10\<close> by (simp add: of_char_of)
qed simp

lemma decimalNat_ne: "decimalNat n \<noteq> []"
  by (cases "n < 10") (simp_all add: decimalNat_small decimalNat_big)

lemma decimalNat_inj: "decimalNat m = decimalNat n \<longleftrightarrow> m = n"
proof
  show "decimalNat m = decimalNat n \<Longrightarrow> m = n"
  proof (induction m arbitrary: n rule: less_induct)
    case (less m)
    show ?case
    proof (cases "m < 10")
      case True
      with less.prems decimalNat_ne [of "n div 10"] show ?thesis
        by (cases "n < 10") (auto simp: decimalNat_small decimalNat_big digit_inj append_eq_Cons_conv)
    next
      case False
      then have "\<not> n < 10"
        using less.prems decimalNat_ne by (auto simp: decimalNat_small decimalNat_big append_eq_Cons_conv)
      with False less.prems have "decimalNat (m div 10) = decimalNat (n div 10)" "m mod 10 = n mod 10"
        by (simp_all add: decimalNat_big digit_inj)
      with less.IH [of "m div 10" "n div 10"] False have "m div 10 = n div 10" by simp
      with \<open>m mod 10 = n mod 10\<close> show ?thesis by (metis div_mult_mod_eq)
    qed
  qed
qed simp

lemma decimalNat_digits: "c \<in> set (decimalNat n) \<Longrightarrow> (of_char c :: nat) \<in> {48..57}"
proof (induction n rule: less_induct)
  case (less n)
  show ?case
  proof (cases "n < 10")
    case True
    with less.prems show ?thesis by (auto simp: decimalNat_small of_char_of)
  next
    case False
    have "n mod 10 < 10" by simp
    moreover from False less.prems have "c \<in> set (decimalNat (n div 10)) \<or> c = char_of (48 + n mod 10)"
      by (auto simp: decimalNat_big)
    ultimately show ?thesis using less.IH [of "n div 10"] False by (auto simp: of_char_of)
  qed
qed

lemma decimal_inj: "decimal a = decimal b \<longleftrightarrow> a = b"
proof -
  have minus: "CHR ''-'' \<notin> set (decimalNat n)" for n using decimalNat_digits [of "CHR ''-''" n] by auto
  have "decimalNat n \<noteq> CHR ''-'' # xs" for n xs using minus [of n] by (metis list.set_intros(1))
  then show ?thesis
    by (auto simp: decimal_def decimalNat_inj) (metis)+
qed

section \<open>Slugs\<close>

text \<open>Go's integer division truncates toward 0.\<close>

definition quotInt :: "int \<Rightarrow> int \<Rightarrow> int" where
  "quotInt a b = sgn a * sgn b * (\<bar>a\<bar> div \<bar>b\<bar>)"

definition defaultSlugPrefix :: string where
  "defaultSlugPrefix = ''btc-updown-5m''"

definition defaultWindowMinutes :: int where
  "defaultWindowMinutes = 5"

datatype 'j feedEvent =
    FeedRisk string
  | FeedMarket 'j
  | FeedBook 'j
  | FeedResolved 'j
  | MonitorSubscribe "string list"
  | MonitorReset

record SlugMarket =
  sm_Slug :: string
  sm_MarketID :: string
  sm_TokenIDs :: "string list"
  sm_Prices :: "float64 list"
  sm_EndDate :: int
  sm_ResolutionSource :: string
  sm_TickSize :: float64
  sm_NegRisk :: bool
  sm_StartDate :: int
  sm_Closed :: bool
  sm_Outcomes :: "string list"

record 'j PolymarketSlugFeed =
  fd_SlugPrefix :: string
  fd_WindowMinutes :: int
  fd_failures :: int
  fd_deadline :: "time option"
  fd_out :: "'j feedEvent list"

definition ensureDefaults :: "'j PolymarketSlugFeed \<Rightarrow> 'j PolymarketSlugFeed" where
  "ensureDefaults f =
    (let f = (if fd_SlugPrefix f = [] then f\<lparr>fd_SlugPrefix := defaultSlugPrefix\<rparr> else f)
     in if fd_WindowMinutes f \<le> 0 then f\<lparr>fd_WindowMinutes := defaultWindowMinutes\<rparr> else f)"

definition slugFor :: "time \<Rightarrow> 'j PolymarketSlugFeed \<Rightarrow> string" where
  "slugFor now f =
    (let window = fd_WindowMinutes f * 60;
         window = (if window \<le> 0 then defaultWindowMinutes * 60 else window);
         ts = quotInt (timeUnix now) window * window
     in fd_SlugPrefix f @ ''-'' @ decimal ts)"

section \<open>Markets\<close>

text \<open>The SDK's readers of a market's JSON; \<^verbatim>\<open>ToTimestamp\<close> returns a value and an error.\<close>

record 'j marketLib =
  mk_json :: "'j gjson"
  mk_Bool :: "'j \<Rightarrow> bool"
  mk_GetStringArray :: "'j \<Rightarrow> string \<Rightarrow> string list"
  mk_GetFloatArray :: "'j \<Rightarrow> string \<Rightarrow> float64 list"
  mk_ToTimestamp :: "string \<Rightarrow> int \<times> goerror option"

abbreviation jsonString :: "'j marketLib \<Rightarrow> 'j \<Rightarrow> string \<Rightarrow> string" where
  "jsonString L result key \<equiv> gj_String (mk_json L) (gj_Get (mk_json L) result key)"

definition ParseSlugMarket :: "'j marketLib \<Rightarrow> 'j \<Rightarrow> goerror + SlugMarket" where
  "ParseSlugMarket L result =
    (let tokenIDs = mk_GetStringArray L result ''clobTokenIds'' in
     if tokenIDs = [] then Inl (ErrText ''no clobTokenIds'')
     else Inr \<lparr>sm_Slug = [], sm_MarketID = jsonString L result ''conditionId'', sm_TokenIDs = tokenIDs,
       sm_Prices = mk_GetFloatArray L result ''outcomePrices'',
       sm_EndDate = fst (mk_ToTimestamp L (jsonString L result ''endDate'')),
       sm_ResolutionSource = jsonString L result ''resolutionSource'',
       sm_TickSize = gj_Float (mk_json L) (gj_Get (mk_json L) result ''orderPriceMinTickSize''),
       sm_NegRisk = mk_Bool L (gj_Get (mk_json L) result ''negRisk''),
       sm_StartDate = fst (mk_ToTimestamp L (jsonString L result ''startDate'')),
       sm_Closed = mk_Bool L (gj_Get (mk_json L) result ''closed''),
       sm_Outcomes = mk_GetStringArray L result ''outcomes''\<rparr>)"

text \<open>What \<^verbatim>\<open>FetchMarketBySlug\<close> tells the client about a token: tick size, negative risk, and
  the fee rate, which is set to 0 or, with fees, looked up.\<close>

record tokenSetting =
  ts_TokenID :: string
  ts_TickSize :: float64
  ts_NegRisk :: bool
  ts_FeeSetToZero :: bool

definition FetchMarketBySlug ::
  "'j marketLib \<Rightarrow> string \<Rightarrow> goerror + 'j \<Rightarrow> goerror + (SlugMarket \<times> 'j \<times> tokenSetting list)" where
  "FetchMarketBySlug L slug reply =
    (if TrimSpace slug = [] then Inl (ErrText ''slug cannot be empty'')
     else case reply of
       Inl err \<Rightarrow> Inl err
     | Inr result \<Rightarrow>
       (let tokenIDs = mk_GetStringArray L result ''clobTokenIds'' in
        if tokenIDs = [] then Inl (ErrText (''no clob token ids in market slug='' @ slug))
        else case mk_ToTimestamp L (jsonString L result ''endDate'') of
          (_, Some err) \<Rightarrow> Inl (ErrText (''invalid market endDate slug='' @ slug @ '': '' @ errorText err))
        | (endDate, None) \<Rightarrow>
          (case mk_ToTimestamp L (jsonString L result ''startDate'') of
             (_, Some err) \<Rightarrow> Inl (ErrText (''invalid market startDate slug='' @ slug @ '': '' @ errorText err))
           | (startDate, None) \<Rightarrow>
             (let tickSize = gj_Float (mk_json L) (gj_Get (mk_json L) result ''orderPriceMinTickSize'');
                  negRisk = mk_Bool L (gj_Get (mk_json L) result ''negRisk'');
                  feesEnabled = mk_Bool L (gj_Get (mk_json L) result ''feesEnabled'')
              in Inr (\<lparr>sm_Slug = slug, sm_MarketID = jsonString L result ''conditionId'', sm_TokenIDs = tokenIDs,
                   sm_Prices = mk_GetFloatArray L result ''outcomePrices'', sm_EndDate = endDate,
                   sm_ResolutionSource = jsonString L result ''resolutionSource'', sm_TickSize = tickSize,
                   sm_NegRisk = negRisk, sm_StartDate = startDate,
                   sm_Closed = mk_Bool L (gj_Get (mk_json L) result ''closed''),
                   sm_Outcomes = mk_GetStringArray L result ''outcomes''\<rparr>,
                 result,
                 map (\<lambda>t. \<lparr>ts_TokenID = t, ts_TickSize = tickSize, ts_NegRisk = negRisk,
                          ts_FeeSetToZero = (\<not> feesEnabled)\<rparr>) tokenIDs)))))"

section \<open>The feed's loop\<close>

definition maxConsecutiveFailures :: int where
  "maxConsecutiveFailures = 6"

definition feedEmit :: "'j feedEvent list \<Rightarrow> 'j PolymarketSlugFeed \<Rightarrow> 'j PolymarketSlugFeed" where
  "feedEmit evs f = f\<lparr>fd_out := fd_out f @ evs\<rparr>"

text \<open>One round of the outer loop up to the watch on the market: \<open>fd_deadline\<close> is set while the
  market is watched.\<close>

definition feedFetch :: "'j marketLib \<Rightarrow> time \<Rightarrow> goerror + 'j \<Rightarrow> 'j PolymarketSlugFeed \<Rightarrow> 'j PolymarketSlugFeed" where
  "feedFetch L now reply f =
    (let slug = slugFor now f in
     case FetchMarketBySlug L slug reply of
       Inl err \<Rightarrow>
         (let f = f\<lparr>fd_failures := fd_failures f + 1\<rparr> in
          if maxConsecutiveFailures \<le> fd_failures f
          then (feedEmit [FeedRisk (''polymarket feed fetch failed '' @ decimal (fd_failures f) @ '' times slug='' @ slug @
                             '' err='' @ errorText err)] f)\<lparr>fd_failures := 0\<rparr>
          else f)
     | Inr (market, raw, _) \<Rightarrow>
         feedEmit [FeedMarket raw, MonitorSubscribe (sm_TokenIDs market)]
           (f\<lparr>fd_failures := 0, fd_deadline := Some (unixEpoch * second + (sm_EndDate market + 200) * 1000000)\<rparr>))"

datatype 'j feedInput = FetchReply time "goerror + 'j" | BookMessage 'j | ResolvedMessage 'j | TimerFired

fun feedStep :: "'j marketLib \<Rightarrow> 'j feedInput \<Rightarrow> 'j PolymarketSlugFeed \<Rightarrow> 'j PolymarketSlugFeed" where
  "feedStep L (FetchReply now reply) f = (if fd_deadline f = None then feedFetch L now reply f else f)"
| "feedStep L (BookMessage b) f = (if fd_deadline f = None then f else feedEmit [FeedBook b] f)"
| "feedStep L (ResolvedMessage r) f = (if fd_deadline f = None then f else feedEmit [FeedResolved r] f)"
| "feedStep L TimerFired f =
     (if fd_deadline f = None then f else (feedEmit [MonitorReset] f)\<lparr>fd_deadline := None\<rparr>)"

section \<open>One slug per window\<close>

definition windowOf :: "'j PolymarketSlugFeed \<Rightarrow> int" where
  "windowOf f = (if fd_WindowMinutes f \<le> 0 then defaultWindowMinutes * 60 else fd_WindowMinutes f * 60)"

lemma windowOf_pos: "0 < windowOf f"
  by (simp add: windowOf_def defaultWindowMinutes_def)

lemma slugFor_window:
  assumes "0 \<le> timeUnix now"
  shows "slugFor now f = fd_SlugPrefix f @ ''-'' @ decimal (timeUnix now div windowOf f * windowOf f)"
proof -
  have w: "(if fd_WindowMinutes f * 60 \<le> 0 then defaultWindowMinutes * 60 else fd_WindowMinutes f * 60) = windowOf f"
    by (simp add: windowOf_def)
  have "quotInt (timeUnix now) (windowOf f) = timeUnix now div windowOf f"
    using assms windowOf_pos [of f] by (auto simp: quotInt_def sgn_if)
  then show ?thesis unfolding slugFor_def Let_def w by simp
qed

text \<open>The slug names the time window: from 1970 on, two moments have the same slug exactly when
  they lie in the same window, and the number in the slug is the start of the window, a multiple
  of its length, not after the moment and less than one window before it.\<close>

theorem slug_names_window:
  assumes "0 \<le> timeUnix t1" and "0 \<le> timeUnix t2"
  shows "(slugFor t1 f = slugFor t2 f \<longleftrightarrow> timeUnix t1 div windowOf f = timeUnix t2 div windowOf f) \<and>
    (\<exists>start. slugFor t1 f = fd_SlugPrefix f @ ''-'' @ decimal start \<and> windowOf f dvd start \<and>
       start \<le> timeUnix t1 \<and> timeUnix t1 < start + windowOf f)"
proof
  have w: "windowOf f \<noteq> 0" using windowOf_pos [of f] by simp
  show "slugFor t1 f = slugFor t2 f \<longleftrightarrow> timeUnix t1 div windowOf f = timeUnix t2 div windowOf f"
    using assms w by (simp add: slugFor_window decimal_inj)
  let ?s = "timeUnix t1 div windowOf f * windowOf f"
  have "?s + timeUnix t1 mod windowOf f = timeUnix t1" by (rule div_mult_mod_eq)
  moreover have "0 \<le> timeUnix t1 mod windowOf f" "timeUnix t1 mod windowOf f < windowOf f" using windowOf_pos [of f] by simp_all
  ultimately have "?s \<le> timeUnix t1" "timeUnix t1 < ?s + windowOf f" by linarith+
  then show "\<exists>start. slugFor t1 f = fd_SlugPrefix f @ ''-'' @ decimal start \<and> windowOf f dvd start \<and>
       start \<le> timeUnix t1 \<and> timeUnix t1 < start + windowOf f"
    using slugFor_window [OF assms(1), of f] by (intro exI [of _ ?s]) simp
qed

definition demoFeed :: "unit PolymarketSlugFeed" where
  "demoFeed = ensureDefaults \<lparr>fd_SlugPrefix = [], fd_WindowMinutes = 0, fd_failures = 0, fd_deadline = None, fd_out = []\<rparr>"

corollary slug_names_window_witness:
  "slugFor (unixEpoch * 1000000000) demoFeed \<noteq> slugFor (unixEpoch * 1000000000 + 301000000000) demoFeed"
  using slug_names_window [of "unixEpoch * 1000000000" "unixEpoch * 1000000000 + 301000000000" demoFeed]
  by (simp add: timeUnix_def unixEpoch_def windowOf_def demoFeed_def ensureDefaults_def defaultWindowMinutes_def Let_def)

section \<open>The order of what the feed publishes\<close>

text \<open>The contract with the consumers, as an automaton over the published events (\<open>None\<close> is a
  violation): while no market is watched, a risk event or a market; a market is followed by the
  subscription of its tokens; while it is watched, books and resolutions until the monitor is
  reset.\<close>

datatype feedPhase = Idle | Announced | Watching

fun feedPhaseStep :: "feedPhase \<Rightarrow> 'j feedEvent \<Rightarrow> feedPhase option" where
  "feedPhaseStep Idle (FeedRisk _) = Some Idle"
| "feedPhaseStep Idle (FeedMarket _) = Some Announced"
| "feedPhaseStep Announced (MonitorSubscribe ts) = (if ts = [] then None else Some Watching)"
| "feedPhaseStep Watching (FeedBook _) = Some Watching"
| "feedPhaseStep Watching (FeedResolved _) = Some Watching"
| "feedPhaseStep Watching MonitorReset = Some Idle"
| "feedPhaseStep _ _ = None"

fun feedPhaseRun :: "feedPhase \<Rightarrow> 'j feedEvent list \<Rightarrow> feedPhase option" where
  "feedPhaseRun ph [] = Some ph"
| "feedPhaseRun ph (ev # evs) = (case feedPhaseStep ph ev of None \<Rightarrow> None | Some ph \<Rightarrow> feedPhaseRun ph evs)"

definition feedRun :: "'j marketLib \<Rightarrow> 'j feedInput list \<Rightarrow> 'j PolymarketSlugFeed \<Rightarrow> 'j PolymarketSlugFeed" where
  "feedRun L inputs f = fold (feedStep L) inputs f"

definition phaseOf :: "'j PolymarketSlugFeed \<Rightarrow> feedPhase" where
  "phaseOf f = (if fd_deadline f = None then Idle else Watching)"

definition failureBound :: "'j PolymarketSlugFeed \<Rightarrow> bool" where
  "failureBound f \<longleftrightarrow> 0 \<le> fd_failures f \<and> fd_failures f < maxConsecutiveFailures"

lemma feedPhaseRun_append:
  "feedPhaseRun ph (xs @ ys) = (case feedPhaseRun ph xs of None \<Rightarrow> None | Some ph \<Rightarrow> feedPhaseRun ph ys)"
  by (induction xs arbitrary: ph) (auto split: option.splits)

lemma FetchMarketBySlug_tokens:
  "FetchMarketBySlug L slug reply = Inr (m, raw, ts) \<Longrightarrow> sm_TokenIDs m \<noteq> [] \<and> map ts_TokenID ts = sm_TokenIDs m"
  by (auto simp: FetchMarketBySlug_def Let_def comp_def split: if_splits sum.splits prod.splits option.splits)

lemmas feed_step_simps = feedFetch_def feedEmit_def phaseOf_def failureBound_def maxConsecutiveFailures_def Let_def

lemma feedStep_ok:
  assumes "feedPhaseRun Idle (fd_out f) = Some (phaseOf f)" and "failureBound f"
  shows "feedPhaseRun Idle (fd_out (feedStep L i f)) = Some (phaseOf (feedStep L i f)) \<and> failureBound (feedStep L i f)"
proof (cases i)
  case (FetchReply now reply)
  show ?thesis
  proof (cases "fd_deadline f = None")
    case idle: True
    show ?thesis
    proof (cases "FetchMarketBySlug L (slugFor now f) reply")
      case (Inl err)
      with FetchReply idle assms show ?thesis by (auto simp: feed_step_simps feedPhaseRun_append)
    next
      case (Inr r)
      obtain m raw ts where r: "r = (m, raw, ts)" by (cases r)
      with Inr FetchReply idle assms FetchMarketBySlug_tokens [of L "slugFor now f" reply m raw ts] show ?thesis
        by (auto simp: feed_step_simps feedPhaseRun_append)
    qed
  qed (use FetchReply assms in auto)
qed (use assms in \<open>auto simp: feed_step_simps feedPhaseRun_append\<close>)

lemma feedRun_ok:
  "feedPhaseRun Idle (fd_out f) = Some (phaseOf f) \<Longrightarrow> failureBound f \<Longrightarrow>
   feedPhaseRun Idle (fd_out (feedRun L inputs f)) = Some (phaseOf (feedRun L inputs f)) \<and> failureBound (feedRun L inputs f)"
proof (induction inputs arbitrary: f)
  case (Cons i inputs)
  with feedStep_ok [of f L i] show ?case by (simp add: feedRun_def)
qed (simp add: feedRun_def)

text \<open>C19. Whatever the exchange answers and whatever arrives on the channels, the feed publishes
  in the order its consumers rely on: books and resolutions only while a market is watched, that
  is after its announcement and the subscription of its tokens (at least one) and before the
  monitor's reset; and the counter of consecutive failures stays below the bound.\<close>

theorem feed_follows_protocol:
  assumes "fd_out f = []" and "fd_deadline f = None" and "fd_failures f = 0"
  shows "feedPhaseRun Idle (fd_out (feedRun L inputs f)) = Some (phaseOf (feedRun L inputs f)) \<and>
    failureBound (feedRun L inputs f)"
  using feedRun_ok [of f L inputs] assms by (simp add: phaseOf_def failureBound_def maxConsecutiveFailures_def)

definition demoLib :: "unit marketLib" where
  "demoLib = \<lparr>mk_json = \<lparr>gj_Get = \<lambda>_ _. (), gj_String = \<lambda>_. ''x'', gj_Float = \<lambda>_. 1, gj_Array = \<lambda>_. []\<rparr>, mk_Bool = \<lambda>_. False,
     mk_GetStringArray = \<lambda>_ _. [''up'', ''down''], mk_GetFloatArray = \<lambda>_ _. [], mk_ToTimestamp = \<lambda>_. (300000, None)\<rparr>"

corollary feed_follows_protocol_witness:
  "feedPhaseRun Idle (fd_out (feedRun demoLib
     [FetchReply 0 (Inl (ErrText ''down'')), FetchReply 0 (Inr ()), BookMessage (), TimerFired, BookMessage ()] demoFeed)) =
   Some (phaseOf (feedRun demoLib
     [FetchReply 0 (Inl (ErrText ''down'')), FetchReply 0 (Inr ()), BookMessage (), TimerFired, BookMessage ()] demoFeed))"
  using feed_follows_protocol [of demoFeed demoLib
     "[FetchReply 0 (Inl (ErrText ''down'')), FetchReply 0 (Inr ()), BookMessage (), TimerFired, BookMessage ()]"]
  by (simp add: demoFeed_def ensureDefaults_def Let_def)

section \<open>Failures are reported\<close>

definition risksOf :: "'j feedEvent list \<Rightarrow> nat" where
  "risksOf evs = length (filter (\<lambda>ev. case ev of FeedRisk _ \<Rightarrow> True | _ \<Rightarrow> False) evs)"

lemma failing_round:
  assumes "fd_deadline f = None" and "fd_failures f = int k" and "k < 6"
  shows "let f' = feedStep L (FetchReply now (Inl err)) f in
    fd_deadline f' = None \<and> fd_SlugPrefix f' = fd_SlugPrefix f \<and> fd_WindowMinutes f' = fd_WindowMinutes f \<and>
    fd_failures f' = int (Suc k mod 6) \<and> risksOf (fd_out f') = risksOf (fd_out f) + Suc k div 6"
proof -
  have fail: "\<exists>er. FetchMarketBySlug L slug (Inl err) = Inl er" for slug by (simp add: FetchMarketBySlug_def)
  then obtain er where er: "FetchMarketBySlug L (slugFor now f) (Inl err) = Inl er" by blast
  show ?thesis
  proof (cases "k = 5")
    case True
    with assms er show ?thesis by (simp add: feed_step_simps risksOf_def)
  next
    case False
    with assms(3) have "Suc k < 6" by simp
    with assms er show ?thesis by (simp add: feed_step_simps)
  qed
qed

text \<open>C0. An outage of the exchange is reported: after \<open>n\<close> fetches in a row that failed, the
  feed has published exactly \<open>n div 6\<close> risk events and still watches nothing.\<close>

theorem outage_reported:
  assumes "fd_deadline f = None" and "fd_failures f = 0" and "fd_out f = []"
  shows "let f' = feedRun L (map (\<lambda>(now, err). FetchReply now (Inl err)) errs) f in
    risksOf (fd_out f') = length errs div 6 \<and> fd_failures f' = int (length errs mod 6) \<and> fd_deadline f' = None"
proof (induction errs rule: rev_induct)
  case Nil
  with assms show ?case by (simp add: feedRun_def risksOf_def)
next
  case (snoc e errs)
  obtain now err where e: "e = (now, err)" by (cases e)
  let ?f = "feedRun L (map (\<lambda>(now, err). FetchReply now (Inl err)) errs) f"
  have div: "Suc n div 6 = n div 6 + Suc (n mod 6) div 6" "Suc n mod 6 = Suc (n mod 6) mod 6" for n :: nat by presburger+
  have "fd_deadline ?f = None" "fd_failures ?f = int (length errs mod 6)" using snoc by (simp_all add: Let_def)
  from failing_round [OF this, of L now err] snoc e div [of "length errs"] show ?case
    by (simp add: feedRun_def Let_def)
qed

corollary outage_reported_witness:
  "risksOf (fd_out (feedRun demoLib (map (\<lambda>(now, err). FetchReply now (Inl err)) (replicate 13 (0, ErrText ''timeout''))) demoFeed)) = 2"
  using outage_reported [of demoFeed demoLib "replicate 13 (0, ErrText ''timeout'')"]
  by (simp add: demoFeed_def ensureDefaults_def Let_def)

end
