(* ===== verification/Probability.thy ===== *)
theory Probability
  imports Feed
begin

text \<open>
  Package \<^verbatim>\<open>probability\<close>: the model of the current market, its tokens, their order books
  and the signal (\<^verbatim>\<open>engine.go\<close>, \<^verbatim>\<open>market_state.go\<close>, \<^verbatim>\<open>tokens_store.go\<close>,
  \<^verbatim>\<open>book_store.go\<close>, \<^verbatim>\<open>features.go\<close>).  The two \<^verbatim>\<open>sync.Map\<close>s are maps, the
  \<^verbatim>\<open>SafeState\<close> and the atomic floats are their values.  A failed type assertion panics:
  \<open>None\<close>.  The order book type and the reading of JSON are the SDK's; the fields are those
  the program reads.
\<close>

declare map_of_eq_Some_iff [simp del] Some_eq_map_of_iff [simp del]

section \<open>Data\<close>

record sdkBook = OrderBook +
  ob_AssetId :: string
  ob_Timestamp :: int
  ob_Latency :: int

record marketState =
  ms_marketId :: string
  ms_slug :: string
  ms_openPrice :: float64
  ms_endTime :: int
  ms_tokenIDs :: "string list"

record probEngine =
  pe_market :: marketState
  pe_latestPrice :: float64
  pe_latestZ :: float64
  pe_latestProb :: float64
  pe_tokens :: "(string, Token) gomap"
  pe_books :: "(string, sdkBook option) gomap"
  pe_zscore :: ZScore
  pe_zWindows :: RingBuffer

definition NewProbEngine :: "probEngine option" where
  "NewProbEngine =
    (case (NewZScore 60, NewRingBuffer 60) of
       (Some z, Some r) \<Rightarrow> Some
         \<lparr>pe_market = \<lparr>ms_marketId = [], ms_slug = [], ms_openPrice = 0, ms_endTime = 0, ms_tokenIDs = []\<rparr>,
          pe_latestPrice = 0, pe_latestZ = 0, pe_latestProb = 0, pe_tokens = [], pe_books = [],
          pe_zscore = z, pe_zWindows = r\<rparr>
     | _ \<Rightarrow> None)"

text \<open>What the ticker started by \<^verbatim>\<open>Init\<close> does every second.\<close>

definition zTick :: "probEngine \<Rightarrow> probEngine" where
  "zTick e = e\<lparr>pe_zWindows := rbAdd (pe_latestZ e) (pe_zWindows e)\<rparr>"

section \<open>Order books\<close>

definition GetOrderBook :: "string \<Rightarrow> probEngine \<Rightarrow> sdkBook option" where
  "GetOrderBook tokenId e =
    (case map_of (pe_books e) tokenId of
       None \<Rightarrow> None
     | Some store \<Rightarrow>
         (case store of
            None \<Rightarrow> None
          | Some ob \<Rightarrow> if 100 < ob_Latency ob then None else Some ob))"

definition updateOrderBook :: "string \<Rightarrow> (sdkBook option \<Rightarrow> sdkBook) \<Rightarrow> probEngine \<Rightarrow> probEngine" where
  "updateOrderBook tokenId fn e =
    (let (e, old) = (case map_of (pe_books e) tokenId of
                       Some store \<Rightarrow> (e, store)
                     | None \<Rightarrow> (e\<lparr>pe_books := gput tokenId None (pe_books e)\<rparr>, None));
         newOB = fn old
     in case old of
          Some ob \<Rightarrow> if ob_Timestamp newOB < ob_Timestamp ob then e
                      else e\<lparr>pe_books := gput tokenId (Some newOB) (pe_books e)\<rparr>
        | None \<Rightarrow> e\<lparr>pe_books := gput tokenId (Some newOB) (pe_books e)\<rparr>)"

section \<open>Tokens\<close>

definition newToken :: "string \<Rightarrow> Token" where
  "newToken t = \<lparr>tok_Id = t, tok_AskPrice = 0, tok_AskSize = 0, tok_BidPrice = 0, tok_BidSize = 0, tok_Latency = 0\<rparr>"

definition tokenFromBook :: "sdkBook \<Rightarrow> Token \<Rightarrow> Token" where
  "tokenFromBook orderBook token =
    (let token = token\<lparr>tok_Latency := ob_Latency orderBook\<rparr>;
         token = (if 0 < length (ob_Asks orderBook)
                  then (let ob = ob_Asks orderBook ! (length (ob_Asks orderBook) - 1)
                        in token\<lparr>tok_AskPrice := bk_Price ob, tok_AskSize := bk_Size ob\<rparr>) else token)
     in if 0 < length (ob_Bids orderBook)
        then (let ob = ob_Bids orderBook ! (length (ob_Bids orderBook) - 1)
              in token\<lparr>tok_BidPrice := bk_Price ob, tok_BidSize := bk_Size ob\<rparr>) else token)"

definition updateToken :: "sdkBook \<Rightarrow> probEngine \<Rightarrow> probEngine" where
  "updateToken orderBook e =
    (case map_of (pe_tokens e) (ob_AssetId orderBook) of
       None \<Rightarrow> e
     | Some token \<Rightarrow> (let token = tokenFromBook orderBook token
                       in e\<lparr>pe_tokens := gput (tok_Id token) token (pe_tokens e)\<rparr>))"

text \<open>The loop of \<^verbatim>\<open>getTokens\<close>; the assertion on the nil value of a missing key panics.\<close>

fun getTokensLoop :: "string list \<Rightarrow> (string, Token) gomap \<Rightarrow> (string, Token) gomap \<Rightarrow> (string, Token) gomap option" where
  "getTokensLoop [] stored tokens = Some tokens"
| "getTokensLoop (t # ts) stored tokens =
    (case map_of stored t of
       None \<Rightarrow> None
     | Some v \<Rightarrow> getTokensLoop ts stored (gput t v tokens))"

definition getTokens :: "string list \<Rightarrow> probEngine \<Rightarrow> (string, Token) gomap option" where
  "getTokens tokenIds e = getTokensLoop tokenIds (pe_tokens e) []"

section \<open>The observation\<close>

text \<open>The values of the map \<^verbatim>\<open>Features\<close>, a \<^verbatim>\<open>map[string]any\<close>.\<close>

datatype feature = FeatFloat float64 | FeatInt int | FeatFloats "float64 list"

text \<open>\<^verbatim>\<open>GetOrderBook\<close> is a closure over the engine; the two closures over the client
  (\<^verbatim>\<open>FetchPrices\<close>, \<^verbatim>\<open>CheckResolved\<close>) are not part of the record.\<close>

record Observation =
  obs_At :: int
  obs_MarketID :: string
  obs_Slug :: string
  obs_Tokens :: "(string, Token) gomap"
  obs_TokenIds :: "string list"
  obs_Probability :: float64
  obs_TimeLeftSec :: int
  obs_Confidence :: float64
  obs_Features :: "(string, feature) gomap"
  obs_GetOrderBook :: "string \<Rightarrow> sdkBook option"

definition fillFeaturesLocked :: "marketState \<Rightarrow> probEngine \<Rightarrow> Observation \<Rightarrow> Observation" where
  "fillFeaturesLocked market e obs =
    (let latestZ = pe_latestZ e; openPrice = ms_openPrice market; latestPrice = pe_latestPrice e in
     obs\<lparr>obs_Features :=
       gput ''diffPrice'' (FeatFloat (latestPrice - openPrice))
       (gput ''endTime'' (FeatInt (ms_endTime market))
       (gput ''latestPrice'' (FeatFloat latestPrice)
       (gput ''openPrice'' (FeatFloat openPrice)
       (gput ''zWindows'' (FeatFloats (rbLast 10 (pe_zWindows e)))
       (gput ''latestZ'' (FeatFloat latestZ) [])))))\<rparr>)"

text \<open>\<open>Some None\<close>: there is nothing to observe yet.\<close>

definition CurrentObservation :: "time \<Rightarrow> probEngine \<Rightarrow> Observation option option" where
  "CurrentObservation now e =
    (let market = pe_market e in
     if ms_endTime market = 0 \<or> ms_openPrice market = 0 then Some None
     else case getTokens (ms_tokenIDs market) e of
       None \<Rightarrow> None
     | Some tokens \<Rightarrow> Some (Some (fillFeaturesLocked market e
         \<lparr>obs_At = timeUnix now, obs_MarketID = ms_marketId market, obs_Slug = ms_slug market,
          obs_Tokens = tokens, obs_TokenIds = ms_tokenIDs market, obs_Probability = pe_latestProb e,
          obs_TimeLeftSec = quotInt (ms_endTime market) 1000 - timeUnix now, obs_Confidence = 0,
          obs_Features = [], obs_GetOrderBook = \<lambda>tID. GetOrderBook tID e\<rparr>)))"

section \<open>A new market\<close>

record resetPrep =
  rp_endTime :: int
  rp_openPrice :: float64
  rp_tokenIDs :: "string list"

text \<open>The retries after a first price of 0, one per backoff; \<open>prices k\<close> is the answer to the
  k-th call of \<^verbatim>\<open>fetchPrices\<close>.\<close>

fun retryOpenPrice :: "(float64 \<times> float64) list \<Rightarrow> float64 \<Rightarrow> float64" where
  "retryOpenPrice [] openPrice = openPrice"
| "retryOpenPrice (p # ps) openPrice = (if 0 < fst p then fst p else retryOpenPrice ps (fst p))"

definition prepareReset :: "'j marketLib \<Rightarrow> (nat \<Rightarrow> float64 \<times> float64) \<Rightarrow> 'j \<Rightarrow> resetPrep option" where
  "prepareReset L prices obj =
    (let tokenIDs = mk_GetStringArray L obj ''clobTokenIds'' in
     if length tokenIDs < 2 then None
     else
       let endTime = (case mk_ToTimestamp L (jsonString L obj ''endDate'') of (t, None) \<Rightarrow> t | (_, Some _) \<Rightarrow> 0);
           openPrice = fst (prices 0);
           openPrice = (if openPrice = 0 then retryOpenPrice (map prices [1, 2, 3, 4]) openPrice else openPrice)
       in if openPrice = 0 then None
          else Some \<lparr>rp_endTime = endTime, rp_openPrice = openPrice, rp_tokenIDs = tokenIDs\<rparr>)"

fun winnerIndex :: "string list \<Rightarrow> int \<Rightarrow> int \<times> bool" where
  "winnerIndex [] i = (- 1, False)"
| "winnerIndex (x # xs) i = (if x = ''1'' then (i, True) else winnerIndex xs (i + 1))"

definition checkResolved :: "'j marketLib \<Rightarrow> goerror + 'j \<Rightarrow> int \<times> bool" where
  "checkResolved L reply =
    (case reply of
       Inl err \<Rightarrow> (- 1, False)
     | Inr obj \<Rightarrow>
         if mk_Bool L (gj_Get (mk_json L) obj ''closed'') \<and> jsonString L obj ''umaResolutionStatus'' = ''resolved''
         then winnerIndex (mk_GetStringArray L obj ''outcomePrices'') 0
         else (- 1, False))"

definition cleanupStoresExceptLocked :: "string set \<Rightarrow> probEngine \<Rightarrow> probEngine" where
  "cleanupStoresExceptLocked keep e =
    (let e = e\<lparr>pe_tokens := filter (\<lambda>(k, v). k \<in> keep) (pe_tokens e)\<rparr>
     in e\<lparr>pe_books := filter (\<lambda>(k, v). k \<in> keep) (pe_books e)\<rparr>)"

definition resetForNewMarketLocked ::
  "marketState option \<Rightarrow> resetPrep option \<Rightarrow> probEngine \<Rightarrow> probEngine \<times> marketState option \<times> bool" where
  "resetForNewMarketLocked market prep e =
    (case (market, prep) of
       (Some m, Some p) \<Rightarrow>
         (let e = e\<lparr>pe_latestZ := 0\<rparr>;
              m = m\<lparr>ms_endTime := rp_endTime p, ms_tokenIDs := rp_tokenIDs p, ms_openPrice := rp_openPrice p\<rparr>;
              e = e\<lparr>pe_zWindows := rbReset (pe_zWindows e)\<rparr>;
              e = cleanupStoresExceptLocked (set (rp_tokenIDs p)) e;
              e = fold (\<lambda>t e. e\<lparr>pe_tokens := gput t (newToken t) (pe_tokens e)\<rparr>) (rp_tokenIDs p) e
          in (e, Some m, True))
     | _ \<Rightarrow> (e, market, False))"

section \<open>Events\<close>

text \<open>The events the engine reacts to; \<open>None\<close> is a payload of another type.\<close>

datatype 'j probInput =
    MarketInput "'j option"
  | BookInput "sdkBook option"
  | PriceInput "Tick option"
  | ProbabilityInput "float64 option"
  | OtherInput

definition onMarket ::
  "'j marketLib \<Rightarrow> (nat \<Rightarrow> float64 \<times> float64) \<Rightarrow> time \<Rightarrow> 'j \<Rightarrow> probEngine \<Rightarrow> (probEngine \<times> Observation option) option" where
  "onMarket L prices now obj e =
    (let conditionID = jsonString L obj ''conditionId'';
         slug = jsonString L obj ''slug'';
         market = pe_market e
     in if ms_marketId market \<noteq> conditionID
        then (let market = market\<lparr>ms_marketId := conditionID, ms_slug := slug\<rparr> in
              case prepareReset L prices obj of
                None \<Rightarrow> Some (e, None)
              | Some prep \<Rightarrow>
                  (case resetForNewMarketLocked (Some market) (Some prep) e of
                     (e, Some market, True) \<Rightarrow>
                       (let e = e\<lparr>pe_market := market\<rparr> in map_option (Pair e) (CurrentObservation now e))
                   | (e, _, _) \<Rightarrow> Some (e, None)))
        else Some (e, None))"

definition onBook :: "time \<Rightarrow> sdkBook \<Rightarrow> probEngine \<Rightarrow> (probEngine \<times> Observation option) option" where
  "onBook now orderBook e =
    (if ms_openPrice (pe_market e) = 0 \<or> ms_endTime (pe_market e) = 0 then Some (e, None)
     else
       let e = updateOrderBook (ob_AssetId orderBook) (\<lambda>old. orderBook) e;
           e = updateToken orderBook e
       in map_option (Pair e) (CurrentObservation now e))"

definition onPrice :: "mathlib \<Rightarrow> time \<Rightarrow> Tick \<Rightarrow> probEngine \<Rightarrow> probEngine" where
  "onPrice M now data e =
    (let market = pe_market e in
     if ms_openPrice market = 0 \<or> ms_endTime market = 0 then e
     else
       let e = e\<lparr>pe_latestPrice := tk_Price data\<rparr>;
           e = e\<lparr>pe_zscore := OnTick data (pe_zscore e)\<rparr>
       in if IsReady (pe_zscore e)
          then (let timeLeft = quotInt (ms_endTime market) 1000 - timeUnix now in
                if 1 \<le> timeLeft
                then e\<lparr>pe_latestZ := zscoreOf M (tk_Price data) (ms_openPrice market) (f64 (of_int timeLeft)) (pe_zscore e)\<rparr>
                else e)
          else e)"

fun probUpdate ::
  "mathlib \<Rightarrow> 'j marketLib \<Rightarrow> (nat \<Rightarrow> float64 \<times> float64) \<Rightarrow> time \<Rightarrow> 'j probInput \<Rightarrow> probEngine \<Rightarrow>
   (probEngine \<times> Observation option) option" where
  "probUpdate M L prices now (MarketInput None) e = Some (e, None)"
| "probUpdate M L prices now (MarketInput (Some obj)) e = onMarket L prices now obj e"
| "probUpdate M L prices now (BookInput None) e = Some (e, None)"
| "probUpdate M L prices now (BookInput (Some orderBook)) e = onBook now orderBook e"
| "probUpdate M L prices now (PriceInput None) e = Some (e, None)"
| "probUpdate M L prices now (PriceInput (Some data)) e = Some (onPrice M now data e, None)"
| "probUpdate M L prices now (ProbabilityInput None) e = Some (e, None)"
| "probUpdate M L prices now (ProbabilityInput (Some prop)) e = Some (e\<lparr>pe_latestProb := prop\<rparr>, None)"
| "probUpdate M L prices now OtherInput e = Some (e, None)"

section \<open>The engine's invariant\<close>

definition pe_ok :: "probEngine \<Rightarrow> bool" where
  "pe_ok e \<longleftrightarrow>
     gmap_ok (pe_tokens e) \<and> gmap_ok (pe_books e) \<and> gall (\<lambda>k tk. tok_Id tk = k) (pe_tokens e) \<and>
     gall (\<lambda>k b. \<exists>ob. b = Some ob \<and> ob_AssetId ob = k) (pe_books e) \<and>
     list_all (ghas (pe_tokens e)) (ms_tokenIDs (pe_market e)) \<and>
     (ms_openPrice (pe_market e) \<noteq> 0 \<longrightarrow> 2 \<le> length (ms_tokenIDs (pe_market e))) \<and>
     rb_ok (pe_zWindows e) \<and> rb_size (pe_zWindows e) = 60 \<and> zs_ok (pe_zscore e)"

text \<open>What a strategy may rely on when it is handed an observation.\<close>

definition obs_ok :: "Observation \<Rightarrow> bool" where
  "obs_ok ob \<longleftrightarrow>
     2 \<le> length (obs_TokenIds ob) \<and> gmap_ok (obs_Tokens ob) \<and> set (map fst (obs_Tokens ob)) = set (obs_TokenIds ob) \<and>
     gall (\<lambda>k tk. tok_Id tk = k) (obs_Tokens ob) \<and>
     (\<exists>p. map_of (obs_Features ob) ''openPrice'' = Some (FeatFloat p) \<and> p \<noteq> 0) \<and>
     (\<exists>w. map_of (obs_Features ob) ''zWindows'' = Some (FeatFloats w) \<and> length w \<le> 10)"

lemma getTokensLoop_total:
  assumes "list_all (ghas stored) ts" and "gmap_ok acc"
  shows "\<exists>r. getTokensLoop ts stored acc = Some r \<and> gmap_ok r \<and>
    (\<forall>k. map_of r k = (if k \<in> set ts then map_of stored k else map_of acc k))"
  using assms
proof (induction ts arbitrary: acc)
  case (Cons t ts)
  then obtain v where v: "map_of stored t = Some v" by (auto simp: ghas_def)
  have "gmap_ok (gput t v acc)" using Cons.prems by (simp add: distinct_update)
  with Cons obtain r where "getTokensLoop ts stored (gput t v acc) = Some r" "gmap_ok r"
    "\<forall>k. map_of r k = (if k \<in> set ts then map_of stored k else map_of (gput t v acc) k)"
    by fastforce
  with v show ?case by (auto simp: update_conv')
qed simp

lemma getTokens_none: "t \<in> set ts \<Longrightarrow> \<not> ghas stored t \<Longrightarrow> getTokensLoop ts stored acc = None"
  by (induction ts arbitrary: acc) (auto simp: ghas_def split: option.splits)

lemma rbLast_length: "rb_ok r \<Longrightarrow> 0 < n \<Longrightarrow> length (rbLast n r) \<le> nat n"
  by (auto simp: rbLast_def rb_ok_def length_rbRead Let_def)

lemma features_filled:
  "map_of (obs_Features (fillFeaturesLocked m e ob)) ''openPrice'' = Some (FeatFloat (ms_openPrice m))"
  "map_of (obs_Features (fillFeaturesLocked m e ob)) ''zWindows'' = Some (FeatFloats (rbLast 10 (pe_zWindows e)))"
  "map_of (obs_Features (fillFeaturesLocked m e ob)) ''latestZ'' = Some (FeatFloat (pe_latestZ e))"
  "map_of (obs_Features (fillFeaturesLocked m e ob)) ''latestPrice'' = Some (FeatFloat (pe_latestPrice e))"
  "obs_Tokens (fillFeaturesLocked m e ob) = obs_Tokens ob"
  "obs_TokenIds (fillFeaturesLocked m e ob) = obs_TokenIds ob"
  "obs_MarketID (fillFeaturesLocked m e ob) = obs_MarketID ob"
  by (simp_all add: fillFeaturesLocked_def Let_def update_conv')

lemma CurrentObservation_ok:
  assumes "pe_ok e"
  shows "\<exists>obs. CurrentObservation now e = Some obs \<and> (case obs of None \<Rightarrow> True | Some ob \<Rightarrow> obs_ok ob)"
proof (cases "ms_endTime (pe_market e) = 0 \<or> ms_openPrice (pe_market e) = 0")
  case False
  let ?ts = "ms_tokenIDs (pe_market e)"
  have has: "list_all (ghas (pe_tokens e)) ?ts" using assms by (simp add: pe_ok_def)
  then obtain r where r: "getTokensLoop ?ts (pe_tokens e) [] = Some r" "gmap_ok r"
    and look: "\<forall>k. map_of r k = (if k \<in> set ?ts then map_of (pe_tokens e) k else None)"
    using getTokensLoop_total [of "pe_tokens e" ?ts "[]"] by auto
  have "k \<in> fst ` set r \<longleftrightarrow> k \<in> set ?ts" for k
    unfolding ghas_iff_mem [symmetric] using look has by (auto simp: ghas_def list_all_iff)
  then have keys: "fst ` set r = set ?ts" by blast
  have "gall (\<lambda>k tk. tok_Id tk = k) r"
    unfolding gall_iff [OF r(2)] using look assms by (auto simp: pe_ok_def dest: gall_lookup split: if_splits)
  moreover have "length (rbLast 10 (pe_zWindows e)) \<le> 10" using rbLast_length [of "pe_zWindows e" 10] assms by (simp add: pe_ok_def)
  ultimately show ?thesis
    using False assms r keys by (simp add: CurrentObservation_def getTokens_def Let_def obs_ok_def features_filled pe_ok_def)
qed (auto simp: CurrentObservation_def)

section \<open>Every operation keeps the invariant\<close>

lemma new_ok: "NewProbEngine = Some e \<Longrightarrow> pe_ok e"
  by (auto simp: NewProbEngine_def NewZScore_def NewRingBuffer_def pe_ok_def rb_ok_def zs_ok_def)

lemma zTick_ok: "pe_ok e \<Longrightarrow> pe_ok (zTick e)"
  using ring.inv_push [of "pe_zWindows e" "pe_latestZ e"]
  by (simp add: pe_ok_def zTick_def rbAdd_def Let_def)

lemma updateOrderBook_ok:
  assumes "pe_ok e" shows "pe_ok (updateOrderBook (ob_AssetId ob) (\<lambda>old. ob) e)"
proof -
  have "gall (\<lambda>k b. \<exists>ob. b = Some ob \<and> ob_AssetId ob = k) (gput (ob_AssetId ob) (Some ob) m)"
    if "gall (\<lambda>k b. \<exists>ob. b = Some ob \<and> ob_AssetId ob = k) m" for m
    using that by (intro gall_put) auto
  moreover have "gput k v (gput k w m) = gput k v m" for k :: string and v w :: "sdkBook option" and m
    by (induction m) auto
  ultimately show ?thesis
    using assms by (auto simp: pe_ok_def updateOrderBook_def Let_def distinct_update split: option.splits)
qed

lemma tokenFromBook_id [simp]: "tok_Id (tokenFromBook ob tk) = tok_Id tk"
  by (simp add: tokenFromBook_def Let_def)

lemma updateToken_ok:
  assumes "pe_ok e" shows "pe_ok (updateToken ob e)"
proof (cases "map_of (pe_tokens e) (ob_AssetId ob)")
  case None
  with assms show ?thesis by (simp add: updateToken_def)
next
  case (Some tk)
  have "gall (\<lambda>k tk. tok_Id tk = k) (gput (tok_Id tk) (tokenFromBook ob tk) (pe_tokens e))"
    using assms by (intro gall_put) (simp_all add: pe_ok_def)
  with assms Some show ?thesis
    by (auto simp: pe_ok_def updateToken_def Let_def distinct_update list_all_iff)
qed

lemma storeTokens:
  "fold (\<lambda>t e. e\<lparr>pe_tokens := gput t (newToken t) (pe_tokens e)\<rparr>) ts e =
   e\<lparr>pe_tokens := fold (\<lambda>t m. gput t (newToken t) m) ts (pe_tokens e)\<rparr>"
  by (induction ts arbitrary: e) simp_all

lemma storeTokens_ok:
  assumes "gmap_ok m" and "gall (\<lambda>k tk. tok_Id tk = k) m"
  shows "gmap_ok (fold (\<lambda>t m. gput t (newToken t) m) ts m) \<and>
    gall (\<lambda>k tk. tok_Id tk = k) (fold (\<lambda>t m. gput t (newToken t) m) ts m) \<and>
    (\<forall>k. ghas (fold (\<lambda>t m. gput t (newToken t) m) ts m) k \<longleftrightarrow> k \<in> set ts \<or> ghas m k)"
  using assms
proof (induction ts arbitrary: m)
  case (Cons t ts)
  then have "gmap_ok (gput t (newToken t) m)" "gall (\<lambda>k tk. tok_Id tk = k) (gput t (newToken t) m)"
    by (auto simp: distinct_update newToken_def intro!: gall_put)
  with Cons.IH show ?case by auto
qed simp

lemma prepareReset_some: "prepareReset L prices obj = Some p \<Longrightarrow> 2 \<le> length (rp_tokenIDs p) \<and> rp_openPrice p \<noteq> 0"
  by (auto simp: prepareReset_def Let_def split: if_splits)

lemma reset_ok:
  assumes "pe_ok e" and "2 \<le> length (rp_tokenIDs p)"
    and "resetForNewMarketLocked (Some m) (Some p) e = (e', Some m', b)"
  shows "pe_ok (e'\<lparr>pe_market := m'\<rparr>) \<and> b"
proof -
  let ?m = "filter (\<lambda>(k, v). k \<in> set (rp_tokenIDs p)) (pe_tokens e)"
  have "gmap_ok ?m" "gall (\<lambda>k tk. tok_Id tk = k) ?m"
    using assms(1) by (simp_all add: pe_ok_def gmap_ok_filter gall_filter)
  from storeTokens_ok [OF this, of "rp_tokenIDs p"] assms show ?thesis
    by (auto simp: resetForNewMarketLocked_def cleanupStoresExceptLocked_def storeTokens Let_def pe_ok_def
        list_all_iff gmap_ok_filter gall_filter rbReset_def rb_ok_def)
qed

lemma onPrice_ok:
  assumes "pe_ok e" shows "pe_ok (onPrice M now data e)"
  using assms zs_ok_OnTick [of "pe_zscore e" data] by (simp add: pe_ok_def onPrice_def Let_def)

lemma probUpdate_ok:
  assumes "pe_ok e"
  shows "\<exists>e' obs. probUpdate M L prices now i e = Some (e', obs) \<and> pe_ok e' \<and> (case obs of None \<Rightarrow> True | Some ob \<Rightarrow> obs_ok ob)"
proof -
  have book: "\<exists>e' obs. onBook now ob e = Some (e', obs) \<and> pe_ok e' \<and> (case obs of None \<Rightarrow> True | Some ob \<Rightarrow> obs_ok ob)" for ob
  proof -
    have ok: "pe_ok (updateToken ob (updateOrderBook (ob_AssetId ob) (\<lambda>old. ob) e))"
      by (intro updateToken_ok updateOrderBook_ok assms)
    with CurrentObservation_ok [OF this, of now] assms show ?thesis by (auto simp: onBook_def Let_def)
  qed
  have market: "\<exists>e' obs. onMarket L prices now obj e = Some (e', obs) \<and> pe_ok e' \<and> (case obs of None \<Rightarrow> True | Some ob \<Rightarrow> obs_ok ob)" for obj
  proof (cases "prepareReset L prices obj")
    case None
    with assms show ?thesis by (simp add: onMarket_def Let_def)
  next
    case (Some p)
    let ?m = "(pe_market e)\<lparr>ms_marketId := jsonString L obj ''conditionId'', ms_slug := jsonString L obj ''slug''\<rparr>"
    obtain e' m' where r: "resetForNewMarketLocked (Some ?m) (Some p) e = (e', Some m', True)"
      by (simp add: resetForNewMarketLocked_def Let_def)
    have ok: "pe_ok (e'\<lparr>pe_market := m'\<rparr>)" using reset_ok [OF assms _ r] prepareReset_some [OF Some] by simp
    with CurrentObservation_ok [OF ok, of now] Some r assms show ?thesis by (auto simp: onMarket_def Let_def)
  qed
  have prob: "pe_ok (e\<lparr>pe_latestProb := x\<rparr>)" for x using assms by (simp add: pe_ok_def)
  show ?thesis
    using book market prob assms onPrice_ok [OF assms, of M now]
    by (cases "(M, L, prices, now, i, e)" rule: probUpdate.cases) auto
qed

section \<open>Reachable engines never panic\<close>

inductive prob_reachable :: "mathlib \<Rightarrow> 'j marketLib \<Rightarrow> probEngine \<Rightarrow> bool" for M L where
  new: "NewProbEngine = Some e \<Longrightarrow> prob_reachable M L e"
| tick: "prob_reachable M L e \<Longrightarrow> prob_reachable M L (zTick e)"
| update: "prob_reachable M L e \<Longrightarrow> probUpdate M L prices now i e = Some (e', obs) \<Longrightarrow> prob_reachable M L e'"

lemma prob_reachable_ok: "prob_reachable M L e \<Longrightarrow> pe_ok e"
proof (induction rule: prob_reachable.induct)
  case (update e prices now i e' obs)
  with probUpdate_ok [of e M L prices now i] show ?case by auto
qed (simp_all add: new_ok zTick_ok)

text \<open>C10. Between the events the probability engine never panics: from every engine that
  \<^verbatim>\<open>NewEngine\<close>, the ticker and any events (invalid payloads, unknown tokens and failed
  price fetches included) produce, the next event is handled and the current observation is
  available, and an observation is what the strategies rely on: two token ids or more, one entry
  per id under its own id, a nonzero opening price and at most 10 z-scores.\<close>

theorem probability_never_panics:
  assumes "prob_reachable M L e"
  shows "(\<exists>e' obs. probUpdate M L prices now i e = Some (e', obs) \<and> (case obs of None \<Rightarrow> True | Some ob \<Rightarrow> obs_ok ob)) \<and>
    (\<exists>obs. CurrentObservation now e = Some obs \<and> (case obs of None \<Rightarrow> True | Some ob \<Rightarrow> obs_ok ob))"
  using probUpdate_ok [OF prob_reachable_ok [OF assms], of M L prices now i]
    CurrentObservation_ok [OF prob_reachable_ok [OF assms], of now] by blast

definition demoMath :: mathlib where
  "demoMath = \<lparr>ml_Log = \<lambda>x. x - 1, ml_Sqrt = \<lambda>x. x\<rparr>"

definition demoProb :: probEngine where
  "demoProb = fst (the (probUpdate demoMath demoLib (\<lambda>_. (1, 1)) 0 (MarketInput (Some ())) (the NewProbEngine)))"

lemmas demo_prob_simps = demoLib_def onMarket_def prepareReset_def resetForNewMarketLocked_def
  cleanupStoresExceptLocked_def NewProbEngine_def NewZScore_def NewRingBuffer_def CurrentObservation_def getTokens_def Let_def

lemma f64_1_neq_0: "(1 :: float64) \<noteq> 0"
  by code_simp

lemma demoProb_update: "\<exists>obs. probUpdate demoMath demoLib (\<lambda>_. (1, 1)) 0 (MarketInput (Some ())) (the NewProbEngine) = Some (demoProb, obs)"
  unfolding demoProb_def using f64_1_neq_0 by (simp add: demo_prob_simps)

lemma demoProb_reachable: "prob_reachable demoMath demoLib demoProb"
proof -
  obtain obs where "probUpdate demoMath demoLib (\<lambda>_. (1, 1)) 0 (MarketInput (Some ())) (the NewProbEngine) = Some (demoProb, obs)"
    using demoProb_update by blast
  moreover have "prob_reachable demoMath demoLib (the NewProbEngine)"
    by (rule prob_reachable.new) (simp add: NewProbEngine_def NewZScore_def NewRingBuffer_def)
  ultimately show ?thesis by (rule prob_reachable.update [rotated])
qed

lemma demoProb_fields:
  "ms_tokenIDs (pe_market demoProb) = [''up'', ''down'']" "ms_openPrice (pe_market demoProb) = 1"
  "ms_endTime (pe_market demoProb) = 300000" "pe_books demoProb = []"
  "pe_tokens demoProb = [(''up'', newToken ''up''), (''down'', newToken ''down'')]"
  unfolding demoProb_def using f64_1_neq_0 by (simp_all add: demo_prob_simps)

corollary probability_never_panics_witness:
  "prob_reachable demoMath demoLib demoProb \<and> (\<exists>obs. CurrentObservation 0 demoProb = Some obs)"
  using demoProb_reachable probability_never_panics [OF demoProb_reachable, of "\<lambda>_. (1, 1)" 0 OtherInput] by blast

section \<open>The reset is not atomic\<close>

text \<open>The writes of \<^verbatim>\<open>resetForNewMarketLocked\<close> and of the replacement of the market, each
  atomic.  No lock spans them, and \<^verbatim>\<open>publishMetrics\<close> reads the observation on another
  goroutine.\<close>

datatype probWrite =
    StoreZ float64
  | ResetWindows
  | DeleteToken string
  | DeleteBook string
  | StoreToken string Token
  | ReplaceMarket marketState

fun applyWrite :: "probWrite \<Rightarrow> probEngine \<Rightarrow> probEngine" where
  "applyWrite (StoreZ z) e = e\<lparr>pe_latestZ := z\<rparr>"
| "applyWrite ResetWindows e = e\<lparr>pe_zWindows := rbReset (pe_zWindows e)\<rparr>"
| "applyWrite (DeleteToken k) e = e\<lparr>pe_tokens := gdel k (pe_tokens e)\<rparr>"
| "applyWrite (DeleteBook k) e = e\<lparr>pe_books := gdel k (pe_books e)\<rparr>"
| "applyWrite (StoreToken k tk) e = e\<lparr>pe_tokens := gput k tk (pe_tokens e)\<rparr>"
| "applyWrite (ReplaceMarket m) e = e\<lparr>pe_market := m\<rparr>"

definition resetWrites :: "probEngine \<Rightarrow> resetPrep \<Rightarrow> marketState \<Rightarrow> probWrite list" where
  "resetWrites e p m =
    [StoreZ 0, ResetWindows] @
    map DeleteToken (filter (\<lambda>k. k \<notin> set (rp_tokenIDs p)) (map fst (pe_tokens e))) @
    map DeleteBook (filter (\<lambda>k. k \<notin> set (rp_tokenIDs p)) (map fst (pe_books e))) @
    map (\<lambda>t. StoreToken t (newToken t)) (rp_tokenIDs p) @ [ReplaceMarket m]"

lemma deletes_filter:
  "fold gdel ks m = filter (\<lambda>(k, v). k \<notin> set ks) m"
  by (induction ks arbitrary: m) (auto simp: AList.delete_eq intro!: filter_cong)

lemma keep_filter:
  "filter (\<lambda>(k, v). k \<notin> set (filter (\<lambda>k. k \<notin> K) (map fst m))) m = filter (\<lambda>(k, v). k \<in> K) m"
  by (rule filter_cong) force+

lemma applyWrites_map:
  "fold applyWrite (map DeleteToken ks) e = e\<lparr>pe_tokens := fold gdel ks (pe_tokens e)\<rparr>"
  "fold applyWrite (map DeleteBook ks) e = e\<lparr>pe_books := fold gdel ks (pe_books e)\<rparr>"
  "fold applyWrite (map (\<lambda>t. StoreToken t (newToken t)) ks) e =
     e\<lparr>pe_tokens := fold (\<lambda>t m. gput t (newToken t) m) ks (pe_tokens e)\<rparr>"
  by (induction ks arbitrary: e) simp_all

lemma resetWrites_complete:
  "fold applyWrite (resetWrites e p (m\<lparr>ms_endTime := rp_endTime p, ms_tokenIDs := rp_tokenIDs p, ms_openPrice := rp_openPrice p\<rparr>)) e =
   (case resetForNewMarketLocked (Some m) (Some p) e of (e', m', _) \<Rightarrow> e'\<lparr>pe_market := the m'\<rparr>)"
  by (simp add: resetWrites_def applyWrites_map deletes_filter keep_filter resetForNewMarketLocked_def
      cleanupStoresExceptLocked_def storeTokens Let_def del: set_filter)

text \<open>C30. The reset races with the readers: done to the end its writes install the new market,
  but whenever the market they replace has a token the new one has not, a reader that runs after
  some of them (the metrics ticker runs on another goroutine) finds a token of the current market
  missing and panics in the type assertion of \<^verbatim>\<open>getTokens\<close>.\<close>

theorem reset_race_panics:
  assumes "ms_endTime (pe_market e) \<noteq> 0" and "ms_openPrice (pe_market e) \<noteq> 0"
    and "t \<in> set (ms_tokenIDs (pe_market e))" and "t \<notin> set (rp_tokenIDs p)"
  shows "\<exists>before after. resetWrites e p m = before @ after \<and> CurrentObservation now (fold applyWrite before e) = None"
proof -
  let ?stale = "filter (\<lambda>k. k \<notin> set (rp_tokenIDs p)) (map fst (pe_tokens e))"
  let ?before = "[StoreZ 0, ResetWindows] @ map DeleteToken ?stale"
  have "\<not> ghas (fold gdel ?stale (pe_tokens e)) t"
    unfolding deletes_filter keep_filter ghas_iff_mem using assms(4) by auto
  then have "CurrentObservation now (fold applyWrite ?before e) = None"
    using assms getTokens_none [OF assms(3)] by (simp add: CurrentObservation_def applyWrites_map getTokens_def Let_def)
  moreover have "\<exists>after. resetWrites e p m = ?before @ after" unfolding resetWrites_def by auto
  ultimately show ?thesis by blast
qed

corollary reset_race_panics_witness:
  "\<exists>before after. resetWrites demoProb \<lparr>rp_endTime = 600000, rp_openPrice = 1, rp_tokenIDs = [''up2'', ''down2'']\<rparr> (pe_market demoProb) =
     before @ after \<and> CurrentObservation 0 (fold applyWrite before demoProb) = None"
  by (rule reset_race_panics [of _ "''up''"]) (use f64_1_neq_0 in \<open>simp_all add: demoProb_fields\<close>)

section \<open>Books by time stamp, quotes by arrival\<close>

fun deliverBooks :: "time \<Rightarrow> sdkBook list \<Rightarrow> probEngine \<Rightarrow> probEngine option" where
  "deliverBooks now [] e = Some e"
| "deliverBooks now (ob # obs) e =
    (case onBook now ob e of None \<Rightarrow> None | Some (e, _) \<Rightarrow> deliverBooks now obs e)"

text \<open>\<open>ob\<close> is the newest of the books: none has a later time stamp, and none behind it has the
  same.\<close>

definition newestBook :: "sdkBook list \<Rightarrow> sdkBook \<Rightarrow> bool" where
  "newestBook bs ob \<longleftrightarrow> (\<exists>pre post. bs = pre @ ob # post \<and>
     (\<forall>x \<in> set pre. ob_Timestamp x \<le> ob_Timestamp ob) \<and> (\<forall>x \<in> set post. ob_Timestamp x < ob_Timestamp ob))"

lemma newestBook_single: "newestBook [ob] ob"
  unfolding newestBook_def by (intro exI [of _ "[]"]) simp

lemma newestBook_snoc:
  assumes "newestBook bs ob"
  shows "newestBook (bs @ [x]) (if ob_Timestamp x < ob_Timestamp ob then ob else x)"
proof -
  obtain pre post where s: "bs = pre @ ob # post" "\<forall>y \<in> set pre. ob_Timestamp y \<le> ob_Timestamp ob"
    "\<forall>y \<in> set post. ob_Timestamp y < ob_Timestamp ob"
    using assms unfolding newestBook_def by blast
  show ?thesis
  proof (cases "ob_Timestamp x < ob_Timestamp ob")
    case True
    with s show ?thesis unfolding newestBook_def by (intro exI [of _ pre] exI [of _ "post @ [x]"]) auto
  next
    case False
    have "\<forall>y \<in> set bs. ob_Timestamp y \<le> ob_Timestamp x" using s False by fastforce
    with False show ?thesis unfolding newestBook_def by (intro exI [of _ bs] exI [of _ "[]"]) auto
  qed
qed

lemma onBook_effect:
  assumes "pe_ok e" and "ms_openPrice (pe_market e) \<noteq> 0" and "ms_endTime (pe_market e) \<noteq> 0"
  shows "\<exists>obs. onBook now ob e = Some (updateToken ob (updateOrderBook (ob_AssetId ob) (\<lambda>_. ob) e), obs)"
proof -
  have "pe_ok (updateToken ob (updateOrderBook (ob_AssetId ob) (\<lambda>old. ob) e))"
    by (intro updateToken_ok updateOrderBook_ok assms(1))
  from CurrentObservation_ok [OF this, of now] assms(2,3) show ?thesis by (auto simp: onBook_def Let_def)
qed

lemma updateOrderBook_frame [simp]:
  "pe_tokens (updateOrderBook t fn e) = pe_tokens e" "pe_market (updateOrderBook t fn e) = pe_market e"
  by (simp_all add: updateOrderBook_def Let_def split: option.splits)

lemma updateToken_frame [simp]:
  "pe_books (updateToken ob e) = pe_books e" "pe_market (updateToken ob e) = pe_market e"
  by (simp_all add: updateToken_def Let_def split: option.splits)

lemma updateToken_token:
  assumes "pe_ok e" and "map_of (pe_tokens e) (ob_AssetId ob) = Some tk"
  shows "map_of (pe_tokens (updateToken ob e)) (ob_AssetId ob) = Some (tokenFromBook ob tk)"
proof -
  have "tok_Id tk = ob_AssetId ob" using assms by (auto simp: pe_ok_def dest: gall_lookup)
  then show ?thesis using assms(2) by (simp add: updateToken_def Let_def update_conv')
qed

lemma deliverBooks_snoc:
  "deliverBooks now (obs @ [ob]) e =
   (case deliverBooks now obs e of None \<Rightarrow> None | Some e \<Rightarrow> map_option fst (onBook now ob e))"
  by (induction obs arbitrary: e) (auto split: option.splits)

lemma deliverBooks_effect:
  assumes "pe_ok e" and "ms_openPrice (pe_market e) \<noteq> 0" and "ms_endTime (pe_market e) \<noteq> 0"
    and "map_of (pe_tokens e) t = Some tk" and "map_of (pe_books e) t = None" and "\<forall>ob \<in> set bs. ob_AssetId ob = t"
  shows "\<exists>e'. deliverBooks now bs e = Some e' \<and> pe_ok e' \<and> pe_market e' = pe_market e \<and>
    map_of (pe_tokens e') t = Some (fold tokenFromBook bs tk) \<and>
    (if bs = [] then map_of (pe_books e') t = None
     else \<exists>ob. newestBook bs ob \<and> map_of (pe_books e') t = Some (Some ob))"
  using assms(6)
proof (induction bs rule: rev_induct)
  case (snoc b bs)
  then obtain e1 where e1: "deliverBooks now bs e = Some e1" "pe_ok e1" "pe_market e1 = pe_market e"
    "map_of (pe_tokens e1) t = Some (fold tokenFromBook bs tk)"
    and books: "if bs = [] then map_of (pe_books e1) t = None
      else \<exists>ob. newestBook bs ob \<and> map_of (pe_books e1) t = Some (Some ob)" by auto
  have b: "ob_AssetId b = t" using snoc.prems by simp
  let ?u = "updateOrderBook t (\<lambda>_. b) e1"
  have u: "pe_ok ?u" using updateOrderBook_ok [OF e1(2), of b] b by simp
  obtain obs where "onBook now b e1 = Some (updateToken b ?u, obs)"
    using onBook_effect [OF e1(2), of now b] e1(3) assms(2,3) b by auto
  then have d: "deliverBooks now (bs @ [b]) e = Some (updateToken b ?u)" by (simp add: deliverBooks_snoc e1(1))
  have tok: "map_of (pe_tokens (updateToken b ?u)) t = Some (fold tokenFromBook (bs @ [b]) tk)"
    using updateToken_token [OF u, of b] e1(4) b by simp
  have "\<exists>ob. newestBook (bs @ [b]) ob \<and> map_of (pe_books ?u) t = Some (Some ob)"
  proof (cases "bs = []")
    case True
    with books show ?thesis using newestBook_single [of b] by (auto simp: updateOrderBook_def Let_def update_conv')
  next
    case False
    with books obtain ob where ob: "newestBook bs ob" "map_of (pe_books e1) t = Some (Some ob)" by auto
    have "map_of (pe_books ?u) t = Some (Some (if ob_Timestamp b < ob_Timestamp ob then ob else b))"
      using ob(2) by (simp add: updateOrderBook_def Let_def update_conv')
    with newestBook_snoc [OF ob(1), of b] show ?thesis by blast
  qed
  with d tok u e1(3) updateToken_ok [OF u, of b] show ?case by simp
qed (use assms in simp)

text \<open>C24. Books that arrive out of order: the stored book is the one with the newest time stamp,
  the last of those on a tie, and it is handed out only when its latency is at most 100; but the
  token's best prices are those of the books in the order of arrival, so a late old book, though
  it is not stored, still sets them.\<close>

theorem books_newest_quotes_last:
  assumes "pe_ok e" and "ms_openPrice (pe_market e) \<noteq> 0" and "ms_endTime (pe_market e) \<noteq> 0"
    and "map_of (pe_tokens e) t = Some tk" and "map_of (pe_books e) t = None"
    and "\<forall>ob \<in> set bs. ob_AssetId ob = t" and "bs \<noteq> []"
  shows "\<exists>e' ob. deliverBooks now bs e = Some e' \<and> newestBook bs ob \<and>
    GetOrderBook t e' = (if 100 < ob_Latency ob then None else Some ob) \<and>
    map_of (pe_tokens e') t = Some (fold tokenFromBook bs tk)"
  using deliverBooks_effect [OF assms(1-6), of now] assms(7) by (auto simp: GetOrderBook_def)

definition demoNewBook :: sdkBook where
  "demoNewBook = \<lparr>ob_Bids = [\<lparr>bk_Price = f64 (1/2), bk_Size = 1\<rparr>], ob_Asks = [], ob_AssetId = ''up'', ob_Timestamp = 20, ob_Latency = 3\<rparr>"

definition demoOldBook :: sdkBook where
  "demoOldBook = \<lparr>ob_Bids = [\<lparr>bk_Price = f64 (1/4), bk_Size = 1\<rparr>], ob_Asks = [], ob_AssetId = ''up'', ob_Timestamp = 10, ob_Latency = 3\<rparr>"

corollary books_newest_quotes_last_witness:
  "\<exists>e' tk. deliverBooks 0 [demoNewBook, demoOldBook] demoProb = Some e' \<and> GetOrderBook ''up'' e' = Some demoNewBook \<and>
     map_of (pe_tokens e') ''up'' = Some tk \<and> tok_BidPrice tk = f64 (1/4)"
proof -
  have "newestBook [demoNewBook, demoOldBook] ob \<Longrightarrow> ob = demoNewBook" for ob
    unfolding newestBook_def by (auto simp: Cons_eq_append_conv demoNewBook_def demoOldBook_def)
  then show ?thesis
    using books_newest_quotes_last [OF prob_reachable_ok [OF demoProb_reachable], of "''up''" "newToken ''up''"
      "[demoNewBook, demoOldBook]" 0] f64_1_neq_0
    by (fastforce simp: demoProb_fields demoNewBook_def demoOldBook_def tokenFromBook_def Let_def)
qed

end
