(* ===== verification/Strategy.thy ===== *)
theory Strategy
  imports Probability QueueMap
begin

text \<open>
  Package \<^verbatim>\<open>strategy\<close>: the strategy that buys both outcomes of a new market and sells the
  losing side when the price trends (\<^verbatim>\<open>strategy.go\<close>, \<^verbatim>\<open>utils.go\<close>,
  \<^verbatim>\<open>event_position_expiring.go\<close>).  The SDK's price calculation is a parameter; an index or
  slice out of range panics: \<open>None\<close>.
\<close>

declare map_of_eq_Some_iff [simp del] Some_eq_map_of_iff [simp del]

section \<open>Helpers of the package\<close>

datatype marketOrderType = MARKET_FAK | OtherMarket string

record priceLib =
  pl_Buy :: "Book list \<Rightarrow> float64 \<Rightarrow> marketOrderType \<Rightarrow> goerror + float64"
  pl_Sell :: "Book list \<Rightarrow> float64 \<Rightarrow> marketOrderType \<Rightarrow> goerror + float64"

definition CalculateMarketPrice ::
  "priceLib \<Rightarrow> 'a OrderBook_scheme \<Rightarrow> side \<Rightarrow> float64 \<Rightarrow> marketOrderType \<Rightarrow> goerror + float64" where
  "CalculateMarketPrice P books sd amount orderType =
    (if sd = BUY
     then (if ob_Asks books = [] then Inl (ErrText ''no match'') else pl_Buy P (ob_Asks books) amount orderType)
     else (if ob_Bids books = [] then Inl (ErrText ''no match'') else pl_Sell P (ob_Bids books) amount orderType))"

definition BuildCancelIntent :: "string \<Rightarrow> (string, OrderReservation) gomap \<Rightarrow> string list" where
  "BuildCancelIntent tokenId orders =
     fold (\<lambda>(k, r) orderIds. if or_TokenID r = tokenId then orderIds @ [or_OrderID r] else orderIds) orders []"

text \<open>\<^verbatim>\<open>for i := range n\<close> runs no iteration when \<open>n\<close> is negative.\<close>

definition TopNGreaterThan :: "float64 list \<Rightarrow> int \<Rightarrow> float64 \<Rightarrow> bool" where
  "TopNGreaterThan arr n threshold =
    (if int (length arr) < n then False else list_all (\<lambda>i. \<not> arr ! i \<le> threshold) [0..<nat n])"

text \<open>The slice \<^verbatim>\<open>arr[start:]\<close> panics when \<open>start\<close> exceeds the length.\<close>

definition LastNGreaterThan :: "float64 list \<Rightarrow> int \<Rightarrow> float64 \<Rightarrow> bool option" where
  "LastNGreaterThan arr n threshold =
    (if int (length arr) < n then Some False
     else let start = int (length arr) - n in
       if int (length arr) < start then None
       else Some (list_all (\<lambda>v. \<not> \<bar>v\<bar> \<le> threshold) (drop (nat start) arr)))"

definition GetBestPrice :: "Book list \<Rightarrow> float64" where
  "GetBestPrice book = (if 0 < length book then bk_Price (book ! (length book - 1)) else 0)"

definition GetOrderRemainingSize :: "string \<Rightarrow> side \<Rightarrow> (string, OrderReservation) gomap \<Rightarrow> float64" where
  "GetOrderRemainingSize tokenId sd os =
     fold (\<lambda>(k, r) rs. if or_Side r = sd \<and> 0 < or_RemainingSize r \<and> or_TokenID r = tokenId
             then rs + or_RemainingSize r else rs) os 0"

section \<open>The strategy\<close>

record StrategyConfig =
  sc_TimeLeftSec :: int
  sc_MinInPrice :: float64
  sc_InPrice :: float64
  sc_InSize :: float64
  sc_MinZ :: float64
  sc_ZAgo :: int
  sc_MarketQueueCap :: int

record Strategy =
  sg_markets :: "SlugMarket QueueMap"
  sg_config :: StrategyConfig

definition DefaultStrategyConfig :: StrategyConfig where
  "DefaultStrategyConfig =
     \<lparr>sc_TimeLeftSec = 240, sc_MinInPrice = f64 (4 / 10), sc_InPrice = f64 (35 / 100), sc_InSize = f64 5,
      sc_MinZ = f64 (23 / 10), sc_ZAgo = 5, sc_MarketQueueCap = 0\<rparr>"

text \<open>\<open>sub\<close> is the section of the configuration file when there is one: what
  \<^verbatim>\<open>Unmarshal\<close> makes of the defaults and the error it returns.  A decoding error leaves what
  was decoded.\<close>

definition strategyInit :: "(StrategyConfig \<Rightarrow> StrategyConfig \<times> goerror option) option \<Rightarrow> Strategy option" where
  "strategyInit sub =
    (let sc = DefaultStrategyConfig;
         sc = (case sub of None \<Rightarrow> sc | Some Unmarshal \<Rightarrow> fst (Unmarshal sc));
         capacity = (if sc_MarketQueueCap sc \<le> 0 then 3 else sc_MarketQueueCap sc)
     in map_option (\<lambda>q. \<lparr>sg_markets = q, sg_config = sc\<rparr>) (NewQueueMap capacity))"

definition zeroIntent :: OrderIntent where
  "zeroIntent = \<lparr>oi_Action = NoAction, oi_MarketID = [], oi_TokenID = [], oi_Price = 0, oi_Side = OtherSide [], oi_Size = 0,
     oi_IntentID = [], oi_OrderID = [], oi_Tokens = [], oi_OrderType = NoType\<rparr>"

definition cancelOf :: "string \<Rightarrow> OrderIntent" where
  "cancelOf oId = zeroIntent\<lparr>oi_Action := Cancel, oi_OrderID := oId\<rparr>"

definition orderOf :: "string \<Rightarrow> string \<Rightarrow> float64 \<Rightarrow> side \<Rightarrow> float64 \<Rightarrow> OrderIntent" where
  "orderOf marketID tokenID price sd sz =
     zeroIntent\<lparr>oi_MarketID := marketID, oi_TokenID := tokenID, oi_Price := price, oi_Side := sd, oi_Size := sz\<rparr>"

definition strategyOnExecution :: "ExecutionEvent \<Rightarrow> Snapshot \<Rightarrow> Strategy \<Rightarrow> OrderIntent list" where
  "strategyOnExecution ev snap s =
    (if ev_Status ev = Rejected \<and> ev_Reason ev = ExecutionReasonTradeFailed
     then (case qmGet (ev_MarketID ev) (sg_markets s) of
             None \<Rightarrow> []
           | Some info \<Rightarrow>
               (let tokenKeys = sm_TokenIDs info in
                if length tokenKeys < 2 then []
                else
                  let cancelId = (if tokenKeys ! 0 = ev_TokenID ev then tokenKeys ! 1 else tokenKeys ! 0) in
                  if cancelId \<noteq> []
                  then (let ins = map cancelOf (BuildCancelIntent cancelId (sn_Orders snap)) in
                        case map_of (sn_Tokens snap) cancelId of
                          None \<Rightarrow> ins
                        | Some pos \<Rightarrow>
                            (if 0 < tp_Available pos
                             then ins @ [orderOf (ev_MarketID ev) cancelId (sc_InPrice (sg_config s)) SELL (tp_Available pos)]
                             else ins))
                  else []))
     else [])"

definition strategyOnMarket :: "'j marketLib \<Rightarrow> 'j \<Rightarrow> Observation \<Rightarrow> Strategy \<Rightarrow> Strategy \<times> OrderIntent list" where
  "strategyOnMarket L obj ob s =
    (if obs_TimeLeftSec ob < sc_TimeLeftSec (sg_config s) then (s, [])
     else
       let okPrice = fold (\<lambda>(k, v) okPrice. if tok_AskPrice v < sc_MinInPrice (sg_config s) then False else okPrice)
             (obs_Tokens ob) True in
       if \<not> okPrice then (s, [])
       else
         let s = (case ParseSlugMarket L obj of
                    Inl err \<Rightarrow> s
                  | Inr sm \<Rightarrow> s\<lparr>sg_markets := qmAdd (obs_MarketID ob) sm (sg_markets s)\<rparr>)
         in (s, map (\<lambda>(k, t). orderOf (obs_MarketID ob) (tok_Id t) (sc_InPrice (sg_config s)) BUY (sc_InSize (sg_config s)))
                  (obs_Tokens ob)))"

definition featFloat :: "(string, feature) gomap \<Rightarrow> string \<Rightarrow> float64 \<times> bool" where
  "featFloat m k = (case map_of m k of Some (FeatFloat x) \<Rightarrow> (x, True) | _ \<Rightarrow> (0, False))"

definition featFloats :: "(string, feature) gomap \<Rightarrow> string \<Rightarrow> float64 list" where
  "featFloats m k = (case map_of m k of Some (FeatFloats xs) \<Rightarrow> xs | _ \<Rightarrow> [])"

definition zeroToken :: Token where
  "zeroToken = newToken []"

text \<open>The stop loss of one side: sell the position in \<open>losing\<close> at the market price and cancel
  the orders on \<open>winning\<close>.\<close>

definition stopLoss :: "priceLib \<Rightarrow> Observation \<Rightarrow> Snapshot \<Rightarrow> Token \<Rightarrow> Token \<Rightarrow> TokenPosition \<Rightarrow> OrderIntent list" where
  "stopLoss P ob snap losing winning pos =
    (if 0 < tp_Available pos
     then (case obs_GetOrderBook ob (tok_Id losing) of
             None \<Rightarrow> []
           | Some orderbook \<Rightarrow>
               (case CalculateMarketPrice P orderbook SELL (tp_Available pos) MARKET_FAK of
                  Inl err \<Rightarrow> []
                | Inr price \<Rightarrow>
                    orderOf (obs_MarketID ob) (tok_Id losing) price SELL (tp_Available pos) #
                    map cancelOf (BuildCancelIntent (tok_Id winning) (sn_Orders snap))))
     else [])"

definition strategyOnBook :: "priceLib \<Rightarrow> Observation \<Rightarrow> Snapshot \<Rightarrow> Strategy \<Rightarrow> OrderIntent list option" where
  "strategyOnBook P ob snap s =
    (case qmGet (obs_MarketID ob) (sg_markets s) of
       None \<Rightarrow> Some []
     | Some _ \<Rightarrow>
       (let (openPrice, ok) = featFloat (obs_Features ob) ''openPrice'' in
        if \<not> ok \<or> openPrice \<le> 0 then Some []
        else
          let latestPrice = fst (featFloat (obs_Features ob) ''latestPrice'');
              latestZ = fst (featFloat (obs_Features ob) ''latestZ'');
              zWindows = featFloats (obs_Features ob) ''zWindows''
          in if 5 < obs_TimeLeftSec ob
             then (if length (obs_TokenIds ob) < 2 then None
                   else
                     let upToken = gget zeroToken (obs_Tokens ob) (obs_TokenIds ob ! 0);
                         downToken = gget zeroToken (obs_Tokens ob) (obs_TokenIds ob ! 1);
                         upPos = map_of (sn_Tokens snap) (tok_Id upToken);
                         downPos = map_of (sn_Tokens snap) (tok_Id downToken)
                     in case LastNGreaterThan zWindows (sc_ZAgo (sg_config s)) (sc_MinZ (sg_config s)) of
                          None \<Rightarrow> None
                        | Some lnt \<Rightarrow>
                            (if sc_MinZ (sg_config s) < \<bar>latestZ\<bar> \<and> lnt
                             then (if openPrice \<le> latestPrice
                                   then (case (upPos, downPos) of
                                           (None, Some pos) \<Rightarrow> Some (stopLoss P ob snap downToken upToken pos)
                                         | _ \<Rightarrow> Some [])
                                   else (case (upPos, downPos) of
                                           (Some pos, None) \<Rightarrow> Some (stopLoss P ob snap upToken downToken pos)
                                         | _ \<Rightarrow> Some []))
                             else Some []))
             else Some []))"

text \<open>\<^verbatim>\<open>OnUpdate\<close>: the market event carries its JSON (\<open>None\<close>: a payload of another type), an
  order book event only triggers the check, other events are ignored.\<close>

datatype 'j strategyInput = StratMarket "'j option" | StratBook | StratOther

fun strategyOnUpdate ::
  "priceLib \<Rightarrow> 'j marketLib \<Rightarrow> 'j strategyInput \<Rightarrow> Observation \<Rightarrow> Snapshot \<Rightarrow> Strategy \<Rightarrow> (Strategy \<times> OrderIntent list) option" where
  "strategyOnUpdate P L (StratMarket None) ob snap s = Some (s, [])"
| "strategyOnUpdate P L (StratMarket (Some obj)) ob snap s = Some (strategyOnMarket L obj ob s)"
| "strategyOnUpdate P L StratBook ob snap s = map_option (Pair s) (strategyOnBook P ob snap s)"
| "strategyOnUpdate P L StratOther ob snap s = Some (s, [])"

definition OnPositionExpiring :: "PositionExpiringEvent \<Rightarrow> Snapshot \<Rightarrow> Strategy \<Rightarrow> OrderIntent list" where
  "OnPositionExpiring ev snap s =
     fold (\<lambda>tk out.
       (let avail = gget 0 (pe_Available ev) tk;
            out = (if 0 < avail then out @ [orderOf (pe_MarketID ev) tk (sc_InPrice (sg_config s)) SELL avail] else out)
        in out @ map cancelOf (BuildCancelIntent tk (sn_Orders snap)))) (pe_TokenIDs ev) []"

section \<open>What the strategy asks for is backed by the ledger\<close>

lemma BuildCancelIntent_filter:
  "BuildCancelIntent t orders = map (\<lambda>(k, r). or_OrderID r) (filter (\<lambda>(k, r). or_TokenID r = t) orders)"
proof -
  have "fold (\<lambda>(k, r) ids. if or_TokenID r = t then ids @ [or_OrderID r] else ids) orders acc =
    acc @ map (\<lambda>(k, r). or_OrderID r) (filter (\<lambda>(k, r). or_TokenID r = t) orders)" for acc
    by (induction orders arbitrary: acc) auto
  then show ?thesis by (simp add: BuildCancelIntent_def)
qed

lemma cancelOf_fields [simp]: "oi_Action (cancelOf x) = Cancel" "oi_OrderID (cancelOf x) = x"
  by (simp_all add: cancelOf_def)

lemma orderOf_fields [simp]:
  "oi_Action (orderOf m t p sd sz) = NoAction" "oi_MarketID (orderOf m t p sd sz) = m"
  "oi_TokenID (orderOf m t p sd sz) = t" "oi_Price (orderOf m t p sd sz) = p"
  "oi_Side (orderOf m t p sd sz) = sd" "oi_Size (orderOf m t p sd sz) = sz"
  by (simp_all add: orderOf_def zeroIntent_def)

text \<open>An exit is backed when it cancels an order of the snapshot on the token \<open>c\<close>, or sells
  all that is available of the token \<open>t\<close>.\<close>

definition backed :: "Snapshot \<Rightarrow> string \<Rightarrow> string \<Rightarrow> OrderIntent \<Rightarrow> bool" where
  "backed snap c t i \<longleftrightarrow>
     (if oi_Action i = Cancel
      then \<exists>k r. (k, r) \<in> set (sn_Orders snap) \<and> or_OrderID r = oi_OrderID i \<and> or_TokenID r = c
      else oi_Action i = NoAction \<and> oi_Side i = SELL \<and> oi_TokenID i = t \<and>
        (\<exists>pos. map_of (sn_Tokens snap) t = Some pos \<and> oi_Size i = tp_Available pos \<and> 0 < tp_Available pos))"

lemma backed_cancels: "i \<in> set (map cancelOf (BuildCancelIntent c (sn_Orders snap))) \<Longrightarrow> backed snap c t i"
  by (auto 0 4 simp: BuildCancelIntent_filter backed_def)

lemma backed_sell:
  "map_of (sn_Tokens snap) t = Some pos \<Longrightarrow> 0 < tp_Available pos \<Longrightarrow> backed snap c t (orderOf m t p SELL (tp_Available pos))"
  by (simp add: backed_def)

text \<open>When a stop loss is due on \<open>losing\<close>: time is left, the last z-scores are all beyond the
  threshold, the price moved against the side, and it is the only side held.\<close>

definition stopDue :: "Observation \<Rightarrow> Snapshot \<Rightarrow> Strategy \<Rightarrow> string \<Rightarrow> string \<Rightarrow> bool" where
  "stopDue ob snap s losing winning \<longleftrightarrow>
     (let cfg = sg_config s; z = fst (featFloat (obs_Features ob) ''latestZ''); w = featFloats (obs_Features ob) ''zWindows'' in
      5 < obs_TimeLeftSec ob \<and> qmGet (obs_MarketID ob) (sg_markets s) \<noteq> None \<and>
      sc_MinZ cfg < \<bar>z\<bar> \<and> sc_ZAgo cfg \<le> int (length w) \<and> (\<forall>v \<in> set (lastN (nat (sc_ZAgo cfg)) w). sc_MinZ cfg < \<bar>v\<bar>) \<and>
      map_of (sn_Tokens snap) winning = None \<and> map_of (sn_Tokens snap) losing \<noteq> None)"

lemma LastNGreaterThan_spec:
  assumes "LastNGreaterThan arr n th = Some True"
  shows "0 \<le> n \<and> n \<le> int (length arr) \<and> (\<forall>v \<in> set (lastN (nat n) arr). th < \<bar>v\<bar>)"
proof -
  have n: "0 \<le> n" "n \<le> int (length arr)" using assms by (auto simp: LastNGreaterThan_def Let_def split: if_splits)
  then have "nat (int (length arr) - n) = length arr - nat n" by linarith
  with n assms show ?thesis
    by (auto simp: LastNGreaterThan_def Let_def lastN_def list_all_iff not_le split: if_splits)
qed

lemma stopLoss_cases:
  "stopLoss P ob snap losing winning pos = [] \<or> (0 < tp_Available pos \<and> (\<exists>price. stopLoss P ob snap losing winning pos =
     orderOf (obs_MarketID ob) (tok_Id losing) price SELL (tp_Available pos) #
     map cancelOf (BuildCancelIntent (tok_Id winning) (sn_Orders snap))))"
  by (auto simp: stopLoss_def split: option.split sum.split)

lemma stopLoss_backed:
  assumes "map_of (sn_Tokens snap) (tok_Id losing) = Some pos" and "i \<in> set (stopLoss P ob snap losing winning pos)"
  shows "backed snap (tok_Id winning) (tok_Id losing) i"
proof -
  from stopLoss_cases [of P ob snap losing winning pos] assms(2) obtain price where "0 < tp_Available pos"
    and i: "i = orderOf (obs_MarketID ob) (tok_Id losing) price SELL (tp_Available pos) \<or>
      i \<in> set (map cancelOf (BuildCancelIntent (tok_Id winning) (sn_Orders snap)))"
    by fastforce
  then show ?thesis using backed_sell [OF assms(1)] backed_cancels by blast
qed

lemma strategyOnBook_stop:
  assumes "strategyOnBook P ob snap s = Some ins" and "ins \<noteq> []"
  shows "\<exists>losing winning :: Token. stopDue ob snap s (tok_Id losing) (tok_Id winning) \<and>
    {losing, winning} = {gget zeroToken (obs_Tokens ob) (obs_TokenIds ob ! 0), gget zeroToken (obs_Tokens ob) (obs_TokenIds ob ! 1)} \<and>
    (\<exists>pos. map_of (sn_Tokens snap) (tok_Id losing) = Some pos \<and> ins = stopLoss P ob snap losing winning pos)"
proof -
  let ?up = "gget zeroToken (obs_Tokens ob) (obs_TokenIds ob ! 0)"
  let ?down = "gget zeroToken (obs_Tokens ob) (obs_TokenIds ob ! 1)"
  let ?w = "featFloats (obs_Features ob) ''zWindows''"
  have m: "qmGet (obs_MarketID ob) (sg_markets s) \<noteq> None" and t: "5 < obs_TimeLeftSec ob"
    using assms by (auto simp: strategyOnBook_def Let_def split: option.splits if_splits prod.splits)
  have z: "LastNGreaterThan ?w (sc_ZAgo (sg_config s)) (sc_MinZ (sg_config s)) = Some True"
    and mz: "sc_MinZ (sg_config s) < \<bar>fst (featFloat (obs_Features ob) ''latestZ'')\<bar>"
    using assms by (auto simp: strategyOnBook_def Let_def split: option.splits if_splits prod.splits)
  consider pos where "map_of (sn_Tokens snap) (tok_Id ?up) = None" "map_of (sn_Tokens snap) (tok_Id ?down) = Some pos"
      "ins = stopLoss P ob snap ?down ?up pos"
    | pos where "map_of (sn_Tokens snap) (tok_Id ?down) = None" "map_of (sn_Tokens snap) (tok_Id ?up) = Some pos"
      "ins = stopLoss P ob snap ?up ?down pos"
    using assms by (auto simp: strategyOnBook_def Let_def split: option.splits if_splits prod.splits)
  then show ?thesis
  proof cases
    case 1
    with m t mz LastNGreaterThan_spec [OF z] show ?thesis by (intro exI [of _ ?down] exI [of _ ?up]) (auto simp: stopDue_def Let_def)
  next
    case 2
    with m t mz LastNGreaterThan_spec [OF z] show ?thesis by (intro exI [of _ ?up] exI [of _ ?down]) (auto simp: stopDue_def Let_def)
  qed
qed


section \<open>An expiring market is closed out\<close>

definition closeOut :: "string \<Rightarrow> float64 \<Rightarrow> (string \<Rightarrow> float64) \<Rightarrow> (string, OrderReservation) gomap \<Rightarrow> string \<Rightarrow> OrderIntent list" where
  "closeOut m price avail orders tk =
     (if 0 < avail tk then [orderOf m tk price SELL (avail tk)] else []) @ map cancelOf (BuildCancelIntent tk orders)"

lemma OnPositionExpiring_concat:
  "OnPositionExpiring ev snap s =
   concat (map (closeOut (pe_MarketID ev) (sc_InPrice (sg_config s)) (gget 0 (pe_Available ev)) (sn_Orders snap)) (pe_TokenIDs ev))"
proof -
  have "fold (\<lambda>tk out.
       (let avail = gget 0 (pe_Available ev) tk;
            out = (if 0 < avail then out @ [orderOf (pe_MarketID ev) tk (sc_InPrice (sg_config s)) SELL avail] else out)
        in out @ map cancelOf (BuildCancelIntent tk (sn_Orders snap)))) ts acc =
    acc @ concat (map (closeOut (pe_MarketID ev) (sc_InPrice (sg_config s)) (gget 0 (pe_Available ev)) (sn_Orders snap)) ts)" for ts acc
    by (induction ts arbitrary: acc) (simp_all add: Let_def closeOut_def)
  then show ?thesis by (simp add: OnPositionExpiring_def)
qed

lemma closeOut_sells:
  "filter (\<lambda>i. oi_Action i \<noteq> Cancel) (concat (map (closeOut m price avail orders) ts)) =
   map (\<lambda>tk. orderOf m tk price SELL (avail tk)) (filter (\<lambda>tk. 0 < avail tk) ts)"
  by (induction ts) (simp_all add: closeOut_def comp_def)

lemma closeOut_cancels:
  "map oi_OrderID (filter (\<lambda>i. oi_Action i = Cancel) (concat (map (closeOut m price avail orders) ts))) =
   concat (map (\<lambda>tk. BuildCancelIntent tk orders) ts)"
  by (induction ts) (simp_all add: closeOut_def comp_def)

lemma cancelled_orders:
  "set (concat (map (\<lambda>tk. BuildCancelIntent tk orders) ts)) = or_OrderID ` {r. or_TokenID r \<in> set ts \<and> r \<in> snd ` set orders}"
proof -
  have "set (BuildCancelIntent tk orders) = or_OrderID ` {r. or_TokenID r = tk \<and> r \<in> snd ` set orders}" for tk
    unfolding BuildCancelIntent_filter by force
  then show ?thesis by auto
qed

lemma snapshotTokenAvailable_get:
  "tk \<in> set ts \<Longrightarrow> gget 0 (snapshotTokenAvailable ts s) tk = tp_Available (tokenPos s tk)"
proof -
  have "gget 0 (fold (\<lambda>tk out. gput tk (tp_Available (tokenPos s tk)) out) ts m) tk =
    (if tk \<in> set ts then tp_Available (tokenPos s tk) else gget 0 m tk)" for m
    by (induction ts arbitrary: m) auto
  then show "tk \<in> set ts \<Longrightarrow> ?thesis" by (simp add: snapshotTokenAvailable_def)
qed

text \<open>C37. The close-out of an expiring market is complete: for an event the expiry watch fires on
  the ledger, the strategy's answer to that ledger cancels exactly the orders on the market's
  tokens, and sells, for each token of which something is available, exactly that amount.\<close>

theorem expiry_closes_market:
  assumes "ev \<in> set (snd (checkExpiry clock warnBefore st))"
  shows "set (map oi_OrderID (filter (\<lambda>i. oi_Action i = Cancel) (OnPositionExpiring ev (Snapshot_of st) s))) =
      or_OrderID ` {r. or_TokenID r \<in> set (pe_TokenIDs ev) \<and> r \<in> snd ` set (st_orders st)} \<and>
    filter (\<lambda>i. oi_Action i \<noteq> Cancel) (OnPositionExpiring ev (Snapshot_of st) s) =
      map (\<lambda>tk. orderOf (pe_MarketID ev) tk (sc_InPrice (sg_config s)) SELL (tp_Available (tokenPos st tk)))
        (filter (\<lambda>tk. 0 < tp_Available (tokenPos st tk)) (pe_TokenIDs ev))"
proof -
  have "pe_Available ev = snapshotTokenAvailable (pe_TokenIDs ev) st"
    using assms by (auto simp: checkExpiry_def Let_def)
  then have get: "tk \<in> set (pe_TokenIDs ev) \<Longrightarrow> gget 0 (pe_Available ev) tk = tp_Available (tokenPos st tk)" for tk
    by (simp add: snapshotTokenAvailable_get)
  then have "filter (\<lambda>tk. 0 < gget 0 (pe_Available ev) tk) (pe_TokenIDs ev) =
    filter (\<lambda>tk. 0 < tp_Available (tokenPos st tk)) (pe_TokenIDs ev)" by (intro filter_cong) simp_all
  with get show ?thesis
    unfolding OnPositionExpiring_concat closeOut_cancels cancelled_orders closeOut_sells by (simp add: Snapshot_of_def)
qed

definition demoExpiry :: State where
  "demoExpiry = RegisterMarketExpiry ''m'' 1000 [''t'', ''u'']
     ((NewStateWithBalanceSync demoConfig)\<lparr>st_tokens := [(''t'', zeroTokenPosition\<lparr>tp_Available := f64 3\<rparr>)],
       st_orders := [(''o1'', \<lparr>or_OrderID = ''o1'', or_MarketID = ''m'', or_TokenID = ''u'', or_Side = BUY, or_Price = f64 (1/2),
         or_RemainingSize = 1, or_Reserved = f64 (1/2), or_ExternalOrigin = False\<rparr>)]\<rparr>)"

definition demoExpiryEvent :: PositionExpiringEvent where
  "demoExpiryEvent = \<lparr>pe_MarketID = ''m'', pe_EndTime = 1000, pe_TokenIDs = [''t'', ''u''],
     pe_Available = [(''t'', f64 3), (''u'', 0)]\<rparr>"

definition demoStrategy :: Strategy where
  "demoStrategy = the (strategyInit None)"

corollary expiry_closes_market_witness:
  "demoExpiryEvent \<in> set (snd (checkExpiry (unixEpoch * 1000000000) 1000000000 demoExpiry)) \<and>
   set (map oi_OrderID (filter (\<lambda>i. oi_Action i = Cancel) (OnPositionExpiring demoExpiryEvent (Snapshot_of demoExpiry) demoStrategy))) = {''o1''}"
proof
  show fired: "demoExpiryEvent \<in> set (snd (checkExpiry (unixEpoch * 1000000000) 1000000000 demoExpiry))"
    by (simp add: demoExpiryEvent_def demoExpiry_def checkExpiry_def RegisterMarketExpiry_def snapshotTokenAvailable_def
        expiryDue_def timeUnixMilli_def NewStateWithBalanceSync_def Let_def gget_def zeroTokenPosition_def unixEpoch_def)
  have "{r. or_TokenID r \<in> set (pe_TokenIDs demoExpiryEvent) \<and> r \<in> snd ` set (st_orders demoExpiry)} = snd ` set (st_orders demoExpiry)"
    by (auto simp: demoExpiryEvent_def demoExpiry_def RegisterMarketExpiry_def)
  with expiry_closes_market [OF fired, of demoStrategy]
  show "set (map oi_OrderID (filter (\<lambda>i. oi_Action i = Cancel) (OnPositionExpiring demoExpiryEvent (Snapshot_of demoExpiry) demoStrategy))) = {''o1''}"
    by (simp add: demoExpiry_def RegisterMarketExpiry_def)
qed

end
