(* ===== verification/Desk.thy ===== *)
theory Desk
  imports Strategy
begin

text \<open>
  The probability engine and the strategy together, as \<^verbatim>\<open>handleInputUpdate\<close> and
  \<^verbatim>\<open>handleExecutionAwareStrategy\<close> of \<^verbatim>\<open>runtime/event_handler.go\<close> drive them: an input
  event goes to the engine, and the strategy sees it only together with the observation the
  engine answers with.
\<close>

declare map_of_eq_Some_iff [simp del] Some_eq_map_of_iff [simp del]

section \<open>The joint state\<close>

type_synonym desk = "probEngine \<times> Strategy"

fun stratInput :: "'j probInput \<Rightarrow> 'j strategyInput" where
  "stratInput (MarketInput obj) = StratMarket obj"
| "stratInput (BookInput ob) = StratBook"
| "stratInput _ = StratOther"

text \<open>One input event: \<open>None\<close> is a panic of either.\<close>

definition deskStep ::
  "mathlib \<Rightarrow> 'j marketLib \<Rightarrow> priceLib \<Rightarrow> (nat \<Rightarrow> float64 \<times> float64) \<Rightarrow> time \<Rightarrow> 'j probInput \<Rightarrow> Snapshot \<Rightarrow> desk \<Rightarrow>
   (desk \<times> OrderIntent list) option" where
  "deskStep M L P prices now i snap d =
    (case probUpdate M L prices now i (fst d) of
       None \<Rightarrow> None
     | Some (e, None) \<Rightarrow> Some ((e, snd d), [])
     | Some (e, Some ob) \<Rightarrow>
         (case strategyOnUpdate P L (stratInput i) ob snap (snd d) of
            None \<Rightarrow> None
          | Some (s, ins) \<Rightarrow> Some ((e, s), ins)))"

definition deskExecution :: "time \<Rightarrow> ExecutionEvent \<Rightarrow> Snapshot \<Rightarrow> desk \<Rightarrow> OrderIntent list option" where
  "deskExecution now ev snap d =
    (case CurrentObservation now (fst d) of
       None \<Rightarrow> None
     | Some None \<Rightarrow> Some []
     | Some (Some ob) \<Rightarrow> Some (strategyOnExecution ev snap (snd d)))"

inductive desk_reachable :: "mathlib \<Rightarrow> 'j marketLib \<Rightarrow> priceLib \<Rightarrow> StrategyConfig \<Rightarrow> desk \<Rightarrow> bool" for M L P cfg where
  start: "NewProbEngine = Some e \<Longrightarrow> strategyInit sub = Some s \<Longrightarrow> sg_config s = cfg \<Longrightarrow> desk_reachable M L P cfg (e, s)"
| tick: "desk_reachable M L P cfg (e, s) \<Longrightarrow> desk_reachable M L P cfg (zTick e, s)"
| step: "desk_reachable M L P cfg d \<Longrightarrow> deskStep M L P prices now i snap d = Some (d', ins) \<Longrightarrow> desk_reachable M L P cfg d'"

lemma strategyOnUpdate_config: "strategyOnUpdate P L i ob snap s = Some (s', ins) \<Longrightarrow> sg_config s' = sg_config s"
  by (cases "(P, L, i, ob, snap, s)" rule: strategyOnUpdate.cases)
    (auto simp: strategyOnMarket_def Let_def split: if_splits sum.splits)

lemma desk_ok: "desk_reachable M L P cfg d \<Longrightarrow> pe_ok (fst d) \<and> sg_config (snd d) = cfg"
proof (induction rule: desk_reachable.induct)
  case (step d prices now i snap d' ins)
  from probUpdate_ok [of "fst d" M L prices now i] step strategyOnUpdate_config [of P L "stratInput i" _ snap "snd d"]
  show ?case by (auto simp: deskStep_def split: option.splits)
qed (simp_all add: new_ok zTick_ok)

section \<open>The pair never panics\<close>

lemma strategyOnBook_total:
  assumes "2 \<le> length (obs_TokenIds ob)" and "0 \<le> sc_ZAgo (sg_config s)"
  shows "\<exists>ins. strategyOnBook P ob snap s = Some ins"
  using assms by (auto simp: strategyOnBook_def Let_def LastNGreaterThan_def split: option.splits prod.splits)

lemma strategyOnUpdate_total:
  assumes "obs_ok ob" and "0 \<le> sc_ZAgo (sg_config s)"
  shows "\<exists>r. strategyOnUpdate P L i ob snap s = Some r"
  using assms strategyOnBook_total [of ob s P snap]
  by (cases "(P, L, i, ob, snap, s)" rule: strategyOnUpdate.cases) (auto simp: obs_ok_def)

lemma deskStep_total:
  assumes "desk_reachable M L P cfg d" and "0 \<le> sc_ZAgo cfg"
  shows "\<exists>d' ins. deskStep M L P prices now i snap d = Some (d', ins)"
proof -
  have ok: "pe_ok (fst d)" "sg_config (snd d) = cfg" using desk_ok [OF assms(1)] by simp_all
  obtain e obs where u: "probUpdate M L prices now i (fst d) = Some (e, obs)"
    and obs: "case obs of None \<Rightarrow> True | Some ob \<Rightarrow> obs_ok ob"
    using probUpdate_ok [OF ok(1)] by blast
  show ?thesis
  proof (cases obs)
    case None
    with u show ?thesis by (simp add: deskStep_def)
  next
    case (Some ob)
    with strategyOnUpdate_total [of ob "snd d" P L "stratInput i" snap] obs ok(2) assms(2)
    obtain s ins where "strategyOnUpdate P L (stratInput i) ob snap (snd d) = Some (s, ins)" by auto
    with u Some show ?thesis by (simp add: deskStep_def)
  qed
qed

text \<open>C33. With a look-back that is not negative the engine and the strategy together never panic:
  in every reachable state each further event, whatever its payload, whatever the exchange
  answers and whatever the ledger holds, is handled, and so is each execution event.\<close>

theorem desk_never_panics:
  assumes "desk_reachable M L P cfg d" and "0 \<le> sc_ZAgo cfg"
  shows "(\<exists>d' ins. deskStep M L P prices now i snap d = Some (d', ins)) \<and> (\<exists>ins. deskExecution now ev snap d = Some ins)"
proof
  show "\<exists>d' ins. deskStep M L P prices now i snap d = Some (d', ins)" by (rule deskStep_total [OF assms])
  show "\<exists>ins. deskExecution now ev snap d = Some ins"
    using CurrentObservation_ok [of "fst d" now] desk_ok [OF assms(1)] by (auto simp: deskExecution_def split: option.splits)
qed

text \<open>A negative look-back, which the configuration does not exclude, panics.\<close>

lemma negative_lookback_panics: "n < 0 \<Longrightarrow> LastNGreaterThan arr n th = None"
  by (simp add: LastNGreaterThan_def Let_def)

section \<open>The entry condition is never met\<close>

lemma storeTokens_lookup:
  "map_of (fold (\<lambda>t m. gput t (newToken t) m) ts m) k = (if k \<in> set ts then Some (newToken k) else map_of m k)"
  by (induction ts arbitrary: m) (auto simp: update_conv')

text \<open>The observation that goes with a market event shows the tokens just stored, without
  prices.\<close>

lemma market_observation_blank:
  assumes "pe_ok e" and "onMarket L prices now obj e = Some (e', Some ob)"
  shows "obs_Tokens ob \<noteq> [] \<and> gall (\<lambda>k tk. tok_AskPrice tk = 0) (obs_Tokens ob)"
proof -
  obtain p where p: "prepareReset L prices obj = Some p"
    using assms(2) by (auto simp: onMarket_def Let_def split: option.splits if_splits)
  have ts: "2 \<le> length (rp_tokenIDs p)" using prepareReset_some [OF p] by simp
  let ?stored = "fold (\<lambda>t m. gput t (newToken t) m) (rp_tokenIDs p) (filter (\<lambda>(k, v). k \<in> set (rp_tokenIDs p)) (pe_tokens e))"
  have "list_all (ghas ?stored) (rp_tokenIDs p)" by (simp add: list_all_iff ghas_def storeTokens_lookup)
  from getTokensLoop_total [OF this, of "[]"] obtain r where r: "getTokensLoop (rp_tokenIDs p) ?stored [] = Some r" "gmap_ok r"
    "\<forall>k. map_of r k = (if k \<in> set (rp_tokenIDs p) then map_of ?stored k else None)" by auto
  have "obs_Tokens ob = r"
    using assms(2) p r(1)
    by (auto simp: onMarket_def Let_def resetForNewMarketLocked_def cleanupStoresExceptLocked_def storeTokens
        CurrentObservation_def getTokens_def features_filled split: if_splits)
  moreover have "gall (\<lambda>k tk. tok_AskPrice tk = 0) r"
    unfolding gall_iff [OF r(2)] using r(3) by (auto simp: storeTokens_lookup) (simp add: newToken_def)
  moreover have "map_of r (rp_tokenIDs p ! 0) \<noteq> None"
    using r(3) ts by (simp add: storeTokens_lookup) (intro nth_mem, linarith)
  ultimately show ?thesis by auto
qed

lemma blank_no_entry:
  assumes "obs_Tokens ob \<noteq> []" and "gall (\<lambda>k tk. tok_AskPrice tk = 0) (obs_Tokens ob)" and "0 < sc_MinInPrice (sg_config s)"
  shows "strategyOnMarket L obj ob s = (s, [])"
proof -
  have false: "fold (\<lambda>(k, v) ok. if tok_AskPrice v < c then False else ok) ts False = False" for c :: float64 and ts :: "(string \<times> Token) list"
    by (induction ts) auto
  have "\<not> fold (\<lambda>(k, v) ok. if tok_AskPrice v < sc_MinInPrice (sg_config s) then False else ok) (obs_Tokens ob) True"
    using assms false by (cases "obs_Tokens ob") auto
  then show ?thesis by (simp add: strategyOnMarket_def Let_def)
qed

lemma desk_silent_step:
  assumes "pe_ok e" and "qm_m (sg_markets s) = []" and "0 < sc_MinInPrice (sg_config s)"
    and "deskStep M L P prices now i snap (e, s) = Some (d', ins)"
  shows "ins = [] \<and> snd d' = s"
proof (cases "\<exists>obj. i = MarketInput (Some obj)")
  case True
  then obtain obj where i: "i = MarketInput (Some obj)" by blast
  show ?thesis
    using assms(4) market_observation_blank [OF assms(1), of L prices now obj] blank_no_entry [OF _ _ assms(3), of _ L obj]
    by (auto simp: i deskStep_def split: option.splits prod.splits)
next
  case False
  have "strategyOnBook P ob snap s = Some []" for ob using assms(2) by (simp add: strategyOnBook_def qmGet_def)
  with False assms(4) show ?thesis
    by (cases "(M, L, prices, now, i, e)" rule: probUpdate.cases)
      (auto simp: deskStep_def split: option.splits prod.splits)
qed

text \<open>C9. As wired, the strategy never trades: a market event reaches it only with the
  observation taken right after the reset, whose tokens have no prices yet, so with a positive
  \<^verbatim>\<open>min_in_price\<close> (the default is 0.4) the entry check always fails; no market is ever
  remembered, and every later event, order book or execution, is answered with no intent.\<close>

theorem strategy_never_enters:
  assumes "desk_reachable M L P cfg d" and "0 < sc_MinInPrice cfg"
  shows "(\<forall>d' ins. deskStep M L P prices now i snap d = Some (d', ins) \<longrightarrow> ins = []) \<and>
    (\<forall>ins. deskExecution now ev snap d = Some ins \<longrightarrow> ins = [])"
proof -
  have inv: "qm_m (sg_markets (snd d)) = []"
    using assms(1)
  proof (induction rule: desk_reachable.induct)
    case (start e sub s)
    then show ?case by (auto simp: strategyInit_def NewQueueMap_def Let_def split: if_splits)
  next
    case (step d prices now i snap d' ins)
    then show ?case
      using desk_silent_step [of "fst d" "snd d" M L P prices now i snap d' ins] desk_ok [OF step.hyps(1)] assms(2) by simp
  qed simp
  moreover have "pe_ok (fst d)" "sg_config (snd d) = cfg" using desk_ok [OF assms(1)] by simp_all
  ultimately have "deskStep M L P prices now i snap d = Some (d', ins) \<Longrightarrow> ins = []" for d' ins
    using desk_silent_step [of "fst d" "snd d" M L P prices now i snap d' ins] assms(2) by simp
  moreover have "strategyOnExecution ev snap (snd d) = []" using inv by (simp add: strategyOnExecution_def qmGet_def)
  ultimately show ?thesis by (auto simp: deskExecution_def split: option.splits)
qed

definition demoPrice :: priceLib where
  "demoPrice = \<lparr>pl_Buy = \<lambda>_ _ _. Inr 1, pl_Sell = \<lambda>_ _ _. Inr 1\<rparr>"

definition demoSnapshot :: Snapshot where
  "demoSnapshot = Snapshot_of demoExpiry"

definition demoCancelled :: ExecutionEvent where
  "demoCancelled = \<lparr>ev_OrderID = ''o1'', ev_ParentOrderID = [], ev_MarketID = ''x'', ev_TokenID = ''up'', ev_Price = 1, ev_Side = BUY,
     ev_RequestedSize = 1, ev_FilledSize = 0, ev_Status = Rejected, ev_Reason = ExecutionReasonTradeFailed, ev_At = 0\<rparr>"

lemma demo_desk_reachable: "desk_reachable demoMath demoLib demoPrice DefaultStrategyConfig (the NewProbEngine, demoStrategy)"
  by (rule desk_reachable.start [where sub = None])
    (simp_all add: NewProbEngine_def NewZScore_def NewRingBuffer_def demoStrategy_def strategyInit_def NewQueueMap_def
      Let_def DefaultStrategyConfig_def)

corollary desk_never_panics_witness:
  "\<exists>d' ins. deskStep demoMath demoLib demoPrice (\<lambda>_. (1, 1)) 0 (MarketInput (Some ())) demoSnapshot (the NewProbEngine, demoStrategy) =
     Some (d', ins)"
  using desk_never_panics [OF demo_desk_reachable, of "\<lambda>_. (1, 1)" 0 "MarketInput (Some ())" demoSnapshot demoCancelled]
  by (simp add: DefaultStrategyConfig_def)

corollary strategy_never_enters_witness:
  "\<exists>d'. deskStep demoMath demoLib demoPrice (\<lambda>_. (1, 1)) 0 (MarketInput (Some ())) demoSnapshot (the NewProbEngine, demoStrategy) =
     Some (d', [])"
proof -
  obtain d' ins where s: "deskStep demoMath demoLib demoPrice (\<lambda>_. (1, 1)) 0 (MarketInput (Some ())) demoSnapshot
      (the NewProbEngine, demoStrategy) = Some (d', ins)"
    using deskStep_total [OF demo_desk_reachable] by (fastforce simp: DefaultStrategyConfig_def)
  have "0 < sc_MinInPrice DefaultStrategyConfig" unfolding DefaultStrategyConfig_def by code_simp
  with strategy_never_enters [OF demo_desk_reachable] s have "ins = []" by blast
  with s show ?thesis by blast
qed

end
