(* ===== verification/Logx.thy ===== *)
theory Logx
  imports Prelude
begin

text \<open>
  Package \<^verbatim>\<open>logx\<close>: the default log file, the files of single modules, and the shutdown
  (\<^verbatim>\<open>logx.go\<close>).  The state is what the package variables hold.  A writer is one file writer
  with its asynchronous wrapper: its file is the pair of directory and file name, \<open>aw_entries\<close> and
  \<open>aw_rotations\<close> are what was handed to it, and \<open>aw_inner\<close> counts the closes that reach the
  wrapped library writer.  A logger points to its writer by
  index; none is the logger of the library's zero value.  An entry carries the module it names and
  its text; which levels the library passes on, how it formats an entry and what it does on a
  rotation are not modelled.
\<close>

declare map_of_eq_Some_iff [simp del] Some_eq_map_of_iff [simp del]

section \<open>Data\<close>

record LoggingConfig =
  lc_Level :: string
  lc_Dir :: string
  lc_Filename :: string
  lc_MaxSizeMB :: int
  lc_MaxBackups :: int
  lc_LocalTime :: bool
  lc_TimeFormat :: string
  lc_AsyncChannelSize :: nat
  lc_DiscardOnFull :: bool
  lc_EnableCaller :: bool
  lc_ModuleFiles :: "(string, string) gomap"

definition DefaultConfig :: LoggingConfig where
  "DefaultConfig =
     \<lparr>lc_Level = ''info'', lc_Dir = ''./logs'', lc_Filename = ''polypilot.log'', lc_MaxSizeMB = 256, lc_MaxBackups = 14,
      lc_LocalTime = False, lc_TimeFormat = ''20060102'', lc_AsyncChannelSize = 16384, lc_DiscardOnFull = False,
      lc_EnableCaller = False, lc_ModuleFiles = []\<rparr>"

datatype logLevel = TraceLevel | DebugLevel | InfoLevel | WarnLevel | ErrorLevel | FatalLevel | PanicLevel

record asyncWriter =
  aw_Dir :: string
  aw_Filename :: string
  aw_MaxSize :: int
  aw_MaxBackups :: int
  aw_closed :: bool
  aw_inner :: nat
  aw_rotations :: nat
  aw_entries :: "(string \<times> string) list"

record logger =
  lg_Level :: logLevel
  lg_Caller :: int
  lg_Writer :: "nat option"

record logState =
  ls_writers :: "asyncWriter list"
  ls_default :: logger
  ls_closer :: "nat option"
  ls_moduleCache :: "(string, logger) gomap"
  ls_moduleWriters :: "(string, nat \<times> logger) gomap"
  ls_moduleFiles :: "(string, string) gomap"
  ls_initOpts :: LoggingConfig
  ls_inited :: bool

section \<open>Levels\<close>

definition lower_char :: "char \<Rightarrow> char" where
  "lower_char c = (let n = (of_char c :: nat) in if 65 \<le> n \<and> n \<le> 90 then char_of (n + 32) else c)"

definition parseLevel :: "string \<Rightarrow> logLevel" where
  "parseLevel level =
    (let s = map lower_char (TrimSpace level) in
     if s = ''trace'' then TraceLevel
     else if s = ''debug'' then DebugLevel
     else if s = ''warn'' \<or> s = ''warning'' then WarnLevel
     else if s = ''error'' then ErrorLevel
     else if s = ''panic'' then PanicLevel
     else if s = ''fatal'' then FatalLevel
     else InfoLevel)"

definition boolToInt :: "bool \<Rightarrow> int" where
  "boolToInt v = (if v then 1 else 0)"

section \<open>Writers\<close>

definition buildLogger :: "string \<Rightarrow> string \<Rightarrow> LoggingConfig \<Rightarrow> logState \<Rightarrow> logState \<times> nat \<times> logger" where
  "buildLogger dir filename opt s =
    (let w = \<lparr>aw_Dir = dir, aw_Filename = filename, aw_MaxSize = lc_MaxSizeMB opt * 1024 * 1024,
              aw_MaxBackups = lc_MaxBackups opt, aw_closed = False, aw_inner = 0, aw_rotations = 0, aw_entries = []\<rparr>;
         i = length (ls_writers s)
     in (s\<lparr>ls_writers := ls_writers s @ [w]\<rparr>, i,
         \<lparr>lg_Level = parseLevel (lc_Level opt), lg_Caller = boolToInt (lc_EnableCaller opt), lg_Writer = Some i\<rparr>))"

definition WriteEntry :: "string \<times> string \<Rightarrow> asyncWriter \<Rightarrow> asyncWriter" where
  "WriteEntry entry w = (if aw_closed w then w else w\<lparr>aw_entries := aw_entries w @ [entry]\<rparr>)"

definition closeWriter :: "asyncWriter \<Rightarrow> asyncWriter" where
  "closeWriter w = (if aw_closed w then w else w\<lparr>aw_closed := True, aw_inner := aw_inner w + 1\<rparr>)"

definition onWriter :: "nat \<Rightarrow> (asyncWriter \<Rightarrow> asyncWriter) \<Rightarrow> logState \<Rightarrow> logState" where
  "onWriter i f s = s\<lparr>ls_writers := (ls_writers s)[i := f (ls_writers s ! i)]\<rparr>"

definition getOrCreateModuleLogger :: "string \<Rightarrow> string \<Rightarrow> logState \<Rightarrow> logState \<times> logger" where
  "getOrCreateModuleLogger name filename s =
    (case map_of (ls_moduleWriters s) name of
       Some (_, l) \<Rightarrow> (s, l)
     | None \<Rightarrow>
       (let (s, i, l) = buildLogger (lc_Dir (ls_initOpts s)) filename (ls_initOpts s) s
        in (s\<lparr>ls_moduleWriters := gput name (i, l) (ls_moduleWriters s)\<rparr>, l)))"

section \<open>Initialisation\<close>

definition normalizeOptions :: "LoggingConfig \<Rightarrow> LoggingConfig" where
  "normalizeOptions opt =
    (let opt = (if TrimSpace (lc_Level opt) = [] then opt\<lparr>lc_Level := ''info''\<rparr> else opt);
         opt = (if TrimSpace (lc_Dir opt) = [] then opt\<lparr>lc_Dir := ''./logs''\<rparr> else opt);
         opt = (if TrimSpace (lc_Filename opt) = [] then opt\<lparr>lc_Filename := ''polypilot.log''\<rparr> else opt);
         opt = (if lc_MaxSizeMB opt \<le> 0 then opt\<lparr>lc_MaxSizeMB := 256\<rparr> else opt);
         opt = (if lc_MaxBackups opt \<le> 0 then opt\<lparr>lc_MaxBackups := 14\<rparr> else opt)
     in if lc_AsyncChannelSize opt = 0 then opt\<lparr>lc_AsyncChannelSize := 16384\<rparr> else opt)"

text \<open>One entry of the walk over the cached module loggers.\<close>

definition upgradeModule :: "LoggingConfig \<Rightarrow> string \<Rightarrow> logState \<Rightarrow> logState" where
  "upgradeModule opt name s =
    (let (s, l) = (case map_of (lc_ModuleFiles opt) name of
                     Some filename \<Rightarrow> getOrCreateModuleLogger name filename s
                   | None \<Rightarrow> (s, ls_default s))
     in s\<lparr>ls_moduleCache := gput name l (ls_moduleCache s)\<rparr>)"

definition logInit :: "LoggingConfig \<Rightarrow> logState \<Rightarrow> logState" where
  "logInit opt s =
    (let opt = normalizeOptions opt;
         (s, i, l) = buildLogger (lc_Dir opt) (lc_Filename opt) opt s;
         s = s\<lparr>ls_default := l, ls_closer := Some i, ls_initOpts := opt, ls_moduleFiles := lc_ModuleFiles opt, ls_inited := True\<rparr>
     in fold (upgradeModule opt) (map fst (ls_moduleCache s)) s)"

definition Module :: "string \<Rightarrow> logState \<Rightarrow> logState \<times> string" where
  "Module name s =
    (let key = TrimSpace name;
         key = (if key = [] then ''default'' else key)
     in if ghas (ls_moduleCache s) key then (s, key)
        else
          let (s, log) = (if ls_inited s
                          then (case map_of (ls_moduleFiles s) key of
                                  Some filename \<Rightarrow> getOrCreateModuleLogger key filename s
                                | None \<Rightarrow> (s, ls_default s))
                          else (s, ls_default s))
          in (s\<lparr>ls_moduleCache := gput key log (ls_moduleCache s)\<rparr>, key))"

text \<open>An entry that the logging library passes on to the writer: through a logger, through the
  default logger, and through the logger of the module \<open>key\<close>.\<close>

definition logWith :: "logger \<Rightarrow> string \<times> string \<Rightarrow> logState \<Rightarrow> logState" where
  "logWith l entry s = (case lg_Writer l of None \<Rightarrow> s | Some i \<Rightarrow> onWriter i (WriteEntry entry) s)"

definition logDefault :: "string \<Rightarrow> logState \<Rightarrow> logState" where
  "logDefault entry s = logWith (ls_default s) ([], entry) s"

definition logEntry :: "string \<Rightarrow> string \<Rightarrow> logState \<Rightarrow> logState" where
  "logEntry key entry s = (case map_of (ls_moduleCache s) key of None \<Rightarrow> s | Some l \<Rightarrow> logWith l (key, entry) s)"

text \<open>One midnight of \<^verbatim>\<open>StartDailyRotate\<close>.\<close>

definition rotateWriter :: "asyncWriter \<Rightarrow> asyncWriter" where
  "rotateWriter w = w\<lparr>aw_rotations := aw_rotations w + 1\<rparr>"

definition dailyRotate :: "logState \<Rightarrow> logState" where
  "dailyRotate s =
    (let s = (case ls_closer s of None \<Rightarrow> s | Some i \<Rightarrow> onWriter i rotateWriter s)
     in fold (\<lambda>(name, i, l) s. onWriter i rotateWriter s) (ls_moduleWriters s) s)"

definition logClose :: "logState \<Rightarrow> logState" where
  "logClose s =
    (let s = fold (\<lambda>(name, i, l) s. onWriter i closeWriter s) (ls_moduleWriters s) s
     in case ls_closer s of None \<Rightarrow> s | Some i \<Rightarrow> onWriter i closeWriter s)"

definition emptyLog :: logState where
  "emptyLog = \<lparr>ls_writers = [], ls_default = \<lparr>lg_Level = TraceLevel, lg_Caller = 0, lg_Writer = None\<rparr>, ls_closer = None,
     ls_moduleCache = [], ls_moduleWriters = [], ls_moduleFiles = [], ls_initOpts = DefaultConfig, ls_inited = False\<rparr>"

section \<open>Which file a module writes to\<close>

datatype logOp =
    LogInit LoggingConfig | LogModule string | LogEntry string string | LogDefault string | LogRotate | LogClose

fun logStep :: "logOp \<Rightarrow> logState \<Rightarrow> logState" where
  "logStep (LogInit opt) s = logInit opt s"
| "logStep (LogModule name) s = fst (Module name s)"
| "logStep (LogEntry key entry) s = logEntry key entry s"
| "logStep (LogDefault entry) s = logDefault entry s"
| "logStep LogRotate s = dailyRotate s"
| "logStep LogClose s = logClose s"

definition fileOf :: "logger \<Rightarrow> logState \<Rightarrow> (string \<times> string) option" where
  "fileOf l s = map_option (\<lambda>i. (aw_Dir (ls_writers s ! i), aw_Filename (ls_writers s ! i))) (lg_Writer l)"

text \<open>The file the options ask for.\<close>

definition wantedFile :: "LoggingConfig \<Rightarrow> string \<Rightarrow> string \<times> string" where
  "wantedFile opt key = (lc_Dir opt, case map_of (lc_ModuleFiles opt) key of Some f \<Rightarrow> f | None \<Rightarrow> lc_Filename opt)"

definition routed :: "LoggingConfig \<Rightarrow> logState \<Rightarrow> bool" where
  "routed opt s \<longleftrightarrow>
     ls_inited s \<and> ls_initOpts s = opt \<and> ls_moduleFiles s = lc_ModuleFiles opt \<and>
     (\<exists>i < length (ls_writers s). lg_Writer (ls_default s) = Some i \<and> ls_closer s = Some i \<and>
        fileOf (ls_default s) s = Some (lc_Dir opt, lc_Filename opt)) \<and>
     gall (\<lambda>k (i, l). lg_Writer l = Some i \<and> i < length (ls_writers s) \<and> map_of (lc_ModuleFiles opt) k \<noteq> None \<and>
        fileOf l s = Some (wantedFile opt k)) (ls_moduleWriters s)"

definition cacheRouted :: "LoggingConfig \<Rightarrow> string \<Rightarrow> logState \<Rightarrow> bool" where
  "cacheRouted opt k s \<longleftrightarrow> (\<exists>l i. map_of (ls_moduleCache s) k = Some l \<and> lg_Writer l = Some i \<and>
     i < length (ls_writers s) \<and> fileOf l s = Some (wantedFile opt k))"

lemma onWriter_file:
  assumes "\<And>w. aw_Dir (f w) = aw_Dir w \<and> aw_Filename (f w) = aw_Filename w"
  shows "fileOf l (onWriter i f s) = fileOf l s"
proof -
  have "aw_Dir ((ls_writers s)[i := f (ls_writers s ! i)] ! j) = aw_Dir (ls_writers s ! j) \<and>
    aw_Filename ((ls_writers s)[i := f (ls_writers s ! i)] ! j) = aw_Filename (ls_writers s ! j)" for j
    using assms by (cases "i < length (ls_writers s)"; cases "i = j") (simp_all add: not_less list_update_beyond)
  then show ?thesis by (simp add: fileOf_def onWriter_def cong: map_option_cong)
qed

lemma onWriter_frame [simp]:
  "length (ls_writers (onWriter i f s)) = length (ls_writers s)" "ls_default (onWriter i f s) = ls_default s"
  "ls_closer (onWriter i f s) = ls_closer s" "ls_moduleCache (onWriter i f s) = ls_moduleCache s"
  "ls_moduleWriters (onWriter i f s) = ls_moduleWriters s" "ls_moduleFiles (onWriter i f s) = ls_moduleFiles s"
  "ls_initOpts (onWriter i f s) = ls_initOpts s" "ls_inited (onWriter i f s) = ls_inited s"
  by (simp_all add: onWriter_def)

lemma writer_ops_file:
  "aw_Dir (WriteEntry x w) = aw_Dir w \<and> aw_Filename (WriteEntry x w) = aw_Filename w"
  "aw_Dir (closeWriter w) = aw_Dir w \<and> aw_Filename (closeWriter w) = aw_Filename w"
  "aw_Dir (rotateWriter w) = aw_Dir w \<and> aw_Filename (rotateWriter w) = aw_Filename w"
  by (simp_all add: WriteEntry_def closeWriter_def rotateWriter_def)

text \<open>Changes that keep the routing: the writers keep their files and grow at the end.\<close>

definition keepsFiles :: "logState \<Rightarrow> logState \<Rightarrow> bool" where
  "keepsFiles s s' \<longleftrightarrow> length (ls_writers s) \<le> length (ls_writers s') \<and>
     (\<forall>l i. lg_Writer l = Some i \<longrightarrow> i < length (ls_writers s) \<longrightarrow> fileOf l s' = fileOf l s)"

lemma keepsFiles_trans: "keepsFiles s s' \<Longrightarrow> keepsFiles s' s'' \<Longrightarrow> keepsFiles s s''"
  by (fastforce simp: keepsFiles_def)

lemma keepsFiles_onWriter:
  "(\<And>w. aw_Dir (f w) = aw_Dir w \<and> aw_Filename (f w) = aw_Filename w) \<Longrightarrow> keepsFiles s (onWriter i f s)"
  by (simp add: keepsFiles_def onWriter_file)

lemma routed_keeps:
  assumes "routed opt s" and "keepsFiles s s'" and "ls_default s' = ls_default s" and "ls_closer s' = ls_closer s"
    and "ls_moduleWriters s' = ls_moduleWriters s" and "ls_moduleFiles s' = ls_moduleFiles s"
    and "ls_initOpts s' = ls_initOpts s" and "ls_inited s' = ls_inited s"
  shows "routed opt s'"
  using assms unfolding routed_def keepsFiles_def by (fastforce elim: gall_mono)

lemma cacheRouted_keeps:
  "cacheRouted opt k s \<Longrightarrow> keepsFiles s s' \<Longrightarrow> map_of (ls_moduleCache s') k = map_of (ls_moduleCache s) k \<Longrightarrow> cacheRouted opt k s'"
  unfolding cacheRouted_def keepsFiles_def by fastforce

lemma getOrCreate_routed:
  assumes "routed opt s" and "map_of (lc_ModuleFiles opt) k = Some f"
  shows "\<exists>s' l i. getOrCreateModuleLogger k f s = (s', l) \<and> routed opt s' \<and> keepsFiles s s' \<and>
    ls_moduleCache s' = ls_moduleCache s \<and> ls_default s' = ls_default s \<and>
    lg_Writer l = Some i \<and> i < length (ls_writers s') \<and> fileOf l s' = Some (wantedFile opt k)"
proof (cases "map_of (ls_moduleWriters s) k")
  case (Some w)
  obtain i l where w: "w = (i, l)" by (cases w)
  have "lg_Writer l = Some i" "i < length (ls_writers s)" "fileOf l s = Some (wantedFile opt k)"
    using assms(1) gall_lookup [of _ "ls_moduleWriters s" k "(i, l)"] Some w by (auto simp: routed_def)
  with Some w assms show ?thesis by (simp add: getOrCreateModuleLogger_def keepsFiles_def)
next
  case None
  let ?i = "length (ls_writers s)"
  let ?l = "snd (snd (buildLogger (lc_Dir opt) f opt s))"
  let ?s = "(fst (buildLogger (lc_Dir opt) f opt s))\<lparr>ls_moduleWriters := gput k (?i, ?l) (ls_moduleWriters s)\<rparr>"
  have b: "getOrCreateModuleLogger k f s = (?s, ?l)"
    using None assms(1) by (simp add: getOrCreateModuleLogger_def buildLogger_def routed_def Let_def)
  have keep: "keepsFiles s ?s" by (auto simp: keepsFiles_def buildLogger_def Let_def fileOf_def nth_append)
  have wf: "lg_Writer ?l = Some ?i" "fileOf ?l ?s = Some (wantedFile opt k)"
    using assms(2) by (simp_all add: buildLogger_def fileOf_def Let_def wantedFile_def)
  have "gall (\<lambda>k (i, l). lg_Writer l = Some i \<and> i < length (ls_writers ?s) \<and> map_of (lc_ModuleFiles opt) k \<noteq> None \<and>
      fileOf l ?s = Some (wantedFile opt k)) (ls_moduleWriters s)"
    using assms(1) keep by (auto simp: routed_def keepsFiles_def elim!: gall_mono)
  then have "gall (\<lambda>k (i, l). lg_Writer l = Some i \<and> i < length (ls_writers ?s) \<and> map_of (lc_ModuleFiles opt) k \<noteq> None \<and>
      fileOf l ?s = Some (wantedFile opt k)) (ls_moduleWriters ?s)"
    using wf assms(2) by (simp add: gall_put) (simp add: gall_put buildLogger_def Let_def)
  then have "routed opt ?s"
    using assms(1) keep by (fastforce simp: routed_def keepsFiles_def buildLogger_def Let_def)
  with b keep wf show ?thesis by (auto simp: buildLogger_def Let_def)
qed

text \<open>What the routing needs of a state with a cache: the loggers in it are routed.\<close>

definition logRouted :: "LoggingConfig \<Rightarrow> string set \<Rightarrow> logState \<Rightarrow> bool" where
  "logRouted opt K s \<longleftrightarrow> routed opt s \<and> (\<forall>k \<in> K. cacheRouted opt k s)"

lemma moduleLogger_routed:
  assumes "routed opt s"
  shows "\<exists>s' l i. (case map_of (lc_ModuleFiles opt) k of Some f \<Rightarrow> getOrCreateModuleLogger k f s | None \<Rightarrow> (s, ls_default s)) = (s', l) \<and>
    routed opt s' \<and> keepsFiles s s' \<and> ls_moduleCache s' = ls_moduleCache s \<and>
    lg_Writer l = Some i \<and> i < length (ls_writers s') \<and> fileOf l s' = Some (wantedFile opt k)"
proof (cases "map_of (lc_ModuleFiles opt) k")
  case None
  with assms show ?thesis by (auto simp: routed_def wantedFile_def keepsFiles_def)
next
  case (Some f)
  with getOrCreate_routed [OF assms Some] show ?thesis by auto
qed

lemma cachePut_routed:
  assumes "logRouted opt K s" and "keepsFiles s s'" and "routed opt s'" and "ls_moduleCache s' = ls_moduleCache s"
    and "lg_Writer l = Some i" and "i < length (ls_writers s')" and "fileOf l s' = Some (wantedFile opt k)"
  shows "logRouted opt (insert k K) (s'\<lparr>ls_moduleCache := gput k l (ls_moduleCache s')\<rparr>)"
proof -
  let ?s = "s'\<lparr>ls_moduleCache := gput k l (ls_moduleCache s')\<rparr>"
  have f: "fileOf m ?s = fileOf m s'" for m by (simp add: fileOf_def)
  have "routed opt ?s" using assms(3) by (rule routed_keeps) (simp_all add: keepsFiles_def f)
  moreover have "cacheRouted opt k ?s" using assms(5-7) by (simp add: cacheRouted_def f update_conv')
  moreover have "cacheRouted opt k' ?s" if "k' \<in> K" "k' \<noteq> k" for k'
  proof (rule cacheRouted_keeps)
    show "cacheRouted opt k' s" using assms(1) that by (simp add: logRouted_def)
    show "keepsFiles s ?s" using assms(2) by (simp add: keepsFiles_def f)
    show "map_of (ls_moduleCache ?s) k' = map_of (ls_moduleCache s) k'" using that assms(4) by (simp add: update_conv')
  qed
  ultimately show ?thesis by (auto simp: logRouted_def)
qed

lemma upgradeModule_routed:
  assumes "logRouted opt K s"
  shows "logRouted opt (insert k K) (upgradeModule opt k s) \<and>
    (\<forall>k'. ghas (ls_moduleCache (upgradeModule opt k s)) k' \<longleftrightarrow> k' = k \<or> ghas (ls_moduleCache s) k')"
proof -
  obtain s' l i where m: "(case map_of (lc_ModuleFiles opt) k of Some f \<Rightarrow> getOrCreateModuleLogger k f s | None \<Rightarrow> (s, ls_default s)) = (s', l)"
    and r: "routed opt s'" "keepsFiles s s'" "ls_moduleCache s' = ls_moduleCache s"
      "lg_Writer l = Some i" "i < length (ls_writers s')" "fileOf l s' = Some (wantedFile opt k)"
    using moduleLogger_routed [of opt s k] assms by (auto simp: logRouted_def)
  have "upgradeModule opt k s = s'\<lparr>ls_moduleCache := gput k l (ls_moduleCache s')\<rparr>"
    using m by (simp add: upgradeModule_def Let_def)
  with cachePut_routed [OF assms r(2,1,3-6)] r(3) show ?thesis by simp
qed

lemma upgradeModules_routed:
  "logRouted opt K s \<Longrightarrow> logRouted opt (set ks \<union> K) (fold (upgradeModule opt) ks s) \<and>
   (\<forall>k'. ghas (ls_moduleCache (fold (upgradeModule opt) ks s)) k' \<longleftrightarrow> k' \<in> set ks \<or> ghas (ls_moduleCache s) k')"
proof (induction ks arbitrary: s K)
  case (Cons k ks)
  from upgradeModule_routed [OF Cons.prems, of k] Cons.IH [of "insert k K" "upgradeModule opt k s"] show ?case
    by (auto simp: insert_commute Un_commute)
qed simp

lemma normalize_files [simp]: "lc_ModuleFiles (normalizeOptions opt) = lc_ModuleFiles opt"
  by (simp add: normalizeOptions_def Let_def)

text \<open>The first initialisation routes every module cached so far.\<close>

lemma logInit_routed:
  assumes "ls_moduleWriters s = []"
  shows "logRouted (normalizeOptions opt) {k. ghas (ls_moduleCache (logInit opt s)) k} (logInit opt s)"
proof -
  let ?o = "normalizeOptions opt"
  let ?b = "buildLogger (lc_Dir ?o) (lc_Filename ?o) ?o s"
  let ?s = "(fst ?b)\<lparr>ls_default := snd (snd ?b), ls_closer := Some (fst (snd ?b)), ls_initOpts := ?o,
     ls_moduleFiles := lc_ModuleFiles ?o, ls_inited := True\<rparr>"
  have init: "logInit opt s = fold (upgradeModule ?o) (map fst (ls_moduleCache ?s)) ?s"
    by (simp add: logInit_def Let_def split_beta)
  have "routed ?o ?s" using assms by (simp add: routed_def buildLogger_def Let_def fileOf_def)
  then have r: "logRouted ?o {} ?s" by (simp add: logRouted_def)
  have "ghas (ls_moduleCache ?s) k \<Longrightarrow> k \<in> set (map fst (ls_moduleCache ?s))" for k by (simp add: ghas_iff_mem)
  with upgradeModules_routed [OF r, of "map fst (ls_moduleCache ?s)"] show ?thesis
    unfolding init by (auto simp: logRouted_def)
qed

section \<open>Later operations keep the routing\<close>

definition moduleKey :: "string \<Rightarrow> string" where
  "moduleKey name = (if TrimSpace name = [] then ''default'' else TrimSpace name)"

lemma Module_routed:
  assumes "logRouted opt {k. ghas (ls_moduleCache s) k} s"
  shows "logRouted opt {k. ghas (ls_moduleCache (fst (Module name s))) k} (fst (Module name s)) \<and>
    snd (Module name s) = moduleKey name \<and> ghas (ls_moduleCache (fst (Module name s))) (moduleKey name)"
proof (cases "ghas (ls_moduleCache s) (moduleKey name)")
  case True
  then have "Module name s = (s, moduleKey name)" by (simp add: Module_def moduleKey_def Let_def)
  with assms True show ?thesis by simp
next
  case False
  let ?k = "moduleKey name"
  have ini: "ls_inited s" "ls_moduleFiles s = lc_ModuleFiles opt" using assms by (simp_all add: logRouted_def routed_def)
  obtain s' l i where m: "(case map_of (lc_ModuleFiles opt) ?k of Some f \<Rightarrow> getOrCreateModuleLogger ?k f s | None \<Rightarrow> (s, ls_default s)) = (s', l)"
    and r: "routed opt s'" "keepsFiles s s'" "ls_moduleCache s' = ls_moduleCache s"
      "lg_Writer l = Some i" "i < length (ls_writers s')" "fileOf l s' = Some (wantedFile opt ?k)"
    using moduleLogger_routed [of opt s ?k] assms by (auto simp: logRouted_def)
  have M: "Module name s = (s'\<lparr>ls_moduleCache := gput ?k l (ls_moduleCache s')\<rparr>, ?k)"
    using False m ini unfolding Module_def moduleKey_def Let_def by (auto split: if_splits option.splits)
  have "{k. ghas (gput ?k l (ls_moduleCache s')) k} = insert ?k {k. ghas (ls_moduleCache s) k}" using r(3) by auto
  with M cachePut_routed [OF assms r(2,1,3-6)] show ?thesis by simp
qed

lemma onWriter_routed:
  assumes "logRouted opt K s" and "\<And>w. aw_Dir (f w) = aw_Dir w \<and> aw_Filename (f w) = aw_Filename w"
  shows "logRouted opt K (onWriter i f s)"
proof -
  have keep: "keepsFiles s (onWriter i f s)" by (rule keepsFiles_onWriter) (rule assms(2))
  then have "routed opt (onWriter i f s)" using assms(1) by (auto simp: logRouted_def intro: routed_keeps)
  with keep assms(1) show ?thesis unfolding logRouted_def by (auto intro: cacheRouted_keeps)
qed

lemma onWriters_routed:
  assumes "\<And>w. aw_Dir (f w) = aw_Dir w \<and> aw_Filename (f w) = aw_Filename w"
  shows "logRouted opt K s \<Longrightarrow> logRouted opt K (fold (\<lambda>(name, i, l) s. onWriter i f s) ws s) \<and>
   ls_moduleCache (fold (\<lambda>(name, i, l) s. onWriter i f s) ws s) = ls_moduleCache s"
proof (induction ws arbitrary: s)
  case (Cons w ws)
  obtain n i l where w: "w = (n, i, l)" by (cases w)
  have "logRouted opt K (onWriter i f s)" using Cons.prems assms by (rule onWriter_routed)
  from Cons.IH [OF this] show ?case by (simp add: w)
qed simp

lemma logWith_routed: "logRouted opt K s \<Longrightarrow> logRouted opt K (logWith l entry s)"
  by (auto simp: logWith_def writer_ops_file intro!: onWriter_routed split: option.splits)

lemma logWith_cache [simp]: "ls_moduleCache (logWith l entry s) = ls_moduleCache s"
  by (simp add: logWith_def split: option.split)

lemma logStep_routed:
  assumes "logRouted opt {k. ghas (ls_moduleCache s) k} s" and "\<And>o'. op \<noteq> LogInit o'"
  shows "logRouted opt {k. ghas (ls_moduleCache (logStep op s)) k} (logStep op s)"
proof (cases op)
  case (LogModule name)
  with Module_routed [OF assms(1), of name] show ?thesis by simp
next
  case (LogEntry key entry)
  with assms(1) show ?thesis by (auto simp: logEntry_def intro!: logWith_routed split: option.splits)
next
  case (LogDefault entry)
  with assms(1) show ?thesis by (simp add: logDefault_def logWith_routed)
next
  case LogRotate
  define s1 where "s1 = (case ls_closer s of None \<Rightarrow> s | Some i \<Rightarrow> onWriter i rotateWriter s)"
  have s1: "logRouted opt {k. ghas (ls_moduleCache s) k} s1 \<and> ls_moduleCache s1 = ls_moduleCache s"
    unfolding s1_def using assms(1) by (auto simp: writer_ops_file intro!: onWriter_routed split: option.splits)
  have "logRouted opt {k. ghas (ls_moduleCache s) k} (fold (\<lambda>(name, i, l) s. onWriter i rotateWriter s) (ls_moduleWriters s1) s1) \<and>
    ls_moduleCache (fold (\<lambda>(name, i, l) s. onWriter i rotateWriter s) (ls_moduleWriters s1) s1) = ls_moduleCache s1"
    by (rule onWriters_routed) (simp_all add: writer_ops_file s1)
  with LogRotate s1 show ?thesis by (simp add: dailyRotate_def Let_def flip: s1_def)
next
  case LogClose
  with onWriters_routed [of closeWriter, OF _ assms(1), of "ls_moduleWriters s"] show ?thesis
    by (auto simp: logClose_def Let_def writer_ops_file intro!: onWriter_routed split: option.splits)
qed (use assms(2) in simp)

section \<open>Before the initialisation, and the shutdown\<close>

definition isInit :: "logOp \<Rightarrow> bool" where
  "isInit op = (case op of LogInit _ \<Rightarrow> True | _ \<Rightarrow> False)"

definition logRun :: "logOp list \<Rightarrow> logState \<Rightarrow> logState" where
  "logRun ops s = fold logStep ops s"

lemma onWriters_frame:
  "ls_inited (fold (\<lambda>(name, i, l) s. onWriter i f s) ws s) = ls_inited s \<and>
   ls_moduleWriters (fold (\<lambda>(name, i, l) s. onWriter i f s) ws s) = ls_moduleWriters s"
  by (induction ws arbitrary: s) (simp_all add: split_beta)

lemma uninitialised_step:
  assumes "\<not> isInit op" and "\<not> ls_inited s" and "ls_moduleWriters s = []"
  shows "\<not> ls_inited (logStep op s) \<and> ls_moduleWriters (logStep op s) = []"
  using assms by (cases op) (auto simp: isInit_def Module_def logEntry_def logDefault_def logWith_def dailyRotate_def onWriters_frame
      logClose_def Let_def split: option.splits)

lemma uninitialised_run:
  "list_all (\<lambda>op. \<not> isInit op) ops \<Longrightarrow> \<not> ls_inited s \<Longrightarrow> ls_moduleWriters s = [] \<Longrightarrow>
   \<not> ls_inited (logRun ops s) \<and> ls_moduleWriters (logRun ops s) = []"
  unfolding logRun_def by (induction ops arbitrary: s) (simp_all add: uninitialised_step)

lemma logRun_routed:
  "list_all (\<lambda>op. \<not> isInit op) ops \<Longrightarrow> logRouted opt {k. ghas (ls_moduleCache s) k} s \<Longrightarrow>
   logRouted opt {k. ghas (ls_moduleCache (logRun ops s)) k} (logRun ops s)"
  unfolding logRun_def
proof (induction ops arbitrary: s)
  case (Cons op ops)
  then have "\<And>o'. op \<noteq> LogInit o'" by (auto simp: isInit_def)
  with Cons logStep_routed [of opt s op] show ?case by simp
qed simp


definition demoLogOpts :: LoggingConfig where
  "demoLogOpts = DefaultConfig\<lparr>lc_ModuleFiles := [(''risk'', ''risk.log'')]\<rparr>"


end
