(* ===== verification/Config.thy ===== *)
theory Config
  imports Logx Core
begin

text \<open>
  Package \<^verbatim>\<open>config\<close>: the configuration, its defaults, the decryption of the secrets and the
  checks (\<^verbatim>\<open>config.go\<close>).  Reading and decoding the file (viper), the SDK's defaults and
  cipher, the contract table, the environment and the terminal are a parameter; of the SDK's
  configuration the record has the fields the program touches.
\<close>

section \<open>Data\<close>

record ApiKeyCreds =
  ac_Key :: string
  ac_Secret :: string
  ac_Passphrase :: string

record PolymarketConfig =
  pmc_OwnerKey :: string
  pmc_FunderAddress :: string
  pmc_ChainID :: int
  pmc_CLOBCreds :: "ApiKeyCreds option"
  pmc_BuilderCreds :: "ApiKeyCreds option"

record BalanceSyncSection =
  bsc_Enabled :: bool
  bsc_MinBalance :: float64
  bsc_Interval :: duration
  bsc_Epsilon :: float64
  bsc_CollateralToken :: string

record RiskConfig =
  rc_MaxDailyLoss :: float64
  rc_MaxExposurePerMarket :: float64
  rc_MaxSlippageBps :: int
  rc_MaxOpenOrders :: int
  rc_MarketCooldown :: duration

record ReconcileSection =
  rcs_Interval :: duration
  rcs_RetryBackoff :: "duration list"

record Config =
  cf_ChainRPCURL :: string
  cf_BalanceSync :: BalanceSyncSection
  cf_Logging :: LoggingConfig
  cf_Polymarket :: PolymarketConfig
  cf_Risk :: RiskConfig
  cf_Reconcile :: ReconcileSection
  cf_RedeemEnabled :: bool

datatype readResult = ReadOk | ReadNotFound | ReadFailed goerror

record configEnv =
  ce_ReadInConfig :: readResult
  ce_DefaultSDK :: "PolymarketConfig option"
  ce_Unmarshal :: "Config \<Rightarrow> goerror + Config"
  ce_CollateralToken :: "int \<Rightarrow> string"
  ce_EnvPassword :: string
  ce_ReadPassword :: "goerror + string"
  ce_Decrypt :: "string \<Rightarrow> string \<Rightarrow> goerror + string"

section \<open>Secrets\<close>

definition readDecryptPassword :: "configEnv \<Rightarrow> goerror + string" where
  "readDecryptPassword E =
    (let envPassword = TrimSpace (ce_EnvPassword E) in
     if envPassword \<noteq> [] then Inr envPassword
     else case ce_ReadPassword E of
       Inl err \<Rightarrow> Inl (ErrText (''read config decrypt password failed: '' @ errorText err))
     | Inr bytes \<Rightarrow>
         (let password = TrimSpace bytes in
          if password = [] then Inl (ErrText ''config decrypt password cannot be empty'') else Inr password))"

text \<open>The fields that hold secrets, with their labels, and the configuration with other values
  in them.\<close>

definition credTargets :: "string \<Rightarrow> ApiKeyCreds option \<Rightarrow> (string \<times> string) list" where
  "credTargets prefix creds =
    (case creds of
       None \<Rightarrow> []
     | Some c \<Rightarrow> [(prefix @ ''.key'', ac_Key c), (prefix @ ''.secret'', ac_Secret c), (prefix @ ''.passphrase'', ac_Passphrase c)])"

definition decryptTargets :: "PolymarketConfig \<Rightarrow> (string \<times> string) list" where
  "decryptTargets p =
     [(''sdk_config.polymarket.owner_key'', pmc_OwnerKey p)] @
     credTargets ''sdk_config.polymarket.clob_creds'' (pmc_CLOBCreds p) @
     credTargets ''sdk_config.polymarket.builder_creds'' (pmc_BuilderCreds p)"

definition setCreds :: "string list \<Rightarrow> ApiKeyCreds option \<Rightarrow> ApiKeyCreds option" where
  "setCreds vs creds =
    (case creds of
       None \<Rightarrow> None
     | Some c \<Rightarrow> Some (c\<lparr>ac_Key := vs ! 0, ac_Secret := vs ! 1, ac_Passphrase := vs ! 2\<rparr>))"

definition setTargets :: "string list \<Rightarrow> PolymarketConfig \<Rightarrow> PolymarketConfig" where
  "setTargets vs p =
    (let rest = tl vs; n = length (credTargets [] (pmc_CLOBCreds p))
     in p\<lparr>pmc_OwnerKey := hd vs, pmc_CLOBCreds := setCreds rest (pmc_CLOBCreds p),
          pmc_BuilderCreds := setCreds (drop n rest) (pmc_BuilderCreds p)\<rparr>)"

text \<open>The loop: the values afterwards, and the error that stopped it.\<close>

fun decryptLoop :: "(string \<Rightarrow> goerror + string) \<Rightarrow> (string \<times> string) list \<Rightarrow> string list \<times> goerror option" where
  "decryptLoop dec [] = ([], None)"
| "decryptLoop dec ((label, value) # ts) =
    (let raw = TrimSpace value in
     if raw = [] then (let (vs, err) = decryptLoop dec ts in (value # vs, err))
     else case dec raw of
       Inl err \<Rightarrow> (value # map snd ts, Some (ErrText (''decrypt '' @ label @ '' failed: '' @ errorText err)))
     | Inr decrypted \<Rightarrow> (let (vs, err) = decryptLoop dec ts in (TrimSpace decrypted # vs, err)))"

definition decryptSensitiveFields :: "configEnv \<Rightarrow> PolymarketConfig \<Rightarrow> PolymarketConfig \<times> goerror option" where
  "decryptSensitiveFields E p =
    (let targets = decryptTargets p in
     if \<not> list_ex (\<lambda>(label, value). TrimSpace value \<noteq> []) targets then (p, None)
     else case readDecryptPassword E of
       Inl err \<Rightarrow> (p, Some err)
     | Inr password \<Rightarrow>
         (let (vs, err) = decryptLoop (ce_Decrypt E password) targets in (setTargets vs p, err)))"

section \<open>Loading\<close>

definition zeroPolymarket :: PolymarketConfig where
  "zeroPolymarket = \<lparr>pmc_OwnerKey = [], pmc_FunderAddress = [], pmc_ChainID = 0, pmc_CLOBCreds = None, pmc_BuilderCreds = None\<rparr>"

definition defaultAppConfig :: "PolymarketConfig option \<Rightarrow> Config" where
  "defaultAppConfig sdk =
     \<lparr>cf_ChainRPCURL = ''https://polygon.drpc.org'',
      cf_BalanceSync = \<lparr>bsc_Enabled = False, bsc_MinBalance = 0, bsc_Interval = 0, bsc_Epsilon = 0, bsc_CollateralToken = []\<rparr>,
      cf_Logging = DefaultConfig,
      cf_Polymarket = (case sdk of None \<Rightarrow> zeroPolymarket | Some p \<Rightarrow> p),
      cf_Risk = \<lparr>rc_MaxDailyLoss = f64 20, rc_MaxExposurePerMarket = f64 100, rc_MaxSlippageBps = 200, rc_MaxOpenOrders = 20,
                 rc_MarketCooldown = 2 * second\<rparr>,
      cf_Reconcile = \<lparr>rcs_Interval = 30 * second, rcs_RetryBackoff = [second, 2 * second, 4 * second]\<rparr>,
      cf_RedeemEnabled = False\<rparr>"

definition TrimPrefix :: "string \<Rightarrow> string \<Rightarrow> string" where
  "TrimPrefix s prefix = (if take (length prefix) s = prefix then drop (length prefix) s else s)"

definition Load :: "configEnv \<Rightarrow> goerror + Config" where
  "Load E =
    (case ce_ReadInConfig E of
       ReadFailed err \<Rightarrow> Inl (ErrText (''read config.yaml failed: '' @ errorText err))
     | _ \<Rightarrow>
       (case ce_Unmarshal E (defaultAppConfig (ce_DefaultSDK E)) of
          Inl err \<Rightarrow> Inl (ErrText (''decode config failed: '' @ errorText err))
        | Inr cfg \<Rightarrow>
          (let bs = cf_BalanceSync cfg;
               cfg = (if bsc_CollateralToken bs = []
                      then cfg\<lparr>cf_BalanceSync := bs\<lparr>bsc_CollateralToken := ce_CollateralToken E (pmc_ChainID (cf_Polymarket cfg))\<rparr>\<rparr>
                      else cfg);
               (p, err) = decryptSensitiveFields E (cf_Polymarket cfg);
               cfg = cfg\<lparr>cf_Polymarket := p\<rparr>
           in case err of
             Some er \<Rightarrow> Inl er
           | None \<Rightarrow>
             (let p = (if pmc_OwnerKey p \<noteq> [] then p\<lparr>pmc_OwnerKey := TrimPrefix (TrimSpace (pmc_OwnerKey p)) ''0x''\<rparr> else p);
                  cfg = cfg\<lparr>cf_Polymarket := p\<rparr>
              in if pmc_FunderAddress p = [] then Inl (ErrText ''config: sdk_config.polymarket.funder_address is required'')
                 else if pmc_OwnerKey p = []
                 then Inl (ErrText ''config: sdk_config.polymarket.owner_key is required (encrypted or env)'')
                 else if pmc_ChainID p = 0 then Inl (ErrText ''config: sdk_config.polymarket.chain_id is required'')
                 else Inr cfg))))"

section \<open>Trimming\<close>

lemma dropWhile_fix: "xs = [] \<or> \<not> P (hd xs) \<Longrightarrow> dropWhile P xs = xs"
  by (cases xs) auto

lemma TrimSpace_idem [simp]: "TrimSpace (TrimSpace s) = TrimSpace s"
proof (cases "TrimSpace s = []")
  case False
  let ?a = "dropWhile is_space s"
  let ?b = "dropWhile is_space (rev ?a)"
  have t: "TrimSpace s = rev ?b" by (simp add: TrimSpace_def)
  then have ne: "?b \<noteq> []" using False by simp
  have "rev ?a = takeWhile is_space (rev ?a) @ ?b" by simp
  then have "?a = rev ?b @ rev (takeWhile is_space (rev ?a))" by (metis rev_append rev_rev_ident)
  then have "hd (rev ?b) = hd ?a" using ne by (metis hd_append2 rev_is_Nil_conv)
  moreover have "?a \<noteq> []" using ne by (metis dropWhile.simps(1) rev.simps(1))
  then have "\<not> is_space (hd ?a)" by (rule hd_dropWhile)
  ultimately have "dropWhile is_space (rev ?b) = rev ?b" by (simp add: dropWhile_fix)
  moreover have "dropWhile is_space ?b = ?b" using hd_dropWhile [OF ne] by (simp add: dropWhile_fix)
  ultimately show ?thesis unfolding t TrimSpace_def by simp
qed simp

section \<open>What a loaded configuration guarantees\<close>

text \<open>\<open>v'\<close> is the secret \<open>v\<close> of the file after loading.\<close>

definition opened :: "(string \<Rightarrow> goerror + string) \<Rightarrow> string \<Rightarrow> string \<Rightarrow> bool" where
  "opened dec v v' \<longleftrightarrow>
     (if TrimSpace v = [] then v' = v else \<exists>plain. dec (TrimSpace v) = Inr plain \<and> v' = TrimSpace plain)"

definition openedCreds :: "(string \<Rightarrow> goerror + string) \<Rightarrow> ApiKeyCreds option \<Rightarrow> ApiKeyCreds option \<Rightarrow> bool" where
  "openedCreds dec c c' \<longleftrightarrow>
     rel_option (\<lambda>a b. opened dec (ac_Key a) (ac_Key b) \<and> opened dec (ac_Secret a) (ac_Secret b) \<and>
       opened dec (ac_Passphrase a) (ac_Passphrase b)) c c'"

lemma decryptLoop_opened:
  "decryptLoop dec ts = (vs, None) \<Longrightarrow> list_all2 (\<lambda>(l, v) v'. opened dec v v') ts vs"
  by (induction ts arbitrary: vs)
    (auto simp: opened_def Let_def split: if_splits sum.splits prod.splits)

lemma decryptSensitiveFields_opened:
  assumes "decryptSensitiveFields E p = (p', None)" and "TrimSpace (pmc_OwnerKey p) \<noteq> []"
  shows "\<exists>pw. readDecryptPassword E = Inr pw \<and> opened (ce_Decrypt E pw) (pmc_OwnerKey p) (pmc_OwnerKey p') \<and>
    openedCreds (ce_Decrypt E pw) (pmc_CLOBCreds p) (pmc_CLOBCreds p') \<and>
    openedCreds (ce_Decrypt E pw) (pmc_BuilderCreds p) (pmc_BuilderCreds p') \<and>
    pmc_FunderAddress p' = pmc_FunderAddress p \<and> pmc_ChainID p' = pmc_ChainID p"
proof -
  have "list_ex (\<lambda>(label, value). TrimSpace value \<noteq> []) (decryptTargets p)"
    using assms(2) by (simp add: decryptTargets_def)
  then obtain pw vs where pw: "readDecryptPassword E = Inr pw" "decryptLoop (ce_Decrypt E pw) (decryptTargets p) = (vs, None)"
    and p': "p' = setTargets vs p"
    using assms(1) by (auto simp: decryptSensitiveFields_def Let_def split: sum.splits prod.splits)
  have "list_all2 (\<lambda>(l, v) v'. opened (ce_Decrypt E pw) v v') (decryptTargets p) vs"
    by (rule decryptLoop_opened) (rule pw(2))
  then show ?thesis
    using pw(1) unfolding p' openedCreds_def
    by (cases "pmc_CLOBCreds p"; cases "pmc_BuilderCreds p")
      (auto simp: decryptTargets_def credTargets_def setTargets_def setCreds_def list_all2_Cons1 Let_def)
qed

lemma decrypt_blank_owner:
  assumes "decryptSensitiveFields E p = (p', None)" and "TrimSpace (pmc_OwnerKey p) = []"
  shows "TrimSpace (pmc_OwnerKey p') = []"
proof (cases "list_ex (\<lambda>(label, value). TrimSpace value \<noteq> []) (decryptTargets p)")
  case False
  then have "p' = p" using assms(1) by (simp add: decryptSensitiveFields_def Let_def)
  with assms(2) show ?thesis by simp
next
  case True
  then obtain pw where pw: "readDecryptPassword E = Inr pw"
    using assms(1) by (cases "readDecryptPassword E") (simp_all add: decryptSensitiveFields_def Let_def)
  let ?r = "credTargets ''sdk_config.polymarket.clob_creds'' (pmc_CLOBCreds p) @
     credTargets ''sdk_config.polymarket.builder_creds'' (pmc_BuilderCreds p)"
  have "p' = setTargets (fst (decryptLoop (ce_Decrypt E pw) (decryptTargets p))) p"
    using True pw assms(1) by (simp add: decryptSensitiveFields_def Let_def split_beta)
  moreover have "decryptTargets p = (''sdk_config.polymarket.owner_key'', pmc_OwnerKey p) # ?r" by (simp add: decryptTargets_def)
  ultimately show ?thesis using assms(2) by (simp add: Let_def split_beta setTargets_def)
qed

text \<open>C28. A configuration that loads is usable and holds no ciphertext: there is a password, every
  secret of the decoded file that is not blank has been decrypted with it and trimmed, blank
  credentials are as they were, the owner key has lost its 0x prefix and is not empty, the funder
  address and the chain id are those of the file and set, and a collateral token was filled in
  where the file had none.\<close>

theorem loaded_config_usable:
  assumes "Load E = Inr cfg" and "ce_Unmarshal E (defaultAppConfig (ce_DefaultSDK E)) = Inr raw"
  shows "\<exists>pw key. readDecryptPassword E = Inr pw \<and>
    opened (ce_Decrypt E pw) (pmc_OwnerKey (cf_Polymarket raw)) key \<and>
    pmc_OwnerKey (cf_Polymarket cfg) = TrimPrefix key ''0x'' \<and> pmc_OwnerKey (cf_Polymarket cfg) \<noteq> [] \<and>
    openedCreds (ce_Decrypt E pw) (pmc_CLOBCreds (cf_Polymarket raw)) (pmc_CLOBCreds (cf_Polymarket cfg)) \<and>
    openedCreds (ce_Decrypt E pw) (pmc_BuilderCreds (cf_Polymarket raw)) (pmc_BuilderCreds (cf_Polymarket cfg)) \<and>
    pmc_FunderAddress (cf_Polymarket cfg) = pmc_FunderAddress (cf_Polymarket raw) \<and> pmc_FunderAddress (cf_Polymarket cfg) \<noteq> [] \<and>
    pmc_ChainID (cf_Polymarket cfg) = pmc_ChainID (cf_Polymarket raw) \<and> pmc_ChainID (cf_Polymarket cfg) \<noteq> 0 \<and>
    bsc_CollateralToken (cf_BalanceSync cfg) =
      (if bsc_CollateralToken (cf_BalanceSync raw) = [] then ce_CollateralToken E (pmc_ChainID (cf_Polymarket raw))
       else bsc_CollateralToken (cf_BalanceSync raw))"
proof -
  let ?p = "cf_Polymarket raw"
  obtain p' where d: "decryptSensitiveFields E ?p = (p', None)"
    and cfg: "pmc_OwnerKey (cf_Polymarket cfg) \<noteq> []" "pmc_FunderAddress p' \<noteq> []" "pmc_ChainID p' \<noteq> 0"
      "cf_Polymarket cfg = (if pmc_OwnerKey p' \<noteq> [] then p'\<lparr>pmc_OwnerKey := TrimPrefix (TrimSpace (pmc_OwnerKey p')) ''0x''\<rparr> else p')"
      "bsc_CollateralToken (cf_BalanceSync cfg) =
        (if bsc_CollateralToken (cf_BalanceSync raw) = [] then ce_CollateralToken E (pmc_ChainID ?p)
         else bsc_CollateralToken (cf_BalanceSync raw))"
    using assms by (auto simp: Load_def Let_def split: readResult.splits prod.splits option.splits if_splits)
  have key: "pmc_OwnerKey p' \<noteq> []" using cfg(1,4) by (auto split: if_splits)
  have "TrimSpace (pmc_OwnerKey ?p) \<noteq> []"
  proof
    assume "TrimSpace (pmc_OwnerKey ?p) = []"
    from decrypt_blank_owner [OF d this] cfg(1,4) key show False by (simp add: TrimPrefix_def)
  qed
  from decryptSensitiveFields_opened [OF d this] obtain pw where pw: "readDecryptPassword E = Inr pw"
    "opened (ce_Decrypt E pw) (pmc_OwnerKey ?p) (pmc_OwnerKey p')"
    "openedCreds (ce_Decrypt E pw) (pmc_CLOBCreds ?p) (pmc_CLOBCreds p')"
    "openedCreds (ce_Decrypt E pw) (pmc_BuilderCreds ?p) (pmc_BuilderCreds p')"
    "pmc_FunderAddress p' = pmc_FunderAddress ?p" "pmc_ChainID p' = pmc_ChainID ?p"
    by blast
  have "TrimSpace (pmc_OwnerKey p') = pmc_OwnerKey p'"
    using pw(2) \<open>TrimSpace (pmc_OwnerKey ?p) \<noteq> []\<close> by (auto simp: opened_def)
  with pw cfg key show ?thesis by (intro exI [of _ pw] exI [of _ "pmc_OwnerKey p'"]) simp
qed

text \<open>A cipher for the witness that drops the first letter.\<close>

definition demoEnv :: configEnv where
  "demoEnv = \<lparr>ce_ReadInConfig = ReadNotFound, ce_DefaultSDK = None,
     ce_Unmarshal = \<lambda>cfg. Inr (cfg\<lparr>cf_Polymarket := \<lparr>pmc_OwnerKey = ''#0xab '', pmc_FunderAddress = ''f'', pmc_ChainID = 137,
       pmc_CLOBCreds = Some \<lparr>ac_Key = ''#k'', ac_Secret = [], ac_Passphrase = ''#p''\<rparr>, pmc_BuilderCreds = None\<rparr>\<rparr>),
     ce_CollateralToken = \<lambda>_. ''usdc'', ce_EnvPassword = ''pw'', ce_ReadPassword = Inl (ErrText []),
     ce_Decrypt = \<lambda>pw raw. Inr (tl raw)\<rparr>"

lemma demo_loads: "\<exists>cfg. Load demoEnv = Inr cfg \<and> \<not> bsc_Enabled (cf_BalanceSync cfg)"
  by (simp add: Load_def demoEnv_def decryptSensitiveFields_def decryptTargets_def credTargets_def setTargets_def setCreds_def
      readDecryptPassword_def TrimPrefix_def TrimSpace_def is_space_def Let_def defaultAppConfig_def)

corollary loaded_config_usable_witness:
  "\<exists>cfg. Load demoEnv = Inr cfg \<and> pmc_FunderAddress (cf_Polymarket cfg) = ''f'' \<and>
     bsc_CollateralToken (cf_BalanceSync cfg) = ''usdc''"
proof -
  obtain cfg where l: "Load demoEnv = Inr cfg" using demo_loads by blast
  from loaded_config_usable [OF l] l show ?thesis by (fastforce simp: demoEnv_def defaultAppConfig_def)
qed

end
