(* ===== verification/Redeem.thy ===== *)
theory Redeem
  imports Runtime Books Config
begin

text \<open>
  The Polymarket client of the ledger (\<^verbatim>\<open>state/state_restore_pm.go\<close>): queries with their
  checks, and the redemption of resolved positions with what it does to the ledger.  The
  exchange's answers and the SDK's parsing of amounts are a parameter.
\<close>

declare map_of_eq_Some_iff [simp del] Some_eq_map_of_iff [simp del]

section \<open>Data\<close>

text \<open>\<open>pm_Client\<close> tells whether the SDK client is there.\<close>

record PolymarketStateClient =
  pm_Client :: bool
  pm_PositionLimits :: int
  pm_SDKConfig :: "PolymarketConfig option"
  pm_RedeemEnabled :: bool

record 'j redeemLib =
  rl_json :: "'j gjson"
  rl_Bool :: "'j \<Rightarrow> bool"
  rl_Int :: "'j \<Rightarrow> int"
  rl_ParseUnits :: "string \<Rightarrow> goerror + int"

record redeemBatch =
  rb_conditionIds :: "string list"
  rb_negRisks :: "bool list"
  rb_amounts :: "int list list"
  rb_tokenIDs :: "string list"

section \<open>Queries\<close>

definition defaultPositionsAPILimit :: int where
  "defaultPositionsAPILimit = 500"

definition positionsAPILimit :: "int \<Rightarrow> int" where
  "positionsAPILimit limit = (if 0 < limit then limit else defaultPositionsAPILimit)"

text \<open>\<open>search\<close> is the exchange's answer to a search for positions: address, whether only
  redeemable ones, limit.\<close>

definition GetPositions ::
  "(string \<Rightarrow> bool \<Rightarrow> int \<Rightarrow> goerror + 'j) \<Rightarrow> PolymarketStateClient option \<Rightarrow> goerror + 'j" where
  "GetPositions search client =
    (case client of
       None \<Rightarrow> Inl (ErrText ''polymarket client is nil'')
     | Some p \<Rightarrow>
       (if \<not> pm_Client p then Inl (ErrText ''polymarket client is nil'')
        else case pm_SDKConfig p of
          None \<Rightarrow> Inl (ErrText ''sdk config is nil'')
        | Some c \<Rightarrow>
          (if pmc_FunderAddress c = [] then Inl (ErrText ''FUNDERADDRESS is empty'')
           else search (pmc_FunderAddress c) False (positionsAPILimit (pm_PositionLimits p)))))"

section \<open>Redemption\<close>

definition positionToken :: "'j gjson \<Rightarrow> 'j \<Rightarrow> string" where
  "positionToken G position =
    (let get = (\<lambda>key. gj_String G (gj_Get G position key));
         tokenID = get ''asset'';
         tokenID = (if tokenID = [] then get ''assetId'' else tokenID);
         tokenID = (if tokenID = [] then get ''asset_id'' else tokenID)
     in if tokenID = [] then get ''tokenId'' else tokenID)"

fun redeemLoop :: "'j redeemLib \<Rightarrow> 'j list \<Rightarrow> redeemBatch \<Rightarrow> goerror + redeemBatch" where
  "redeemLoop L [] b = Inr b"
| "redeemLoop L (position # rest) b =
    (let G = rl_json L;
         b = b\<lparr>rb_conditionIds := rb_conditionIds b @ [gj_String G (gj_Get G position ''conditionId'')]\<rparr>;
         negRisk = rl_Bool L (gj_Get G position ''negativeRisk'');
         tokenID = positionToken G position;
         b = (if tokenID \<noteq> [] \<and> tokenID \<notin> set (rb_tokenIDs b) then b\<lparr>rb_tokenIDs := rb_tokenIDs b @ [tokenID]\<rparr> else b)
     in if negRisk
        then (case rl_ParseUnits L (gj_String G (gj_Get G position ''size'')) of
                Inl err \<Rightarrow> Inl err
              | Inr v \<Rightarrow>
                (let idx = rl_Int L (gj_Get G position ''outcomeIndex'') in
                 if idx < 0 \<or> 2 \<le> idx then Inl (ErrText (''invalid outcomeIndex: '' @ decimal idx))
                 else redeemLoop L rest (b\<lparr>rb_amounts := rb_amounts b @ [[0, 0][nat idx := v]],
                                            rb_negRisks := rb_negRisks b @ [negRisk]\<rparr>)))
        else redeemLoop L rest (b\<lparr>rb_amounts := rb_amounts b @ [[]], rb_negRisks := rb_negRisks b @ [negRisk]\<rparr>))"

text \<open>The call of the relayer is commented out in the source, so the answer of the search is the
  only one of the exchange; a missing configuration panics: \<open>None\<close>.\<close>

definition redeemOnce ::
  "'j redeemLib \<Rightarrow> (string \<Rightarrow> bool \<Rightarrow> int \<Rightarrow> goerror + 'j) \<Rightarrow> PolymarketStateClient \<Rightarrow> (goerror + string list) option" where
  "redeemOnce L search p =
    (if \<not> pm_Client p then Some (Inl (ErrText ''polymarket client is nil''))
     else case pm_SDKConfig p of
       None \<Rightarrow> None
     | Some c \<Rightarrow>
       (if pmc_FunderAddress c = [] then Some (Inl (ErrText ''FUNDERADDRESS is empty''))
        else if pmc_OwnerKey c = [] then Some (Inl (ErrText ''SIGNERKEY is empty''))
        else case search (pmc_FunderAddress c) True 500 of
          Inl err \<Rightarrow> Some (Inl err)
        | Inr positions \<Rightarrow>
          (case redeemLoop L (gj_Array (rl_json L) positions) \<lparr>rb_conditionIds = [], rb_negRisks = [], rb_amounts = [], rb_tokenIDs = []\<rparr> of
             Inl err \<Rightarrow> Some (Inl err)
           | Inr b \<Rightarrow> Some (Inr (if rb_conditionIds b = [] then [] else rb_tokenIDs b)))))"

definition onRedeemSuccess :: "string list \<Rightarrow> State \<Rightarrow> State" where
  "onRedeemSuccess tokenIDs s = (if tokenIDs = [] then s else ClearRedeemedPositions tokenIDs s)"

text \<open>One run of the loop of \<^verbatim>\<open>Redeem\<close>.\<close>

definition redeemRun ::
  "'j redeemLib \<Rightarrow> (string \<Rightarrow> bool \<Rightarrow> int \<Rightarrow> goerror + 'j) \<Rightarrow> PolymarketStateClient option \<Rightarrow> State \<Rightarrow> State option" where
  "redeemRun L search client s =
    (case client of
       None \<Rightarrow> Some s
     | Some p \<Rightarrow>
       (if \<not> pm_RedeemEnabled p then Some s
        else case redeemOnce L search p of
          None \<Rightarrow> None
        | Some (Inl err) \<Rightarrow> Some s
        | Some (Inr tokenIDs) \<Rightarrow> Some (if tokenIDs \<noteq> [] then onRedeemSuccess tokenIDs s else s)))"

section \<open>What a run does to the ledger\<close>

lemma redeemLoop_tokens:
  "redeemLoop L ps b = Inr b' \<Longrightarrow>
   set (rb_tokenIDs b') = set (rb_tokenIDs b) \<union> {t \<in> positionToken (rl_json L) ` set ps. t \<noteq> []} \<and>
   length (rb_conditionIds b') = length (rb_conditionIds b) + length ps \<and>
   (distinct (rb_tokenIDs b) \<longrightarrow> distinct (rb_tokenIDs b'))"
proof (induction ps arbitrary: b)
  case (Cons position ps)
  let ?t = "positionToken (rl_json L) position"
  obtain c where c: "redeemLoop L ps c = Inr b'" "length (rb_conditionIds c) = Suc (length (rb_conditionIds b))"
    "rb_tokenIDs c = (if ?t \<noteq> [] \<and> ?t \<notin> set (rb_tokenIDs b) then rb_tokenIDs b @ [?t] else rb_tokenIDs b)"
    using Cons.prems by (simp add: Let_def split: if_splits sum.splits)
  from Cons.IH [OF c(1)] c(2,3) show ?case by auto
qed simp

lemma clear_lookup:
  "map_of (fold (\<lambda>tokenID m. let k = TrimSpace tokenID in if k = [] then m else gdel k m) ids m) t =
   (if t \<noteq> [] \<and> t \<in> TrimSpace ` set ids then None else map_of m t)"
  by (induction ids arbitrary: m) (auto simp: Let_def delete_conv')

lemma clear_redeemed:
  "map_of (st_tokens (ClearRedeemedPositions ids s)) t = (if t \<noteq> [] \<and> t \<in> TrimSpace ` set ids then None else map_of (st_tokens s) t)"
  using clear_lookup [of ids "st_tokens s" t] by (auto simp: ClearRedeemedPositions_def)

lemma clear_redeemed_frame:
  "st_orders (ClearRedeemedPositions ids s) = st_orders s" "st_provisional (ClearRedeemedPositions ids s) = st_provisional s"
  "st_balance (ClearRedeemedPositions ids s) = st_balance s"
  by (simp_all add: ClearRedeemedPositions_def)

lemma gsum_member:
  "map_of m k = Some v \<Longrightarrow> gall (\<lambda>k v. 0 \<le> f v) m \<Longrightarrow> f v \<le> gsum f (m :: ('k, 'v) gomap)" for f :: "'v \<Rightarrow> rat"
  by (induction m) (auto intro: add_increasing add_increasing2 gsum_nonneg split: if_splits)

lemma committed_order:
  assumes "wf_state s" and "map_of (st_orders s) k = Some r" and "or_Side r = SELL" and "or_TokenID r = tok"
  shows "rval (or_Reserved r) \<le> committed (Token tok) s"
proof -
  let ?f = "\<lambda>r. weight (Token tok) (or_Side r) (or_TokenID r) (or_Reserved r)"
  have "gall (\<lambda>k r. 0 \<le> ?f r) (st_orders s)"
    using assms(1) by (auto simp: wf_state_def order_ok_def weight_nonneg elim!: gall_mono)
  from gsum_member [OF assms(2) this] have "rval (or_Reserved r) \<le> gsum ?f (st_orders s)"
    using assms(3,4) by (simp add: weight_def)
  moreover have "0 \<le> gsum (\<lambda>p. weight (Token tok) (pr_Side p) (pr_TokenID p) (pr_Reserved p)) (st_provisional s)"
    using assms(1) by (intro gsum_nonneg) (auto simp: wf_state_def prov_ok_def weight_nonneg elim!: gall_mono)
  ultimately show ?thesis by (simp add: committed_def)
qed

lemma redeem_error_keeps:
  "redeemOnce L search p = Some (Inl err) \<or> \<not> pm_RedeemEnabled p \<Longrightarrow> redeemRun L search (Some p) s = Some s"
  by (auto simp: redeemRun_def)


definition demoRedeemLib :: "string redeemLib" where
  "demoRedeemLib = \<lparr>rl_json = \<lparr>gj_Get = \<lambda>j k. j, gj_String = \<lambda>j. j, gj_Float = \<lambda>_. 1, gj_Array = \<lambda>j. [j]\<rparr>,
     rl_Bool = \<lambda>_. False, rl_Int = \<lambda>_. 0, rl_ParseUnits = \<lambda>_. Inr 0\<rparr>"

definition demoPmClient :: PolymarketStateClient where
  "demoPmClient = \<lparr>pm_Client = True, pm_PositionLimits = 0, pm_SDKConfig = Some (zeroPolymarket\<lparr>pmc_OwnerKey := ''k'', pmc_FunderAddress := ''f''\<rparr>),
     pm_RedeemEnabled = True\<rparr>"

definition demoSelling :: State where
  "demoSelling = (NewStateWithBalanceSync demoConfig)
     \<lparr>st_tokens := [(''t'', zeroTokenPosition\<lparr>tp_Reserved := f64 2\<rparr>)],
      st_orders := [(''o'', \<lparr>or_OrderID = ''o'', or_MarketID = ''m'', or_TokenID = ''t'', or_Side = SELL, or_Price = f64 (1/2),
        or_RemainingSize = f64 2, or_Reserved = f64 2, or_ExternalOrigin = False\<rparr>)]\<rparr>"


end
