(* ===== verification/Observer.thy ===== *)
theory Observer
  imports Runtime
begin

text \<open>
  The events of \<^verbatim>\<open>core/event.go\<close> as one type, and package \<^verbatim>\<open>observer\<close>
  (\<^verbatim>\<open>logger.go\<close>), which writes some of them to the log.  A log entry is its message and
  its fields in order; how the logging library prints them is left open.
\<close>

section \<open>Events\<close>

datatype eventType =
    EventMarket | EventMarketResolved | EventOrderBook | EventExternalPrice | EventProbability | EventOrder
  | EventExecution | EventRisk | EventStrategy | EventSystem | EventMetrics | EventPositionExpiring | EventReconcile
  | OtherEvent string

fun eventTypeText :: "eventType \<Rightarrow> string" where
  "eventTypeText EventMarket = ''MARKET''"
| "eventTypeText EventMarketResolved = ''MARKET_RESOLVED''"
| "eventTypeText EventOrderBook = ''ORDERBOOK''"
| "eventTypeText EventExternalPrice = ''EXTERNAL_PRICE''"
| "eventTypeText EventProbability = ''PROBABILITY''"
| "eventTypeText EventOrder = ''ORDER''"
| "eventTypeText EventExecution = ''EXECUTION''"
| "eventTypeText EventRisk = ''RISK''"
| "eventTypeText EventStrategy = ''STRATEGY''"
| "eventTypeText EventSystem = ''SYSTEM''"
| "eventTypeText EventMetrics = ''METRICS''"
| "eventTypeText EventPositionExpiring = ''POSITION_EXPIRING''"
| "eventTypeText EventReconcile = ''RECONCILE''"
| "eventTypeText (OtherEvent s) = s"

fun statusText :: "ExecutionStatus \<Rightarrow> string" where
  "statusText Accepted = ''ACCEPTED''"
| "statusText PartiallyFilled = ''PARTIALLY_FILLED''"
| "statusText Filled = ''FILLED''"
| "statusText Cancelled = ''CANCELLED''"
| "statusText Rejected = ''REJECTED''"

fun sideText :: "side \<Rightarrow> string" where
  "sideText BUY = ''BUY''"
| "sideText SELL = ''SELL''"
| "sideText (OtherSide s) = s"

record RiskEvent =
  re_Reason :: string
  re_At :: time

record ReconcileEvent =
  ve_Type :: string
  ve_Added :: int
  ve_Removed :: int
  ve_Updated :: int
  ve_DurationMs :: int
  ve_Err :: "goerror option"
  ve_At :: time

text \<open>The payload of an event is an \<^verbatim>\<open>any\<close>: the types the observer asserts, or another
  one.\<close>

datatype 'j payload =
    DataJSON 'j
  | DataExecution ExecutionEvent
  | DataRisk RiskEvent
  | DataMetrics MetricsEvent
  | DataExpiring PositionExpiringEvent
  | DataReconcile ReconcileEvent
  | DataOther

record 'j Event =
  et_Type :: eventType
  et_Data :: "'j payload"

section \<open>The log entry of an event\<close>

datatype logValue = LogStr string | LogFloat float64 | LogInt int | LogUint "64 word" | LogTime time

type_synonym logLine = "string \<times> (string \<times> logValue) list"

definition logMarket :: "'j gjson \<Rightarrow> eventType \<Rightarrow> 'j \<Rightarrow> logLine" where
  "logMarket G ty data =
     (''observer event'',
      [(''event'', LogStr (eventTypeText ty)),
       (''question'', LogStr (gj_String G (gj_Get G data ''question''))),
       (''end_date'', LogStr (gj_String G (gj_Get G data ''endDate'')))])"

definition logExecution :: "eventType \<Rightarrow> ExecutionEvent \<Rightarrow> logLine" where
  "logExecution ty data =
     (''observer event'',
      [(''event'', LogStr (eventTypeText ty)), (''order_id'', LogStr (ev_OrderID data)),
       (''market_id'', LogStr (ev_MarketID data)), (''token_id'', LogStr (ev_TokenID data)),
       (''status'', LogStr (statusText (ev_Status data))), (''side'', LogStr (sideText (ev_Side data))),
       (''price'', LogFloat (ev_Price data)), (''requested_size'', LogFloat (ev_RequestedSize data)),
       (''filled_size'', LogFloat (ev_FilledSize data)), (''reason'', LogStr (ev_Reason data)), (''at'', LogTime (ev_At data))])"

definition logRisk :: "eventType \<Rightarrow> RiskEvent \<Rightarrow> logLine" where
  "logRisk ty data =
     (''observer event'', [(''event'', LogStr (eventTypeText ty)), (''reason'', LogStr (re_Reason data)), (''at'', LogTime (re_At data))])"

definition logMetrics :: "eventType \<Rightarrow> MetricsEvent \<Rightarrow> logLine" where
  "logMetrics ty data =
     (''observer event'',
      [(''event'', LogStr (eventTypeText ty)), (''input_events'', LogUint (me_InputEvents data)), (''ticks'', LogUint (me_Ticks data)),
       (''execution_events'', LogUint (me_ExecutionEvents data)), (''execution_accepted'', LogUint (me_ExecutionAccepted data)),
       (''execution_filled'', LogUint (me_ExecutionFilled data)), (''execution_rejected'', LogUint (me_ExecutionRejected data)),
       (''execution_buffered'', LogUint (me_ExecutionBuffered data)), (''execution_expired'', LogUint (me_ExecutionExpired data)),
       (''pending_orders'', LogInt (me_PendingOrders data)), (''risk_rejected'', LogUint (me_RiskRejected data)),
       (''orders_sent'', LogUint (me_OrdersSent data)), (''bus_published'', LogUint (me_BusPublished data)),
       (''bus_dropped'', LogUint (me_BusDropped data)), (''subscribers'', LogInt (me_BusSubscribers data)),
       (''balance_available'', LogFloat (me_BalanceAvailable data)), (''balance_reserved'', LogFloat (me_BalanceReserved data)),
       (''unrealized_pnl'', LogFloat (me_UnrealizedPnL data)), (''daily_pnl'', LogFloat (me_DailyPnL data)),
       (''reconcile_runs'', LogUint (me_ReconcileRuns data)), (''reconcile_diffs'', LogUint (me_ReconcileDiffs data)),
       (''at'', LogTime (me_At data))])"

definition logExpiring :: "eventType \<Rightarrow> PositionExpiringEvent \<Rightarrow> logLine" where
  "logExpiring ty data =
     (''position expiring'',
      [(''event'', LogStr (eventTypeText ty)), (''market_id'', LogStr (pe_MarketID data)), (''end_time'', LogInt (pe_EndTime data)),
       (''tokens'', LogInt (int (length (pe_TokenIDs data))))])"

definition logReconcile :: "eventType \<Rightarrow> ReconcileEvent \<Rightarrow> logLine" where
  "logReconcile ty data =
     (let errMsg = (case ve_Err data of None \<Rightarrow> [] | Some err \<Rightarrow> errorText err) in
      (''reconcile'',
       [(''event'', LogStr (eventTypeText ty)), (''type'', LogStr (ve_Type data)), (''added'', LogInt (ve_Added data)),
        (''removed'', LogInt (ve_Removed data)), (''updated'', LogInt (ve_Updated data)),
        (''duration_ms'', LogInt (ve_DurationMs data)), (''err'', LogStr errMsg), (''at'', LogTime (ve_At data))]))"

definition logEvent :: "'j gjson \<Rightarrow> 'j Event \<Rightarrow> logLine option" where
  "logEvent G e =
    (case (et_Type e, et_Data e) of
       (EventMarket, DataJSON data) \<Rightarrow> Some (logMarket G (et_Type e) data)
     | (EventExecution, DataExecution data) \<Rightarrow> Some (logExecution (et_Type e) data)
     | (EventRisk, DataRisk data) \<Rightarrow> Some (logRisk (et_Type e) data)
     | (EventMetrics, DataMetrics data) \<Rightarrow> Some (logMetrics (et_Type e) data)
     | (EventPositionExpiring, DataExpiring data) \<Rightarrow> Some (logExpiring (et_Type e) data)
     | (EventReconcile, DataReconcile data) \<Rightarrow> Some (logReconcile (et_Type e) data)
     | _ \<Rightarrow> None)"

text \<open>The observer's loop over what its subscription receives.\<close>

definition observe :: "'j gjson \<Rightarrow> 'j Event list \<Rightarrow> logLine list" where
  "observe G evs = List.map_filter (logEvent G) evs"

section \<open>The log determines the events\<close>

lemma statusText_inj: "statusText a = statusText b \<longleftrightarrow> a = b"
  by (cases a; cases b) simp_all

lemma sideText_inj: "a \<in> {BUY, SELL} \<Longrightarrow> b \<in> {BUY, SELL} \<Longrightarrow> sideText a = sideText b \<longleftrightarrow> a = b"
  by auto

text \<open>The part of an event its log entry determines: an execution event without its parent order,
  every field of a metrics event.\<close>

lemma logExecution_inj:
  assumes "logExecution ty a = logExecution ty' b" and "ev_Side a \<in> {BUY, SELL}" and "ev_Side b \<in> {BUY, SELL}"
  shows "a\<lparr>ev_ParentOrderID := p\<rparr> = b\<lparr>ev_ParentOrderID := p\<rparr>"
  using assms sideText_inj [OF assms(2,3)] by (simp add: logExecution_def statusText_inj)

lemma logMetrics_inj: "logMetrics ty a = logMetrics ty' b \<Longrightarrow> a = b"
  by (simp add: logMetrics_def)

text \<open>The trading activity in a stream of events: the execution and the metrics events.\<close>

definition isActivity :: "'j Event \<Rightarrow> bool" where
  "isActivity e = (case (et_Type e, et_Data e) of (EventExecution, DataExecution d) \<Rightarrow> ev_Side d \<in> {BUY, SELL}
     | (EventMetrics, DataMetrics d) \<Rightarrow> True | _ \<Rightarrow> False)"

definition auditView :: "'j Event \<Rightarrow> 'j Event" where
  "auditView e = (case et_Data e of DataExecution d \<Rightarrow> e\<lparr>et_Data := DataExecution (d\<lparr>ev_ParentOrderID := []\<rparr>)\<rparr> | _ \<Rightarrow> e)"

lemma activity_cases:
  assumes "isActivity e"
  obtains d where "e = \<lparr>et_Type = EventExecution, et_Data = DataExecution d\<rparr>" "ev_Side d \<in> {BUY, SELL}"
  | d where "e = \<lparr>et_Type = EventMetrics, et_Data = DataMetrics d\<rparr>"
  using assms by (cases e) (auto simp: isActivity_def split: eventType.splits payload.splits)

lemma logEvent_activity:
  assumes "isActivity a" and "isActivity b" and "logEvent G a = logEvent G b"
  shows "auditView a = auditView b"
  using assms(1)
proof (cases rule: activity_cases)
  case a: (1 d)
  show ?thesis using assms(2)
  proof (cases rule: activity_cases)
    case (1 d')
    with a assms(3) have "logExecution EventExecution d = logExecution EventExecution d'" by (simp add: logEvent_def)
    from logExecution_inj [OF this a(2) 1(2), of "[]"] a 1 show ?thesis by (simp add: auditView_def)
  next
    case (2 d')
    with a assms(3) show ?thesis by (simp add: logEvent_def logExecution_def logMetrics_def)
  qed
next
  case a: (2 d)
  show ?thesis using assms(2)
  proof (cases rule: activity_cases)
    case (1 d')
    with a assms(3) show ?thesis by (simp add: logEvent_def logExecution_def logMetrics_def)
  next
    case (2 d')
    with a assms(3) logMetrics_inj [of EventMetrics d EventMetrics d'] show ?thesis by (simp add: logEvent_def)
  qed
qed

lemma activity_logged: "isActivity e \<Longrightarrow> logEvent G e \<noteq> None"
  by (erule activity_cases) (simp_all add: logEvent_def)

lemma observe_Cons: "isActivity e \<Longrightarrow> observe G (e # evs) = the (logEvent G e) # observe G evs"
  using activity_logged [of e G] by (auto simp: observe_def List.map_filter_def)


definition demoTradeEvent :: "string \<Rightarrow> unit Event" where
  "demoTradeEvent parent = \<lparr>et_Type = EventExecution, et_Data = DataExecution
     \<lparr>ev_OrderID = ''o'', ev_ParentOrderID = parent, ev_MarketID = ''m'', ev_TokenID = ''t'', ev_Price = 1, ev_Side = BUY,
      ev_RequestedSize = 1, ev_FilledSize = 1, ev_Status = Filled, ev_Reason = [], ev_At = 0\<rparr>\<rparr>"


end
