(* ===== verification/Onchain.thy ===== *)
theory Onchain
  imports Config Reconcile
begin

text \<open>
  Reading the balance on the chain: the batched ERC20 call of
  \<^verbatim>\<open>internal/multicall/multicall3.go\<close> and the reader of
  \<^verbatim>\<open>state/balance_reader_multicall.go\<close>.  The ABI encoding, the addresses and the node are a
  parameter; an index out of range panics: \<open>None\<close>.
\<close>

section \<open>Floating point with a given precision\<close>

text \<open>\<^verbatim>\<open>big.Float\<close> rounds a positive quotient to \<open>p\<close> bits, to nearest even.\<close>

definition roundBits :: "int \<Rightarrow> rat \<Rightarrow> rat" where
  "roundBits p x = (if x = 0 then 0 else let e = ilog2 x - p + 1 in of_int (rne (x / pow2 e)) * pow2 e)"

definition bitLen :: "nat \<Rightarrow> int" where
  "bitLen n = (if n = 0 then 0 else ilog2 (of_nat n) + 1)"

text \<open>\<^verbatim>\<open>math.Pow10\<close> multiplies two table entries.\<close>

definition Pow10 :: "nat \<Rightarrow> float64" where
  "Pow10 n = f64 (10 ^ (32 * (n div 32))) * f64 (10 ^ (n mod 32))"

section \<open>The batched call\<close>

record 'a ERC20Info =
  er_Token :: 'a
  er_Balance :: nat
  er_Decimals :: nat
  er_Symbol :: string

record ('a, 'b) abiLib =
  ab_balanceOf :: "'a \<Rightarrow> 'b"
  ab_decimals :: 'b
  ab_symbol :: 'b
  ab_aggregate3 :: "('a \<times> bool \<times> 'b) list \<Rightarrow> goerror + 'b"
  ab_UnpackResults :: "'b \<Rightarrow> goerror + (bool \<times> 'b) list"
  ab_UnpackBalance :: "'b \<Rightarrow> goerror + nat"
  ab_UnpackDecimals :: "'b \<Rightarrow> goerror + nat"
  ab_UnpackSymbol :: "'b \<Rightarrow> goerror + string"
  ab_HexToAddress :: "string \<Rightarrow> 'a"
  ab_IsHexAddress :: "string \<Rightarrow> bool"

definition multicallAddress :: string where
  "multicallAddress = ''0xcA11bde05977b3631167028862bE2a173976CA11''"

definition multicall3 :: "int \<Rightarrow> string option" where
  "multicall3 chainID = (if chainID \<in> {1, 56, 137, 42161} then Some multicallAddress else None)"

text \<open>Wrapping of an error of one of the three results.\<close>

definition wrapUnpack :: "string \<Rightarrow> goerror + 'c \<Rightarrow> goerror + 'c" where
  "wrapUnpack what r =
    (case r of Inl err \<Rightarrow> Inl (ErrText (''multicall3 unpack '' @ what @ '': '' @ errorText err)) | Inr x \<Rightarrow> Inr x)"

definition readInfo :: "('a, 'b) abiLib \<Rightarrow> 'a \<Rightarrow> (bool \<times> 'b) list \<Rightarrow> (goerror + 'a ERC20Info) option" where
  "readInfo A token results =
    (if results = [] then None
     else case (if fst (results ! 0) then wrapUnpack ''balanceOf'' (ab_UnpackBalance A (snd (results ! 0))) else Inr 0) of
       Inl err \<Rightarrow> Some (Inl err)
     | Inr balance \<Rightarrow>
       (if length results < 2 then None
        else case (if fst (results ! 1) then wrapUnpack ''decimals'' (ab_UnpackDecimals A (snd (results ! 1))) else Inr 18) of
          Inl err \<Rightarrow> Some (Inl err)
        | Inr decimals \<Rightarrow>
          (if length results < 3 then None
           else case (if fst (results ! 2) then wrapUnpack ''symbol'' (ab_UnpackSymbol A (snd (results ! 2))) else Inr []) of
             Inl err \<Rightarrow> Some (Inl err)
           | Inr symb \<Rightarrow> Some (Inr \<lparr>er_Token = token, er_Balance = balance, er_Decimals = decimals, er_Symbol = symb\<rparr>))))"

definition FetchERC20InfoMulticall3 ::
  "('a, 'b) abiLib \<Rightarrow> ('a \<Rightarrow> 'b \<Rightarrow> goerror + 'b) \<Rightarrow> int \<Rightarrow> 'a \<Rightarrow> 'a \<Rightarrow> (goerror + 'a ERC20Info) option" where
  "FetchERC20InfoMulticall3 A CallContract chainID token user =
    (case multicall3 chainID of
       None \<Rightarrow> Some (Inl (ErrText ''multicall3 not configured for chain''))
     | Some mcAddr \<Rightarrow>
       (let calls = [(token, True, ab_balanceOf A user), (token, True, ab_decimals A), (token, True, ab_symbol A)] in
        case ab_aggregate3 A calls of
          Inl err \<Rightarrow> Some (Inl err)
        | Inr data \<Rightarrow>
          (case CallContract (ab_HexToAddress A mcAddr) data of
             Inl err \<Rightarrow> Some (Inl err)
           | Inr raw \<Rightarrow>
             (case ab_UnpackResults A raw of
                Inl err \<Rightarrow> Some (Inl err)
              | Inr results \<Rightarrow> readInfo A token results))))"

definition erc20Float :: "'a ERC20Info \<Rightarrow> float64" where
  "erc20Float e =
     f64 (roundBits (max (bitLen (er_Balance e)) 64) (of_nat (er_Balance e) / rval (Pow10 (er_Decimals e))))"

section \<open>The reader\<close>

record 'a MulticallBalanceReader =
  br_rpcURL :: string
  br_chain :: int
  br_token :: 'a
  br_wallet :: 'a

definition NewMulticallBalanceReader ::
  "('a, 'b) abiLib \<Rightarrow> string \<Rightarrow> int option \<Rightarrow> string \<Rightarrow> string \<Rightarrow> goerror + 'a MulticallBalanceReader" where
  "NewMulticallBalanceReader A rpcURL chainID tokenHex walletHex =
    (if rpcURL = [] \<or> tokenHex = [] \<or> walletHex = [] then Inl (ErrText ''missing multicall balance reader config'')
     else case chainID of
       None \<Rightarrow> Inl (ErrText ''missing chain id'')
     | Some c \<Rightarrow>
       (if \<not> ab_IsHexAddress A tokenHex then Inl (ErrText ''invalid collateral token address'')
        else if \<not> ab_IsHexAddress A walletHex then Inl (ErrText ''invalid funder address'')
        else Inr \<lparr>br_rpcURL = rpcURL, br_chain = c, br_token = ab_HexToAddress A tokenHex,
                  br_wallet = ab_HexToAddress A walletHex\<rparr>))"

text \<open>The configuration of the balance synchronisation and the reader it carries.\<close>

definition BuildMulticallBalanceSyncConfig ::
  "('a, 'b) abiLib \<Rightarrow> Config \<Rightarrow> goerror + (BalanceSyncConfig \<times> 'a MulticallBalanceReader option)" where
  "BuildMulticallBalanceSyncConfig A cfg =
    (let bs = cf_BalanceSync cfg in
     if \<not> bsc_Enabled bs
     then Inr (\<lparr>bs_Enabled = False, bs_HasReader = False, bs_Interval = 0, bs_Epsilon = 0, bs_MinBalance = 0\<rparr>, None)
     else if pmc_FunderAddress (cf_Polymarket cfg) = [] then Inl (ErrText ''missing polymarket funder address'')
     else case NewMulticallBalanceReader A (cf_ChainRPCURL cfg) (Some (pmc_ChainID (cf_Polymarket cfg)))
                 (bsc_CollateralToken bs) (pmc_FunderAddress (cf_Polymarket cfg)) of
       Inl err \<Rightarrow> Inl (ErrText (''invalid balance sync config: '' @ errorText err))
     | Inr reader \<Rightarrow>
         Inr (\<lparr>bs_Enabled = True, bs_HasReader = True, bs_Interval = bsc_Interval bs, bs_Epsilon = bsc_Epsilon bs,
               bs_MinBalance = bsc_MinBalance bs\<rparr>, Some reader))"

definition NewState :: "('a, 'b) abiLib \<Rightarrow> Config \<Rightarrow> goerror + (State \<times> 'a MulticallBalanceReader option)" where
  "NewState A cfg =
    (case BuildMulticallBalanceSyncConfig A cfg of
       Inl err \<Rightarrow> Inl err
     | Inr (balanceSync, reader) \<Rightarrow> Inr (NewStateWithBalanceSync balanceSync, reader))"

definition ReadOnchainBalance ::
  "('a, 'b) abiLib \<Rightarrow> (string \<Rightarrow> goerror + ('a \<Rightarrow> 'b \<Rightarrow> goerror + 'b)) \<Rightarrow> 'a MulticallBalanceReader \<Rightarrow> (goerror + float64) option" where
  "ReadOnchainBalance A Dial r =
    (case Dial (br_rpcURL r) of
       Inl err \<Rightarrow> Some (Inl err)
     | Inr client \<Rightarrow>
       (case FetchERC20InfoMulticall3 A client (br_chain r) (br_token r) (br_wallet r) of
          None \<Rightarrow> None
        | Some (Inl err) \<Rightarrow> Some (Inl err)
        | Some (Inr info) \<Rightarrow> Some (Inr (erc20Float info))))"

section \<open>Accuracy\<close>

lemma roundBits_err:
  assumes "0 \<le> x"
  shows "\<bar>roundBits p x - x\<bar> \<le> x * pow2 (- p)"
proof (cases "x = 0")
  case False
  then have pos: "0 < x" using assms by simp
  let ?e = "ilog2 x - p + 1"
  have "\<bar>of_int (rne (x / pow2 ?e)) - x / pow2 ?e\<bar> * pow2 ?e \<le> 1 / 2 * pow2 ?e"
    by (rule mult_right_mono [OF rne_err]) simp
  moreover have "\<bar>of_int (rne (x / pow2 ?e)) - x / pow2 ?e\<bar> * pow2 ?e = \<bar>roundBits p x - x\<bar>"
  proof -
    have "\<bar>of_int (rne (x / pow2 ?e)) - x / pow2 ?e\<bar> * pow2 ?e = \<bar>(of_int (rne (x / pow2 ?e)) - x / pow2 ?e) * pow2 ?e\<bar>"
      by (simp add: abs_mult)
    also have "(of_int (rne (x / pow2 ?e)) - x / pow2 ?e) * pow2 ?e = roundBits p x - x"
      using False by (simp add: roundBits_def Let_def left_diff_distrib)
    finally show ?thesis .
  qed
  moreover have "1 / 2 * pow2 ?e = pow2 (ilog2 x) * pow2 (- p)"
    by (simp add: pow2_add [symmetric]) (simp add: pow2_add pow2_diff field_simps)
  moreover have "pow2 (ilog2 x) * pow2 (- p) \<le> x * pow2 (- p)"
    by (rule mult_right_mono [OF ilog2_bounds(1) [OF pos]]) simp
  ultimately show ?thesis by linarith
qed (simp add: roundBits_def)

lemma roundBits_int:
  assumes "k < 2 ^ 64" and "64 \<le> p"
  shows "roundBits p (of_nat k) = of_nat k"
proof (cases "k = 0")
  case False
  let ?e = "ilog2 (of_nat k) - p + 1"
  have "(of_nat k :: rat) < of_nat (2 ^ 64)" using assms(1) by (simp only: of_nat_less_iff)
  then have "(of_nat k :: rat) < pow2 64" by simp
  then have "ilog2 (of_nat k) < 64" using False by (intro ilog2_less) simp_all
  then have e: "0 \<le> - ?e" using assms(2) by simp
  have "of_nat k / pow2 ?e = (of_nat k * pow2 (- ?e) :: rat)" by (simp only: power_int_minus divide_inverse)
  also have "\<dots> = of_int (int k * 2 ^ nat (- ?e))" using pow2_of_int [OF e] by simp
  finally have i: "of_nat k / pow2 ?e = (of_int (int k * 2 ^ nat (- ?e)) :: rat)" .
  then have "of_int (rne (of_nat k / pow2 ?e)) = (of_nat k / pow2 ?e :: rat)" by (simp only: rne_of_int)
  then show ?thesis using False by (simp add: roundBits_def Let_def)
qed (simp add: roundBits_def)

lemma Pow10_exact:
  assumes "n \<le> 22"
  shows "rval (Pow10 n) = 10 ^ n"
proof -
  have "(5 :: int) ^ n \<le> 5 ^ 22" using assms by (intro power_increasing) simp_all
  also have "\<dots> \<le> 2 ^ 53" by simp
  finally have five: "(5 :: int) ^ n \<le> 2 ^ 53" .
  have "(10 :: rat) ^ n = of_int (5 ^ n) * pow2 (int n)" by (simp flip: power_mult_distrib)
  then have r: "rnd64 (10 ^ n) = 10 ^ n" using five by (intro rnd64_exact [of _ "5 ^ n" "int n"]) simp_all
  have "n div 32 = 0" "n mod 32 = n" using assms by simp_all
  then show ?thesis unfolding Pow10_def by (simp add: r f64.rep_eq times_float64.rep_eq)
qed

lemma two_roundings:
  fixes x y z c :: rat
  assumes "0 \<le> x" and "\<bar>y - x\<bar> \<le> x / 2 ^ 64" and "\<bar>z - y\<bar> \<le> \<bar>y\<bar> / 2 ^ 53 + c"
  shows "\<bar>z - x\<bar> \<le> x / 2 ^ 52 + c"
proof -
  have "\<bar>y\<bar> \<le> x + x / 2 ^ 64" using assms(1,2) by linarith
  then have "\<bar>y\<bar> / 2 ^ 53 \<le> (x + x / 2 ^ 64) / 2 ^ 53" by (rule divide_right_mono) simp
  moreover have "(x + x / 2 ^ 64) / 2 ^ 53 + x / 2 ^ 64 \<le> x / 2 ^ 52" using assms(1) by simp
  ultimately show ?thesis using assms(2,3) by linarith
qed

lemma pow2_minus_64: "pow2 (- 64) = 1 / 2 ^ 64"
  using pow2_diff [of 0 64] pow2_nat [of 64] by simp

lemma f_zero_minus: "0 < a \<Longrightarrow> 0 - a < (0 :: float64)" "- (0 - a) = (a :: float64)"
  by (transfer, simp)+


definition demoInfo :: "unit ERC20Info" where
  "demoInfo = \<lparr>er_Token = (), er_Balance = 5000000, er_Decimals = 6, er_Symbol = ''USDC''\<rparr>"


section \<open>A call that failed\<close>

text \<open>C31. A failed read is not an error: when the batch comes back but the token contract answered
  the balance call with a failure, the reader returns a balance of 0, and the synchronisation then
  takes everything available out of the ledger and reports no error.\<close>

theorem failed_call_reads_zero:
  assumes "Dial (br_rpcURL r) = Inr client" and "multicall3 (br_chain r) = Some mcAddr"
    and "ab_aggregate3 A [(br_token r, True, ab_balanceOf A (br_wallet r)), (br_token r, True, ab_decimals A),
           (br_token r, True, ab_symbol A)] = Inr data"
    and "client (ab_HexToAddress A mcAddr) data = Inr raw" and "ab_UnpackResults A raw = Inr results"
    and "\<not> fst (results ! 0)" and "readInfo A (br_token r) results = Some (Inr info)"
    and "wf_state s" and "bs_HasReader (st_balanceSync s)" and "max 0 (bs_Epsilon (st_balanceSync s)) < ba_Available (st_balance s)"
  shows "\<exists>reading. ReadOnchainBalance A Dial r = Some (Inr reading) \<and> reading = 0 \<and>
    (case SyncBalanceOnce (Inr reading) s of (s', evt, _) \<Rightarrow>
       ba_Available (st_balance s') = 0 \<and> be_Changed evt \<and> be_Err evt = None)"
proof -
  have "er_Balance info = 0" using assms(6,7) by (auto simp: readInfo_def split: if_splits sum.splits)
  then have "erc20Float info = 0" by (simp add: erc20Float_def roundBits_def) (transfer, simp)
  with assms(1-5,7) have r: "ReadOnchainBalance A Dial r = Some (Inr 0)"
    by (simp add: ReadOnchainBalance_def FetchERC20InfoMulticall3_def Let_def)
  let ?b = "st_balance s"
  let ?eps = "bs_Epsilon (st_balanceSync s)"
  have "0 \<le> ba_Reserved ?b" using assms(8) by (simp add: wf_state_def)
  then have "0 - ba_Reserved ?b \<le> 0" by (rule f_diff_nonpos)
  then have new: "(if 0 - ba_Reserved ?b < 0 then 0 else 0 - ba_Reserved ?b) = 0" by auto
  have eps: "(if ?eps < 0 then 0 else ?eps) < ba_Available ?b" and pos: "0 < ba_Available ?b" using assms(10) by auto
  have eps': "\<not> ba_Available ?b \<le> (if ?eps < 0 then 0 else ?eps)" using eps by (simp only: not_le)
  have neg: "0 - ba_Available ?b < 0" "- (0 - ba_Available ?b) = ba_Available ?b"
    using pos by (rule f_zero_minus) (rule f_zero_minus)
  have "ReconcileOnchainBalance 0 ?eps s = (s\<lparr>st_balance := ?b\<lparr>ba_Available := 0\<rparr>\<rparr>, True, ba_Available ?b)"
    unfolding ReconcileOnchainBalance_def Let_def using eps' by (simp only: new neg if_True refl less_irrefl if_False)
  then show ?thesis using r assms(9) by (simp add: SyncBalanceOnce_def Let_def)
qed

definition demoAbi :: "(string, nat) abiLib" where
  "demoAbi = \<lparr>ab_balanceOf = \<lambda>_. 0, ab_decimals = 1, ab_symbol = 2, ab_aggregate3 = \<lambda>_. Inr 3,
     ab_UnpackResults = \<lambda>_. Inr [(False, 0), (True, 6), (True, 0)], ab_UnpackBalance = Inr, ab_UnpackDecimals = Inr,
     ab_UnpackSymbol = \<lambda>_. Inr ''USDC'', ab_HexToAddress = \<lambda>s. s, ab_IsHexAddress = \<lambda>_. True\<rparr>"

definition demoReader :: "string MulticallBalanceReader" where
  "demoReader = \<lparr>br_rpcURL = ''rpc'', br_chain = 137, br_token = ''t'', br_wallet = ''w''\<rparr>"

definition demoFilled :: State where
  "demoFilled = (NewStateWithBalanceSync \<lparr>bs_Enabled = True, bs_HasReader = True, bs_Interval = 1, bs_Epsilon = 0, bs_MinBalance = 0\<rparr>)
     \<lparr>st_balance := \<lparr>ba_Available = f64 100, ba_Reserved = 0, ba_MinBalance = 0\<rparr>\<rparr>"

corollary failed_call_reads_zero_witness:
  "ReadOnchainBalance demoAbi (\<lambda>_. Inr (\<lambda>_ _. Inr 4)) demoReader = Some (Inr 0) \<and>
   ba_Available (st_balance (fst (SyncBalanceOnce (Inr 0) demoFilled))) = 0"
proof -
  have "defaultBalanceSyncEpsilon < f64 100" unfolding defaultBalanceSyncEpsilon_def by code_simp
  moreover have "(0 :: float64) < f64 100" by code_simp
  ultimately have "max 0 (bs_Epsilon (st_balanceSync demoFilled)) < ba_Available (st_balance demoFilled)"
    by (simp add: demoFilled_def NewStateWithBalanceSync_def normalizeBalanceSyncConfig_def Let_def)
  moreover have "wf_state demoFilled" by (simp add: demoFilled_def NewStateWithBalanceSync_def wf_state_def Let_def)
  moreover have "bs_HasReader (st_balanceSync demoFilled)"
    by (simp add: demoFilled_def NewStateWithBalanceSync_def normalizeBalanceSyncConfig_def Let_def)
  ultimately show ?thesis
    using failed_call_reads_zero [of "\<lambda>_. Inr (\<lambda>_ _. Inr 4)" demoReader "\<lambda>_ _. Inr 4" multicallAddress demoAbi 3 4
      "[(False, 0), (True, 6), (True, 0)]" "\<lparr>er_Token = ''t'', er_Balance = 0, er_Decimals = 6, er_Symbol = ''USDC''\<rparr>" demoFilled]
    by (auto simp: demoReader_def demoAbi_def multicall3_def readInfo_def wrapUnpack_def split: prod.splits)
qed

end
