(* ===== verification/Loops.thy ===== *)
theory Loops
  imports Agreement
begin

text \<open>
  The background loops of the ledger: reconciliation (\<^verbatim>\<open>reconcile.go\<close>), balance
  synchronisation (\<^verbatim>\<open>balance_sync.go\<close>) and the expiry watch (\<^verbatim>\<open>position_expiring.go\<close>), with
  the goroutines that share the ledger.  One iteration of a loop is one step; the ledger steps of
  other goroutines come between any two.  A loop whose context is cancelled ends when its select
  chooses to, so it may run once more before.
\<close>

declare map_of_eq_Some_iff [simp del] Some_eq_map_of_iff [simp del]

section \<open>Launching\<close>

record ReconcileConfig =
  rg_Enabled :: bool
  rg_Interval :: duration
  rg_RetryBackoff :: "duration list"
  rg_OnReport :: bool

record loops =
  lp_ledger :: State
  lp_reconcile :: "ReconcileConfig list"
  lp_balance :: "duration option"
  lp_balanceOnce :: bool
  lp_expiry :: "(duration \<times> duration) list"
  lp_cancelled :: bool

definition StartReconcileLoop :: "bool \<Rightarrow> ReconcileConfig \<Rightarrow> loops \<Rightarrow> loops" where
  "StartReconcileLoop hasClient cfg l =
    (if \<not> rg_Enabled cfg \<or> \<not> hasClient then l
     else
       let interval = (if rg_Interval cfg \<le> 0 then 30 * second else rg_Interval cfg)
       in l\<lparr>lp_reconcile := lp_reconcile l @ [cfg\<lparr>rg_Interval := interval\<rparr>]\<rparr>)"

definition StartBalanceSync :: "loops \<Rightarrow> loops" where
  "StartBalanceSync l =
    (let cfg = st_balanceSync (lp_ledger l) in
     if \<not> bs_Enabled cfg \<or> \<not> bs_HasReader cfg then l
     else if lp_balanceOnce l then l
     else l\<lparr>lp_balance := Some (bs_Interval cfg), lp_balanceOnce := True\<rparr>)"

definition StartPositionExpiringLoop :: "duration \<Rightarrow> duration \<Rightarrow> loops \<Rightarrow> loops" where
  "StartPositionExpiringLoop tick warnBefore l =
    (let tick = (if tick \<le> 0 then second else tick);
         warnBefore = (if warnBefore \<le> 0 then 30 * second else warnBefore)
     in l\<lparr>lp_expiry := lp_expiry l @ [(tick, warnBefore)]\<rparr>)"

section \<open>One iteration\<close>

text \<open>A reconciliation: on the ticker, or by taking the pending trigger.  The result is what is
  handed to \<^verbatim>\<open>OnReport\<close>, if anything.\<close>

definition reconcileBody ::
  "'j gjson \<Rightarrow> ReconcileConfig \<Rightarrow> bool \<Rightarrow> 'j exchangeReply option \<Rightarrow> 'j exchangeReply option option list \<Rightarrow>
   State \<Rightarrow> State \<times> ReconcileReport option" where
  "reconcileBody G cfg triggered reply env s =
    (let s = (if triggered then s\<lparr>st_reconcileTrigger := False\<rparr> else s);
         (s, rep) = runReconcileWithRetry G (rg_RetryBackoff cfg) reply env s
     in (s, if rg_OnReport cfg then rep else None))"

text \<open>The part of the ledger that belongs to the loops.\<close>

definition loopView :: "State \<Rightarrow> (string, expiringMarket) gomap \<times> bool" where
  "loopView s = (st_expiryMarkets s, st_reconcileTrigger s)"

datatype loopEvent =
    Quiet
  | Triggered
  | Registered string
  | Ticked "ReconcileReport option"
  | Served "ReconcileReport option"
  | Synced BalanceSyncEvent
  | Warned "PositionExpiringEvent list"

inductive loop_step :: "'j gjson \<Rightarrow> loops \<Rightarrow> loopEvent \<Rightarrow> loops \<Rightarrow> bool" for G :: "'j gjson" where
  launch_reconcile: "loop_step G l Quiet (StartReconcileLoop hasClient cfg l)"
| launch_balance: "loop_step G l Quiet (StartBalanceSync l)"
| launch_expiry: "loop_step G l Quiet (StartPositionExpiringLoop tick warnBefore l)"
| trigger: "loop_step G l Triggered (l\<lparr>lp_ledger := TriggerReconcile (lp_ledger l)\<rparr>)"
| register: "loop_step G l (Registered mid) (l\<lparr>lp_ledger := RegisterMarketExpiry mid endTime toks (lp_ledger l)\<rparr>)"
| ticked: "cfg \<in> set (lp_reconcile l) \<Longrightarrow> reconcileBody G cfg False reply env (lp_ledger l) = (s, rep) \<Longrightarrow>
    loop_step G l (Ticked rep) (l\<lparr>lp_ledger := s\<rparr>)"
| served: "cfg \<in> set (lp_reconcile l) \<Longrightarrow> st_reconcileTrigger (lp_ledger l) \<Longrightarrow>
    reconcileBody G cfg True reply env (lp_ledger l) = (s, rep) \<Longrightarrow> loop_step G l (Served rep) (l\<lparr>lp_ledger := s\<rparr>)"
| synced: "lp_balance l \<noteq> None \<Longrightarrow> SyncBalanceOnce reading (lp_ledger l) = (s, evt, cb) \<Longrightarrow>
    loop_step G l (Synced evt) (l\<lparr>lp_ledger := s\<rparr>)"
| warned: "(tick, warnBefore) \<in> set (lp_expiry l) \<Longrightarrow> checkExpiry clock warnBefore (lp_ledger l) = (s, evs) \<Longrightarrow>
    loop_step G l (Warned evs) (l\<lparr>lp_ledger := s\<rparr>)"
| elsewhere: "state_step (lp_ledger l) s \<Longrightarrow> loopView s = loopView (lp_ledger l) \<Longrightarrow> loop_step G l Quiet (l\<lparr>lp_ledger := s\<rparr>)"
| cancel: "loop_step G l Quiet (l\<lparr>lp_cancelled := True\<rparr>)"
| exit_reconcile: "lp_cancelled l \<Longrightarrow> loop_step G l Quiet (l\<lparr>lp_reconcile := remove1 cfg (lp_reconcile l)\<rparr>)"
| exit_balance: "lp_cancelled l \<Longrightarrow> loop_step G l Quiet (l\<lparr>lp_balance := None\<rparr>)"
| exit_expiry: "lp_cancelled l \<Longrightarrow> loop_step G l Quiet (l\<lparr>lp_expiry := remove1 w (lp_expiry l)\<rparr>)"

inductive loop_run :: "'j gjson \<Rightarrow> loops \<Rightarrow> loopEvent list \<Rightarrow> loops \<Rightarrow> bool" for G :: "'j gjson" where
  stay: "loop_run G l [] l"
| step: "loop_run G l evs l' \<Longrightarrow> loop_step G l' ev l'' \<Longrightarrow> loop_run G l (evs @ [ev]) l''"

section \<open>What the ledger's own operations leave to the loops\<close>

lemma view_update [simp]:
  "loopView (s\<lparr>st_tokens := a\<rparr>) = loopView s" "loopView (s\<lparr>st_balance := b\<rparr>) = loopView s"
  "loopView (s\<lparr>st_orders := c\<rparr>) = loopView s" "loopView (s\<lparr>st_provisional := d\<rparr>) = loopView s"
  "loopView (s\<lparr>st_dailyPnL := x\<rparr>) = loopView s" "loopView (s\<lparr>st_dailyPnLDate := y\<rparr>) = loopView s"
  by (simp_all add: loopView_def)

lemma view_release [simp]: "loopView (releaseReservedLocked sd t x s) = loopView s"
  by (simp add: releaseReservedLocked_def split: side.split)

lemma view_releaseAll: "loopView (releaseAll ps s) = loopView s"
  by (induction ps s rule: releaseAll.induct) simp_all

lemma view_provisional:
  "loopView (fst (TryReserveProvisional clock i m t sd price sz now ttl s)) = loopView s"
  "loopView (fst (ConfirmProvisional i k s)) = loopView s"
  "loopView (fst (ReleaseProvisional i s)) = loopView s"
  "loopView (fst (CleanupExpiredProvisional clock now s)) = loopView s"
  by (simp_all add: TryReserveProvisional_def ConfirmProvisional_def ReleaseProvisional_def CleanupExpiredProvisional_def
      view_releaseAll Let_def split: option.split)

lemma view_orders:
  "loopView (fst (AttachOrder i k m t sd price sz s)) = loopView s"
  "loopView (fst (AttachExternalOrder k m t sd price sz s)) = loopView s"
  "loopView (ReleaseOrder k s) = loopView s" "loopView (ClearRedeemedPositions ids s) = loopView s"
  by (simp_all add: AttachOrder_def AttachExternalOrder_def ReleaseOrder_def ClearRedeemedPositions_def Let_def
      split: option.split side.split)

lemma view_fill: "loopView (fst (ApplyFill clock k m t sd sz price s)) = loopView s"
  by (simp add: ApplyFill_def fillBuy_def fillSell_def addDailyPnLLocked_def Let_def split: option.split side.split)

lemma view_onchain: "loopView (fst (ReconcileOnchainBalance x eps s)) = loopView s"
  by (simp add: ReconcileOnchainBalance_def Let_def)

lemma view_reconcileOrders: "loopView (fst (reconcileOrders remote s)) = loopView s"
proof -
  have l: "loopView (releaseOrderLocked k r s) = loopView s" for k r s
    by (simp add: releaseOrderLocked_def split: side.split)
  have r: "loopView (fst (releaseMissing rm os s n)) = loopView s" for rm os s n
    using l by (induction rm os s n rule: releaseMissing.induct) simp_all
  have a: "loopView (fst (attachExternalLocked k m t sd p x s)) = loopView s" for k m t sd p x s
    by (simp add: attachExternalLocked_def Let_def split: side.split)
  have "loopView (fst (addOrUpdate rm s x y)) = loopView s" for rm s x y
  proof (induction rm arbitrary: s x y)
    case (Cons o' rm)
    obtain k ro where o': "o' = (k, ro)" by (cases o')
    show ?case
      using a [of k "oo_Market ro" "oo_AssetId ro" "oo_Side ro" "oo_Price ro" "remainingOf ro" s]
      by (simp add: o' Let_def split_beta Cons.IH split: option.split)
  qed simp
  with r show ?thesis by (simp add: reconcileOrders_def Let_def split_beta)
qed

lemma view_positions: "loopView (fst (reconcilePositionTable rm s)) = loopView s"
proof -
  have "loopView (fst (addOrUpdatePos rm s x y)) = loopView s" for rm s x y
    by (induction rm arbitrary: s x y) (auto simp: Let_def split: option.split)
  then show ?thesis by (simp add: reconcilePositionTable_def Let_def split_beta)
qed

lemma view_Restore: "loopView (Restore snap s) = loopView s"
proof -
  have "loopView (restoreOrders os s) = loopView s" for os s
    by (induction os s rule: restoreOrders.induct) (simp_all add: Let_def split: side.split)
  then show ?thesis by (simp add: Restore_def)
qed

lemmas view_ops = view_provisional view_orders view_fill view_onchain view_reconcileOrders view_positions view_Restore

text \<open>Only the explicit changes of the trigger and of the registered expiries touch them.\<close>

lemma view_step:
  "state_step s s' \<Longrightarrow> loopView s' = loopView s \<or> (\<exists>b ms. s' = s\<lparr>st_reconcileTrigger := b, st_expiryMarkets := ms\<rparr>)"
  by (induction rule: state_step.induct) (simp_all add: view_ops, blast)

lemma view_Sync: "loopView (fst (SyncBalanceOnce reading s)) = loopView s"
  using view_onchain [of _ _ s] by (auto simp: SyncBalanceOnce_def Let_def split_beta split: sum.split)

lemma view_ReconcileWithExchange: "loopView (fst (ReconcileWithExchange G reply s)) = loopView s"
  using view_reconcileOrders [of _ s] view_positions
  by (auto simp: ReconcileWithExchange_def reconcilePositions_def Let_def split_beta split: option.split sum.split)

lemma view_run: "loopView (fst (runReconcileWithRetry G backoff reply env s)) = loopView s"
proof -
  have "loopView (fst (retryLoop G ws env s rep)) = loopView s" for ws env s rep
  proof (induction G ws env s rep rule: retryLoop.induct)
    case (4 G w ws reply env s rep)
    then show ?case using view_ReconcileWithExchange [of G reply s] by (simp add: split_beta)
  qed simp_all
  then show ?thesis using view_ReconcileWithExchange [of G reply s] by (simp add: runReconcileWithRetry_def split_beta)
qed

lemma view_body:
  "loopView (fst (reconcileBody G cfg triggered reply env s)) = (st_expiryMarkets s, \<not> triggered \<and> st_reconcileTrigger s)"
proof -
  have "loopView (s\<lparr>st_reconcileTrigger := False\<rparr>) = (st_expiryMarkets s, False)" by (simp add: loopView_def)
  then show ?thesis by (simp add: reconcileBody_def Let_def split_beta view_run) (simp add: loopView_def)
qed

lemma launch_ledger [simp]:
  "lp_ledger (StartReconcileLoop hasClient cfg l) = lp_ledger l" "lp_ledger (StartBalanceSync l) = lp_ledger l"
  "lp_ledger (StartPositionExpiringLoop tick w l) = lp_ledger l"
  by (simp_all add: StartReconcileLoop_def StartBalanceSync_def StartPositionExpiringLoop_def Let_def)

section \<open>The ledger under the loops\<close>

lemma watch_eq:
  "s' = s\<lparr>st_reconcileTrigger := st_reconcileTrigger s', st_expiryMarkets := st_expiryMarkets s'\<rparr> \<Longrightarrow> state_step s s'"
  by (metis state_step.watch)

lemma watch_step:
  "state_step s (TriggerReconcile s)" "state_step s (s\<lparr>st_reconcileTrigger := b\<rparr>)"
  "state_step s (RegisterMarketExpiry mid endTime toks s)" "state_step s (fst (checkExpiry clock warnBefore s))"
  by (rule watch_eq, simp add: TriggerReconcile_def RegisterMarketExpiry_def checkExpiry_def Let_def)+

lemma steps_ReconcileWithExchange: "state_step\<^sup>*\<^sup>* s (fst (ReconcileWithExchange G reply s))"
proof -
  have "state_step\<^sup>*\<^sup>* s (fst (reconcilePositionTable rm (fst (reconcileOrders remote s))))" for rm remote
    using state_step.orders [of s remote] state_step.positions by (meson r_into_rtranclp rtranclp.rtrancl_into_rtrancl)
  then show ?thesis
    by (auto simp: ReconcileWithExchange_def reconcilePositions_def Let_def split_beta split: option.split sum.split)
qed

lemma steps_retryLoop: "state_step\<^sup>*\<^sup>* s (fst (retryLoop G ws env s rep))"
proof (induction ws arbitrary: env s rep)
  case (Cons w ws)
  have "state_step\<^sup>*\<^sup>* s (fst (retryLoop G ws env' (fst (ReconcileWithExchange G reply s)) rep'))" for env' reply rep'
    using steps_ReconcileWithExchange [of s G reply] Cons.IH by (rule rtranclp_trans)
  then show ?case
    by (cases "(G, w # ws, env, s, rep)" rule: retryLoop.cases) (simp_all add: split_beta steps_ReconcileWithExchange)
qed simp

lemma steps_run: "state_step\<^sup>*\<^sup>* s (fst (runReconcileWithRetry G backoff reply env s))"
proof -
  have "state_step\<^sup>*\<^sup>* s (fst (retryLoop G backoff env (fst (ReconcileWithExchange G reply s)) rep))" for rep
    using steps_ReconcileWithExchange [of s G reply] steps_retryLoop by (rule rtranclp_trans)
  then show ?thesis by (simp add: runReconcileWithRetry_def split_beta steps_ReconcileWithExchange)
qed

lemma steps_body: "state_step\<^sup>*\<^sup>* s (fst (reconcileBody G cfg triggered reply env s))"
proof -
  have "state_step\<^sup>*\<^sup>* s (s\<lparr>st_reconcileTrigger := False\<rparr>)" using watch_step(2) by (rule r_into_rtranclp)
  from rtranclp_trans [OF this steps_run [of _ G "rg_RetryBackoff cfg" reply env]] steps_run [of s G "rg_RetryBackoff cfg" reply env] show ?thesis
    by (simp add: reconcileBody_def Let_def split_beta)
qed

lemma steps_Sync: "state_step\<^sup>*\<^sup>* s (fst (SyncBalanceOnce reading s))"
  using state_step.onchain by (auto simp: SyncBalanceOnce_def Let_def split_beta split: sum.split)

lemma loop_step_ledger: "loop_step G l ev l' \<Longrightarrow> state_step\<^sup>*\<^sup>* (lp_ledger l) (lp_ledger l')"
proof (induction rule: loop_step.induct)
  case (ticked cfg l reply env s rep)
  then show ?case using steps_body [of "lp_ledger l" G cfg False reply env] by simp
next
  case (served cfg l reply env s rep)
  then show ?case using steps_body [of "lp_ledger l" G cfg True reply env] by simp
next
  case (synced l reading s evt cb)
  then show ?case using steps_Sync [of "lp_ledger l" reading] by simp
next
  case (warned tick w l clock s evs)
  then show ?case using watch_step(4) [of "lp_ledger l" clock w] by (simp add: r_into_rtranclp)
qed (simp_all add: r_into_rtranclp watch_step)

lemma loop_run_ledger: "loop_run G l evs l' \<Longrightarrow> state_step\<^sup>*\<^sup>* (lp_ledger l) (lp_ledger l')"
  by (induction rule: loop_run.induct) (auto intro: rtranclp_trans loop_step_ledger)

section \<open>Warnings\<close>

text \<open>How often a market is registered and warned about in a history, and whether a warning for it
  is outstanding.\<close>

definition registrations :: "string \<Rightarrow> loopEvent list \<Rightarrow> nat" where
  "registrations mid evs = length (filter (\<lambda>ev. ev = Registered mid) evs)"

fun warningsIn :: "string \<Rightarrow> loopEvent \<Rightarrow> nat" where
  "warningsIn mid (Warned ws) = length (filter (\<lambda>w. pe_MarketID w = mid) ws)"
| "warningsIn mid _ = 0"

definition warnings :: "string \<Rightarrow> loopEvent list \<Rightarrow> nat" where
  "warnings mid evs = sum_list (map (warningsIn mid) evs)"

definition outstanding :: "string \<Rightarrow> (string, expiringMarket) gomap \<Rightarrow> nat" where
  "outstanding mid ms = (case map_of ms mid of None \<Rightarrow> 0 | Some m \<Rightarrow> if em_fired m then 0 else 1)"

lemma history_append [simp]:
  "registrations mid (evs @ [ev]) = registrations mid evs + (if ev = Registered mid then 1 else 0)"
  "warnings mid (evs @ [ev]) = warnings mid evs + warningsIn mid ev" "registrations mid [] = 0" "warnings mid [] = 0"
  by (simp_all add: registrations_def warnings_def)

text \<open>A check turns an outstanding warning that is due into one event.\<close>

lemma due_count:
  "gmap_ok ms \<Longrightarrow>
   length (filter (\<lambda>(k, m). k = mid) (filter (\<lambda>(k, m). expiryDue cutoff m) ms)) +
   outstanding mid (map (\<lambda>(k, m). (k, if expiryDue cutoff m then m\<lparr>em_fired := True\<rparr> else m)) ms) = outstanding mid ms"
proof (induction ms)
  case (Cons p ms)
  obtain k m where p: "p = (k, m)" by (cases p)
  have ok: "gmap_ok ms" and new: "map_of ms k = None"
    using Cons.prems by (simp_all add: p map_of_eq_None_iff)
  then have none: "filter (\<lambda>(k', m). k' = k) (filter (\<lambda>(k, m). expiryDue cutoff m) ms) = []"
    by (auto simp: filter_empty_conv map_of_eq_None_iff image_iff)
  show ?case
  proof (cases "k = mid")
    case True
    with none show ?thesis by (simp add: p outstanding_def expiryDue_def)
  next
    case False
    then have "outstanding mid (p # ms) = outstanding mid ms" "outstanding mid ((k, x) # ns) = outstanding mid ns" for x ns
      by (simp_all add: p outstanding_def)
    with False Cons.IH [OF ok] show ?thesis by (simp add: p)
  qed
qed (simp add: outstanding_def)

lemma checkExpiry_count:
  assumes "gmap_ok (st_expiryMarkets s)" and "checkExpiry clock warnBefore s = (s', ws)"
  shows "warningsIn mid (Warned ws) + outstanding mid (st_expiryMarkets s') = outstanding mid (st_expiryMarkets s)"
    and "gmap_ok (st_expiryMarkets s')" and "st_reconcileTrigger s' = st_reconcileTrigger s"
proof -
  let ?c = "timeUnixMilli clock + warnBefore div 1000000"
  have "filter (\<lambda>w. pe_MarketID w = mid) ws = map (\<lambda>(k, m). \<lparr>pe_MarketID = k, pe_EndTime = em_endTime m,
      pe_TokenIDs = em_tokenIDs m, pe_Available = snapshotTokenAvailable (em_tokenIDs m) s\<rparr>)
      (filter (\<lambda>(k, m). k = mid) (filter (\<lambda>(k, m). expiryDue ?c m) (st_expiryMarkets s)))"
    using assms(2) by (auto simp: checkExpiry_def Let_def filter_map comp_def split_beta)
  moreover have "st_expiryMarkets s' = map (\<lambda>(k, m). (k, if expiryDue ?c m then m\<lparr>em_fired := True\<rparr> else m)) (st_expiryMarkets s)"
    using assms(2) by (auto simp: checkExpiry_def Let_def)
  ultimately show "warningsIn mid (Warned ws) + outstanding mid (st_expiryMarkets s') = outstanding mid (st_expiryMarkets s)"
    using due_count [OF assms(1), of mid ?c] by simp
  show "gmap_ok (st_expiryMarkets s')" and "st_reconcileTrigger s' = st_reconcileTrigger s"
    using assms by (auto simp: checkExpiry_def Let_def comp_def split_beta)
qed

lemma view_eq:
  "loopView s' = loopView s \<Longrightarrow> st_expiryMarkets s' = st_expiryMarkets s" "loopView s' = (ms, b) \<Longrightarrow> st_expiryMarkets s' = ms"
  "loopView s' = loopView s \<Longrightarrow> st_reconcileTrigger s' = st_reconcileTrigger s" "loopView s' = (ms, b) \<Longrightarrow> st_reconcileTrigger s' = b"
  by (simp_all add: loopView_def)

lemma warning_step:
  assumes "loop_step G l ev l'" and "gmap_ok (st_expiryMarkets (lp_ledger l))"
  shows "gmap_ok (st_expiryMarkets (lp_ledger l')) \<and>
    warningsIn mid ev + outstanding mid (st_expiryMarkets (lp_ledger l')) \<le>
      (if ev = Registered mid then 1 else 0) + outstanding mid (st_expiryMarkets (lp_ledger l))"
  using assms
proof (cases rule: loop_step.cases)
  case (register m endTime toks)
  then show ?thesis using assms(2)
    by (auto simp: RegisterMarketExpiry_def outstanding_def update_conv' intro: distinct_update split: option.split)
next
  case (ticked cfg reply env s rep)
  then have "loopView s = (st_expiryMarkets (lp_ledger l), st_reconcileTrigger (lp_ledger l))"
    using view_body [of G cfg False reply env "lp_ledger l"] by simp
  from view_eq(2) [OF this] ticked assms(2) show ?thesis by simp
next
  case (served cfg reply env s rep)
  then have "loopView s = (st_expiryMarkets (lp_ledger l), False)"
    using view_body [of G cfg True reply env "lp_ledger l"] by simp
  from view_eq(2) [OF this] served assms(2) show ?thesis by simp
next
  case (synced reading s evt cb)
  then have "loopView s = loopView (lp_ledger l)" using view_Sync [of reading "lp_ledger l"] by simp
  from view_eq(1) [OF this] have "st_expiryMarkets s = st_expiryMarkets (lp_ledger l)" .
  with synced assms(2) show ?thesis by simp
next
  case (warned tick w clock s ws)
  with checkExpiry_count(1,2) [OF assms(2) warned(4)] show ?thesis by simp
next
  case (elsewhere s)
  with view_eq(1) [OF elsewhere(4)] assms(2) show ?thesis by simp
qed (simp_all add: TriggerReconcile_def)

text \<open>C26. No market is warned about more often than it is registered, however many expiry loops
  run and whatever the reconciliation, the balance synchronisation and the other goroutines do to
  the ledger in between: a warning uses up the registration it answers, and a registration that
  has not been answered is still outstanding.\<close>

theorem warned_once_per_registration:
  assumes "loop_run G l evs l'" and "gmap_ok (st_expiryMarkets (lp_ledger l))"
  shows "warnings mid evs + outstanding mid (st_expiryMarkets (lp_ledger l')) \<le>
    registrations mid evs + outstanding mid (st_expiryMarkets (lp_ledger l))"
proof -
  from assms have "gmap_ok (st_expiryMarkets (lp_ledger l')) \<and> warnings mid evs + outstanding mid (st_expiryMarkets (lp_ledger l')) \<le>
    registrations mid evs + outstanding mid (st_expiryMarkets (lp_ledger l))"
  proof (induction rule: loop_run.induct)
    case (step l evs l' ev l'')
    with warning_step [OF step.hyps(2), of mid] show ?case by fastforce
  qed simp
  then show ?thesis by simp
qed

section \<open>Triggers\<close>

definition served :: "loopEvent list \<Rightarrow> bool" where
  "served evs = list_ex (\<lambda>ev. case ev of Served rep \<Rightarrow> True | _ \<Rightarrow> False) evs"

lemma trigger_step:
  assumes "loop_step G l ev l'" and "\<not> served [ev]" and "st_reconcileTrigger (lp_ledger l)"
  shows "st_reconcileTrigger (lp_ledger l')"
  using assms(1)
proof (cases rule: loop_step.cases)
  case (ticked cfg reply env s rep)
  then have "loopView s = (st_expiryMarkets (lp_ledger l), st_reconcileTrigger (lp_ledger l))"
    using view_body [of G cfg False reply env "lp_ledger l"] by simp
  from view_eq(4) [OF this] ticked assms(3) show ?thesis by simp
next
  case (synced reading s evt cb)
  then have "loopView s = loopView (lp_ledger l)" using view_Sync [of reading "lp_ledger l"] by simp
  from view_eq(3) [OF this] have "st_reconcileTrigger s = st_reconcileTrigger (lp_ledger l)" .
  with synced assms(3) show ?thesis by simp
next
  case (warned tick w clock s ws)
  then show ?thesis using assms(3) by (auto simp: checkExpiry_def Let_def)
next
  case (elsewhere s)
  with view_eq(3) [OF elsewhere(4)] assms(3) show ?thesis by simp
qed (use assms in \<open>simp_all add: served_def TriggerReconcile_def RegisterMarketExpiry_def\<close>)

lemma loops_kept:
  assumes "loop_step G l ev l'" and "\<not> lp_cancelled l'"
  shows "\<not> lp_cancelled l \<and> set (lp_reconcile l) \<subseteq> set (lp_reconcile l')"
  using assms
  by (cases rule: loop_step.cases)
    (auto simp: StartReconcileLoop_def StartBalanceSync_def StartPositionExpiringLoop_def Let_def split: if_splits)


text \<open>C0. The balance is synchronised by one goroutine however often \<^verbatim>\<open>StartBalanceSync\<close> is
  called, but each call of \<^verbatim>\<open>StartReconcileLoop\<close> adds a loop.\<close>

theorem second_reconcile_loop:
  assumes "rg_Enabled cfg"
  shows "length (lp_reconcile (StartReconcileLoop True cfg l)) = length (lp_reconcile l) + 1 \<and>
    StartBalanceSync (StartBalanceSync l) = StartBalanceSync l"
  using assms by (simp add: StartReconcileLoop_def StartBalanceSync_def Let_def)

section \<open>Examples\<close>

definition demoLoops :: loops where
  "demoLoops = StartReconcileLoop True \<lparr>rg_Enabled = True, rg_Interval = 0, rg_RetryBackoff = [], rg_OnReport = True\<rparr>
     (StartPositionExpiringLoop second second
       \<lparr>lp_ledger = NewStateWithBalanceSync demoConfig, lp_reconcile = [], lp_balance = None, lp_balanceOnce = False, lp_expiry = [],
        lp_cancelled = False\<rparr>)"

lemma demo_register: "loop_run G demoLoops [Registered ''m''] (demoLoops\<lparr>lp_ledger := RegisterMarketExpiry ''m'' 1000 [''t''] (lp_ledger demoLoops)\<rparr>)"
  using loop_run.step [OF loop_run.stay [of G demoLoops] loop_step.register] by simp

corollary warned_once_per_registration_witness:
  "\<exists>ws l'. loop_run demoJSON demoLoops [Registered ''m'', Warned ws] l' \<and> ws \<noteq> [] \<and>
     warnings ''m'' [Registered ''m'', Warned ws] \<le> 1"
proof -
  let ?l = "demoLoops\<lparr>lp_ledger := RegisterMarketExpiry ''m'' 1000 [''t''] (lp_ledger demoLoops)\<rparr>"
  obtain s ws where c: "checkExpiry (unixEpoch * 1000000000) second (lp_ledger ?l) = (s, ws)" by fastforce
  have led: "lp_ledger demoLoops = NewStateWithBalanceSync demoConfig" by (simp add: demoLoops_def)
  have "ws \<noteq> []" using c
    by (auto simp: led checkExpiry_def RegisterMarketExpiry_def NewStateWithBalanceSync_def Let_def expiryDue_def timeUnixMilli_def unixEpoch_def)
  have "loop_step demoJSON ?l (Warned ws) (?l\<lparr>lp_ledger := s\<rparr>)"
    by (rule loop_step.warned [OF _ c, of second]) (simp add: demoLoops_def StartReconcileLoop_def StartPositionExpiringLoop_def Let_def)
  from loop_run.step [OF demo_register this] have r: "loop_run demoJSON demoLoops [Registered ''m'', Warned ws] (?l\<lparr>lp_ledger := s\<rparr>)" by simp
  have "gmap_ok (st_expiryMarkets (lp_ledger demoLoops))" by (simp add: led NewStateWithBalanceSync_def Let_def)
  from warned_once_per_registration [OF r this, of "''m''"] r \<open>ws \<noteq> []\<close> show ?thesis
    by (auto simp: led registrations_def outstanding_def NewStateWithBalanceSync_def Let_def)
qed


end
