(* ===== verification/App.thy ===== *)
theory App
  imports Observer Onchain Desk Lifecycle Loops
begin

text \<open>
  The wiring of \<^verbatim>\<open>main.go\<close>: the engine built from the loaded configuration, and the callback
  that turns a report of the reconciliation loop into metrics and an event; and the two price
  feeds (\<^verbatim>\<open>market/crypto_price_feed.go\<close>, \<^verbatim>\<open>market/mock_price_feed.go\<close>).
\<close>

section \<open>The engine of a configuration\<close>

definition riskOf :: "RiskConfig \<Rightarrow> RiskEngine" where
  "riskOf c =
     \<lparr>rk_MaxDailyLoss = rc_MaxDailyLoss c, rk_MaxExposurePerMarket = rc_MaxExposurePerMarket c,
      rk_MaxSlippageBps = rc_MaxSlippageBps c, rk_MaxOpenOrders = rc_MaxOpenOrders c,
      rk_MarketCooldown = rc_MarketCooldown c, rk_lastIntentPerMarket = None\<rparr>"

definition newEngine :: "Config \<Rightarrow> State \<Rightarrow> Engine" where
  "newEngine cfg st =
     \<lparr>en_State = st, en_Risk = riskOf (cf_Risk cfg), en_PendingEventTTL = 0, en_FinalizedOrderTTL = 0,
      en_ProvisionalOrderTTL = 0, en_StrategyTickInterval = 0, en_MetricsInterval = 0, en_ticks = 0, en_inputEvents = 0,
      en_executionEvents = 0, en_executionAccepted = 0, en_executionFilled = 0, en_executionRejected = 0,
      en_executionBuffered = 0, en_executionExpired = 0, en_riskRejected = 0, en_ordersSent = 0, en_reconcileRuns = 0,
      en_reconcileDiffs = 0, en_intentSeq = 0, en_accepted = {}, en_finalized = {}, en_finalizedAt = [], en_pending = [],
      en_risk = []\<rparr>"

text \<open>\<^verbatim>\<open>main\<close> up to the wired engine, with the log state it leaves; a failure after the log is
  set up closes it again.\<close>

definition mainSetup :: "configEnv \<Rightarrow> ('a, 'b) abiLib \<Rightarrow> logState \<Rightarrow> (goerror + Engine) \<times> logState" where
  "mainSetup E A lg =
    (case Load E of
       Inl err \<Rightarrow> (Inl err, lg)
     | Inr cfg \<Rightarrow>
       (let lg = logInit (cf_Logging cfg) lg
        in case NewState A cfg of
             Inl err \<Rightarrow> (Inl err, logClose lg)
           | Inr (st, reader) \<Rightarrow> (Inr (newEngine cfg st), lg)))"

text \<open>The reconciliation loop, which \<^verbatim>\<open>main\<close> launches before it starts the engine.\<close>

definition reconcileOf :: "ReconcileSection \<Rightarrow> ReconcileConfig" where
  "reconcileOf c = \<lparr>rg_Enabled = True, rg_Interval = rcs_Interval c, rg_RetryBackoff = rcs_RetryBackoff c, rg_OnReport = True\<rparr>"

definition mainLoops :: "Config \<Rightarrow> State \<Rightarrow> loops" where
  "mainLoops cfg st = StartReconcileLoop True (reconcileOf (cf_Reconcile cfg))
     \<lparr>lp_ledger = st, lp_reconcile = [], lp_balance = None, lp_balanceOnce = False, lp_expiry = [], lp_cancelled = False\<rparr>"

section \<open>Reports of the reconciliation loop\<close>

definition onReport :: "bool \<Rightarrow> time \<Rightarrow> ReconcileReport \<Rightarrow> Engine \<Rightarrow> Engine \<times> (eventType \<times> ReconcileEvent) option" where
  "onReport hasBus clock rep e =
    (if \<not> hasBus then (e, None)
     else
       let totalAdded = rr_OrdersAdded rep + rr_PositionsAdded rep;
           totalRemoved = rr_OrdersRemoved rep + rr_PositionsRemoved rep;
           totalUpdated = rr_OrdersUpdated rep + rr_PositionsUpdated rep;
           e = RecordReconcile (totalAdded + totalRemoved + totalUpdated) e
       in (e, Some (EventReconcile,
              \<lparr>ve_Type = ''BOTH'', ve_Added = totalAdded, ve_Removed = totalRemoved, ve_Updated = totalUpdated,
               ve_DurationMs = rr_DurationMs rep, ve_Err = rr_Err rep, ve_At = clock\<rparr>)))"

section \<open>The engine as it is wired\<close>

lemma newEngine_empty: "newEngine cfg s = emptyEngine s (riskOf (cf_Risk cfg))"
  by (simp add: newEngine_def emptyEngine_def)

lemma NewState_reachable: "NewState A cfg = Inr (s, reader) \<Longrightarrow> state_reachable s"
  by (auto simp: NewState_def intro: state_reachable.init split: sum.splits prod.splits)

lemma onReport_reachable: "engine_reachable G e \<Longrightarrow> engine_reachable G (fst (onReport hasBus clock rep e))"
  by (simp add: onReport_def Let_def engine_reachable.reconciled)

lemma state_steps_reachable: "state_step\<^sup>*\<^sup>* s s' \<Longrightarrow> state_reachable s \<Longrightarrow> state_reachable s'"
  by (induction rule: rtranclp_induct) (auto intro: state_reachable.step)

lemma restoreTracking_risk [simp]: "en_Risk (restoreOpenOrdersTrackingByIDs ids e) = en_Risk e"
  by (induction ids arbitrary: e) (simp_all add: restoreOpenOrdersTrackingByIDs_def markAccepted_def)

lemma restoreTracking_counters [simp]:
  "en_reconcileRuns (restoreOpenOrdersTrackingByIDs ids e) = en_reconcileRuns e"
  "en_reconcileDiffs (restoreOpenOrdersTrackingByIDs ids e) = en_reconcileDiffs e"
  by (induction ids arbitrary: e) (simp_all add: restoreOpenOrdersTrackingByIDs_def markAccepted_def)

lemma Start_counters:
  "en_reconcileRuns (Start config G reading orders positions e) = en_reconcileRuns e"
  "en_reconcileDiffs (Start config G reading orders positions e) = en_reconcileDiffs e"
  by (simp_all add: Start_def Let_def split_beta publishRisk_def initOrderTracking_def initConfig_def split: sum.split option.split)

lemma Start_risk: "en_Risk (Start config G reading orders positions e) = en_Risk e"
  by (simp add: Start_def Let_def split_beta publishRisk_def initOrderTracking_def initConfig_def split: sum.split option.split)

section \<open>What the event loop leaves alone\<close>

text \<open>The risk limits and the counters of the reconciliation.\<close>

definition limitsOf :: "RiskEngine \<Rightarrow> RiskEngine" where
  "limitsOf r = r\<lparr>rk_lastIntentPerMarket := None\<rparr>"

definition wiring :: "Engine \<Rightarrow> RiskEngine \<times> 64 word \<times> 64 word" where
  "wiring e = (limitsOf (en_Risk e), en_reconcileRuns e, en_reconcileDiffs e)"

lemma wiring_basic [simp]:
  "wiring (publishRisk reason e) = wiring e" "wiring (e\<lparr>en_State := s\<rparr>) = wiring e"
  "wiring (markAccepted k e) = wiring e" "wiring (bufferExecution clock data e) = wiring e"
  "wiring (finalizeOrder clock k e) = wiring e" "wiring (countEvent e) = wiring e"
  "wiring (e\<lparr>en_inputEvents := n\<rparr>) = wiring e" "wiring (e\<lparr>en_ticks := n\<rparr>) = wiring e"
  "wiring (e\<lparr>en_executionFilled := n\<rparr>) = wiring e" "wiring (e\<lparr>en_executionRejected := n\<rparr>) = wiring e"
  "wiring (e\<lparr>en_executionAccepted := n\<rparr>) = wiring e" "wiring (e\<lparr>en_executionExpired := n\<rparr>) = wiring e"
  "wiring (e\<lparr>en_riskRejected := n\<rparr>) = wiring e" "wiring (e\<lparr>en_ordersSent := n\<rparr>) = wiring e"
  "wiring (e\<lparr>en_intentSeq := n\<rparr>) = wiring e" "wiring (e\<lparr>en_pending := m\<rparr>) = wiring e"
  by (simp_all add: wiring_def publishRisk_def markAccepted_def bufferExecution_def finalizeOrder_def countEvent_def Let_def
      split: option.split)

lemma wiring_simpleEvent [simp]: "wiring (simpleEvent clock data e) = wiring e"
  by (cases "ev_Status data")
    (simp_all add: simpleEvent_def handleAnonymous_def handleFill_def handleCancelled_def handleRejected_def Let_def split_beta
      split: option.split)

lemma wiring_fold: "(\<And>x e. wiring (f x e) = wiring e) \<Longrightarrow> wiring (fold f xs e) = wiring e"
  by (induction xs arbitrary: e) simp_all

lemma wiring_handleEvent [simp]: "wiring (handleEvent clock data cnt e) = wiring e"
proof -
  have a: "wiring (acceptOrder data e) = wiring e" for e by (simp add: acceptOrder_def Let_def split_beta split: option.split)
  have t: "wiring (fst (takePending k e)) = wiring e" for k e by (simp add: takePending_def Let_def split: option.split)
  show ?thesis by (simp add: handleEvent_def Let_def split_beta wiring_fold a t)
qed

lemma wiring_cleanup [simp]: "wiring (cleanupTracking clock now e) = wiring e"
proof -
  have p: "wiring (cleanupExpiredPending now e) = wiring e" for e
    by (simp add: cleanupExpiredPending_def Let_def wiring_fold split_beta)
  have f: "wiring (cleanupExpiredFinalized now e) = wiring e" for e by (simp add: cleanupExpiredFinalized_def Let_def wiring_def)
  show ?thesis by (simp add: cleanupTracking_def cleanupExpiredProvisional_def Let_def split_beta wiring_fold p f)
qed

lemma wiring_reserveLoop: "wiring (fst (reserveLoop clock is e acc)) = wiring e"
  by (induction "is" arbitrary: e acc) (simp_all add: Let_def split_beta nextIntentID_def split: option.split)

lemma limits_Check: "Check clock is snap mids r = Some (r', res) \<Longrightarrow> limitsOf r' = limitsOf r"
  by (cases rule: Check_cases [of "is" clock snap mids r]) (auto simp: limitsOf_def cooled_def recorded_def)

lemma wiring_submit:
  assumes "submitIntents clock is snap mids e = Some (e', g, sent)"
  shows "wiring e' = wiring e"
proof -
  have "limitsOf rk = limitsOf (en_Risk e) \<Longrightarrow> wiring (e\<lparr>en_Risk := rk\<rparr>) = wiring e" for rk by (simp add: wiring_def)
  moreover have "wiring (e\<lparr>en_Risk := rk, en_riskRejected := n\<rparr>) = wiring (e\<lparr>en_Risk := rk\<rparr>)" for rk n by (simp add: wiring_def)
  ultimately show ?thesis
    using assms wiring_reserveLoop [of clock "is" "e\<lparr>en_Risk := rk\<rparr>" "[]" for rk]
    by (auto simp: submitIntents_def Let_def split_beta dest!: limits_Check split: option.splits if_splits prod.splits)
qed

lemma wiring_strategies: "runStrategies clock strats snap mids e sent = Some (e', out) \<Longrightarrow> wiring e' = wiring e"
  by (induction clock strats snap mids e sent rule: runStrategies.induct)
    (auto simp: Let_def dest: wiring_submit split: if_splits option.splits prod.splits)

lemma wiring_event:
  assumes "tracking_ok e" and "engineEvent clock inp e = Some (e', out)"
  shows "wiring e' = wiring e"
proof -
  have "handleExecutionEvent replayDepth clock data True e = Some (handleEvent clock data True e)" for data
    using fuel_enough [OF assms(1)] by (simp add: replayDepth_def numeral_2_eq_2 del: handleExecutionEvent.simps)
  with assms(2) show ?thesis
    by (cases "(clock, inp, e)" rule: engineEvent.cases)
      (auto simp: strategy_handlers dest!: wiring_strategies split: option.splits if_splits)
qed

section \<open>A run of the wired engine\<close>

text \<open>What happens while the program runs: something the engine's loop selects, the metrics ticker,
  a report of the reconciliation loop, or what another goroutine does to the ledger.\<close>

datatype liveInput =
    LoopEvent time engineInput
  | MetricsDue time time "(string, Token) gomap option" BusStats
  | Reported time ReconcileReport
  | Elsewhere "State \<Rightarrow> State"

fun liveRun :: "liveInput list \<Rightarrow> Engine \<Rightarrow> Engine option" where
  "liveRun [] e = Some e"
| "liveRun (LoopEvent clock inp # rest) e =
     (case engineEvent clock inp e of None \<Rightarrow> None | Some (e, sent) \<Rightarrow> liveRun rest e)"
| "liveRun (MetricsDue clock now tokens stats # rest) e = liveRun rest (fst (metricsTick clock now tokens stats e))"
| "liveRun (Reported clock rep # rest) e = liveRun rest (fst (onReport True clock rep e))"
| "liveRun (Elsewhere f # rest) e = liveRun rest (e\<lparr>en_State := f (en_State e)\<rparr>)"

text \<open>Other goroutines use the ledger through its operations.\<close>

fun liveInput_ok :: "liveInput \<Rightarrow> bool" where
  "liveInput_ok (Elsewhere f) = (\<forall>s. state_step\<^sup>*\<^sup>* s (f s))"
| "liveInput_ok _ = True"

definition reportTotal :: "ReconcileReport \<Rightarrow> int" where
  "reportTotal rep = rr_OrdersAdded rep + rr_PositionsAdded rep + (rr_OrdersRemoved rep + rr_PositionsRemoved rep) +
     (rr_OrdersUpdated rep + rr_PositionsUpdated rep)"

definition reportsOf :: "liveInput list \<Rightarrow> ReconcileReport list" where
  "reportsOf inputs = concat (map (\<lambda>i. case i of Reported clock rep \<Rightarrow> [rep] | _ \<Rightarrow> []) inputs)"

lemma reportsOf_simps [simp]:
  "reportsOf [] = []" "reportsOf (LoopEvent clock inp # is) = reportsOf is"
  "reportsOf (MetricsDue clock now tokens stats # is) = reportsOf is"
  "reportsOf (Reported clock rep # is) = rep # reportsOf is" "reportsOf (Elsewhere f # is) = reportsOf is"
  by (simp_all add: reportsOf_def)

lemma wiring_report:
  "wiring e = (rk, n, d) \<Longrightarrow>
   wiring (fst (onReport True clock rep e)) = (rk, n + 1, d + of_int (max 0 (reportTotal rep)))"
  by (auto simp: wiring_def onReport_def RecordReconcile_def Let_def reportTotal_def)

lemma engine_ledger_steps:
  "state_step\<^sup>*\<^sup>* (en_State e) s \<Longrightarrow> engine_reachable G e \<Longrightarrow> engine_reachable G (e\<lparr>en_State := s\<rparr>)"
proof (induction rule: rtranclp_induct)
  case (step s s')
  then show ?case using engine_reachable.ledger [of G "e\<lparr>en_State := s\<rparr>" s'] by simp
qed simp

lemma liveRun_ok:
  assumes "engine_reachable G e" and "wiring e = (rk, n, d)" and "list_all liveInput_ok inputs"
  shows "\<exists>e'. liveRun inputs e = Some e' \<and> engine_reachable G e' \<and>
    wiring e' = (rk, n + of_nat (length (reportsOf inputs)), d + (\<Sum>r \<leftarrow> reportsOf inputs. of_int (max 0 (reportTotal r))))"
  using assms
proof (induction inputs arbitrary: e n d)
  case (Cons i "is")
  have ok: "tracking_ok e" using reachable_ok [OF Cons.prems(1)] by simp
  show ?case
  proof (cases i)
    case (LoopEvent clock inp)
    obtain e1 out where ev: "engineEvent clock inp e = Some (e1, out)" using engineEvent_some [OF ok] by blast
    have "engine_reachable G e1" using Cons.prems(1) ev by (rule engine_reachable.event)
    moreover have "wiring e1 = (rk, n, d)" using wiring_event [OF ok ev] Cons.prems(2) by simp
    ultimately show ?thesis using Cons.IH [of e1 n d] Cons.prems(3) ev LoopEvent by simp
  next
    case (MetricsDue clock now tokens stats)
    have "engine_reachable G (cleanupTracking clock now e)"
      using engine_reachable.event [OF Cons.prems(1), of clock "CleanupTick now"] by simp
    from Cons.IH [OF this] Cons.prems(2,3) show ?thesis by (simp add: MetricsDue metricsTick_def Let_def)
  next
    case (Elsewhere f)
    have "engine_reachable G (e\<lparr>en_State := f (en_State e)\<rparr>)"
      by (rule engine_ledger_steps [OF _ Cons.prems(1)]) (use Cons.prems(3) Elsewhere in simp)
    from Cons.IH [OF this] Cons.prems(2,3) show ?thesis by (simp add: Elsewhere)
  next
    case (Reported clock rep)
    have "engine_reachable G (fst (onReport True clock rep e))" using Cons.prems(1) by (rule onReport_reachable)
    from Cons.IH [OF this wiring_report [OF Cons.prems(2)]] Cons.prems(3) show ?thesis
      by (simp add: Reported add.assoc)
  qed
qed simp


definition demoReport :: ReconcileReport where
  "demoReport = \<lparr>rr_OrdersAdded = 2, rr_OrdersRemoved = 0, rr_OrdersUpdated = 0, rr_PositionsAdded = 0,
     rr_PositionsRemoved = 1, rr_PositionsUpdated = 0, rr_DurationMs = 5, rr_Err = None\<rparr>"


section \<open>Price feeds\<close>

text \<open>One message of the price channel; \<open>None\<close> is the receive from a closed channel.\<close>

definition cryptoForward :: "Tick option \<Rightarrow> Tick list \<Rightarrow> Tick list" where
  "cryptoForward msg sent = (case msg of None \<Rightarrow> sent | Some data \<Rightarrow> sent @ [data])"

record MockPriceFeed =
  mf_MarketID :: string
  mf_TokenID :: string
  mf_price :: float64

definition mockDefaults :: "MockPriceFeed \<Rightarrow> MockPriceFeed" where
  "mockDefaults p =
    (let p = (if mf_MarketID p = [] then p\<lparr>mf_MarketID := ''market-1''\<rparr> else p);
         p = (if mf_TokenID p = [] then p\<lparr>mf_TokenID := ''token-1''\<rparr> else p)
     in p\<lparr>mf_price := f64 (1 / 2)\<rparr>)"

record MarketEvent =
  mv_MarketID :: string
  mv_TokenID :: string
  mv_Price :: float64
  mv_Timestamp :: int

text \<open>One tick with a random number of \<^verbatim>\<open>rand.Float64\<close>.\<close>

definition mockTick :: "time \<Rightarrow> float64 \<Rightarrow> MockPriceFeed \<Rightarrow> MockPriceFeed \<times> MarketEvent" where
  "mockTick clock rand p =
    (let price = mf_price p + (rand * f64 (4 / 100) - f64 (2 / 100));
         price = (if price < f64 (1 / 100) then f64 (1 / 100) else price);
         price = (if f64 (99 / 100) < price then f64 (99 / 100) else price)
     in (p\<lparr>mf_price := price\<rparr>,
         \<lparr>mv_MarketID = mf_MarketID p, mv_TokenID = mf_TokenID p, mv_Price = price, mv_Timestamp = timeUnixMilli clock\<rparr>))"

lemma mock_price_in_range:
  "f64 (1 / 100) \<le> mv_Price (snd (mockTick clock rand p)) \<and> mv_Price (snd (mockTick clock rand p)) \<le> f64 (99 / 100)"
proof -
  have "f64 (1 / 100) \<le> f64 (99 / 100)" by code_simp
  then show ?thesis by (simp add: mockTick_def Let_def not_less)
qed

end
