(* ===== verification/Spec2Isabelle.thy ===== *)
theory Spec2Isabelle
  imports Books Agreement Window Bus QueueMap Indicators Risk Settlement Desk Redeem App
begin

text \<open>
  A verification library for PolyPilot, a trading engine for the short-lived prediction markets
  of Polymarket (Go).

  \<^bold>\<open>The program.\<close>  Feeds (\<^verbatim>\<open>market/\<close>) publish markets, order books and prices on an
  event bus (\<^verbatim>\<open>core/bus.go\<close>).  The runtime engine (\<^verbatim>\<open>runtime/\<close>) hands them to the
  probability engine (\<^verbatim>\<open>probability/\<close>, with \<^verbatim>\<open>indicators/\<close> and
  \<^verbatim>\<open>internal/buffer\<close>) and the observation it answers with to the strategies
  (\<^verbatim>\<open>strategy/\<close>).  Their order intents pass the risk check (\<^verbatim>\<open>risk/\<close>), reserve funds in
  the ledger (\<^verbatim>\<open>state/\<close>) and go to the executor (\<^verbatim>\<open>execution/\<close>), which posts them at the
  exchange and publishes execution events; the runtime tracks these and books them in the
  ledger, which a reconciliation loop compares with the exchange.  \<^verbatim>\<open>main.go\<close> loads the
  configuration (\<^verbatim>\<open>config/\<close>), sets up the log files (\<^verbatim>\<open>logx/\<close>), wires the parts and starts
  them; \<^verbatim>\<open>observer/\<close> writes the events of the bus to the log.

  \<^bold>\<open>The theories.\<close>
  \<^item> \<^verbatim>\<open>Prelude\<close>: Go maps (association lists with distinct keys), strings, times, and the
    lemmas on them.  \<^verbatim>\<open>Float64\<close>: IEEE binary64 on finite values, round to nearest even,
    with the error bounds the ledger theorems use.  \<^verbatim>\<open>Core\<close>: sides, statuses, errors,
    events, pricing (\<^verbatim>\<open>core/\<close>).
  \<^item> \<^verbatim>\<open>State\<close>, \<^verbatim>\<open>Reconcile\<close>: the ledger and every operation on it (\<^verbatim>\<open>state.go\<close>,
    \<^verbatim>\<open>reservation.go\<close>, \<^verbatim>\<open>fill.go\<close>, \<^verbatim>\<open>balance_sync.go\<close>, \<^verbatim>\<open>reconcile.go\<close>,
    \<^verbatim>\<open>state_restore.go\<close>, \<^verbatim>\<open>position_expiring.go\<close>).  \<^verbatim>\<open>Ledger\<close>: every operation
    keeps the well-formedness of the ledger, through one locale of invariants of the step
    relation.  \<^verbatim>\<open>Books\<close>: what is reserved equals what the open orders commit, up to the
    rounding of the operations performed; errors change nothing; reserve and release cancel.
    \<^verbatim>\<open>Agreement\<close>: what a reconciliation pass, the retry loop, the expiry watch and the
    cleanup of reservations establish.  \<^verbatim>\<open>Loops\<close>: the background loops of the ledger with its
    other users as a step relation: no trigger is lost, no warning repeated.
  \<^item> \<^verbatim>\<open>Window\<close>: the ring buffer refines the last values of a stream; \<^verbatim>\<open>Indicators\<close>:
    order book imbalance and z-score on the same locale; \<^verbatim>\<open>QueueMap\<close>: the bounded map of
    \<^verbatim>\<open>strategy/queue_map.go\<close>; \<^verbatim>\<open>Bus\<close>: subscribers see the published events in order,
    without those dropped at a full channel.
  \<^item> \<^verbatim>\<open>Risk\<close>: the batch check and what an accepted batch guarantees.  \<^verbatim>\<open>Runtime\<close>: the
    engine's state, its handlers, submission of intents, start and event loop.
    \<^verbatim>\<open>Tracking\<close>, \<^verbatim>\<open>Lifecycle\<close>: the reachable engines, in which tracking is consistent
    and no event is lost, whatever the order in which acceptance and fills arrive.
  \<^item> \<^verbatim>\<open>Execution\<close>: the executor, its queue, posting, cancelling, splits and merges and the
    messages of the trade monitor.  \<^verbatim>\<open>Posting\<close>: every placement is answered, and once.
    \<^verbatim>\<open>Monitor\<close>: at most one acceptance and one terminal event per order, by interpreting
    one locale of one-shot events twice.  \<^verbatim>\<open>Settlement\<close>: executor and engine together: the
    answers to a batch release or convert every reservation made for it.
  \<^item> \<^verbatim>\<open>Feed\<close>: the market feed and its publication protocol.  \<^verbatim>\<open>Probability\<close>: the
    probability engine.  \<^verbatim>\<open>Strategy\<close>: the strategy.  \<^verbatim>\<open>Desk\<close>: the two as the runtime
    drives them.
  \<^item> \<^verbatim>\<open>Logx\<close>: which file a module logs to (\<^verbatim>\<open>logx/\<close>).  \<^verbatim>\<open>Config\<close>: loading of the
    configuration, with the decryption of its secrets (\<^verbatim>\<open>config/\<close>).  \<^verbatim>\<open>Onchain\<close>: the balance
    reader and the multicall under it (\<^verbatim>\<open>balance_reader_multicall.go\<close>,
    \<^verbatim>\<open>internal/multicall\<close>).  \<^verbatim>\<open>Redeem\<close>: the Polymarket client of the ledger and the
    redemption (\<^verbatim>\<open>state_restore_pm.go\<close>).  \<^verbatim>\<open>Observer\<close>: the line logged for each event, and
    that the log tells apart what was traded.
  \<^item> \<^verbatim>\<open>App\<close>: the wiring of \<^verbatim>\<open>main.go\<close> over all of it, the callback of the reconciliation
    loop and the two price feeds; the wired program is safe for every run, by the invariants of
    \<^verbatim>\<open>Ledger\<close>, \<^verbatim>\<open>Tracking\<close> and \<^verbatim>\<open>Lifecycle\<close>.

  \<^bold>\<open>Correspondence.\<close>  A struct is a record whose fields carry the Go names behind a short
  prefix; a method is a function on the record that returns it updated; a handler under a lock is
  one step.  Errors are values (\<^verbatim>\<open>goerror\<close>), a panic is \<open>None\<close>.  The clock, the exchange's
  replies, the SDK (JSON readers, price functions, order building) and \<^verbatim>\<open>math.Log\<close> and
  \<^verbatim>\<open>math.Sqrt\<close> are arguments.  The order in which Go ranges over a map is the order of the
  association list, so theorems hold for every order.  The counters of the engine and the bus
  are \<open>64 word\<close>s.

  \<^bold>\<open>Bounds.\<close>  \<^verbatim>\<open>handleExecutionEvent\<close> and the replay of buffered events call each other;
  the model has a fuel, and \<^verbatim>\<open>replayDepth\<close> (two calls) is enough in every reachable state.
  No other definition has fuel.  Floating point values are finite: NaN, infinities and overflow
  are outside the model.

  \<^bold>\<open>Not modelled.\<close>  Timers (their ticks are steps) and the shutdown that cancels the
  context, except for the loops of the ledger; the websocket clients and the RPC client; what third-party
  packages compute, which is an argument where the code uses it: the encoding of contract calls,
  the decoding of the configuration file, the encryptor, the writers and the level filter of the
  logging library; \<^verbatim>\<open>utils/\<close> and \<^verbatim>\<open>internal/atomicx\<close> (a mutex around a value, a map copy, an
  atomic float: the models of their users hold the value itself); the interface and two structs of
  \<^verbatim>\<open>execution/adapter.go\<close>, which nothing uses.
\<close>

end
